theory Spec2Isabelle
  imports Complex_Main "HOL-Library.Word"
begin

section \<open>Video comparison tool: a shallow embedding of \<^verbatim>\<open>main.py\<close>\<close>

text \<open>
  The program compares two videos frame by frame. Its state is the attributes of the
  \<^verbatim>\<open>VideoComparer\<close> object; its collaborators (the FFmpeg processes, OpenCV, the Tk
  widgets, Python's \<^verbatim>\<open>float()\<close> and \<^verbatim>\<open>int()\<close> on strings) are outside the source and
  are parameters of the model, collected in the record \<open>env\<close>.

  Conventions of the embedding:
  \<^item> Python \<^verbatim>\<open>int\<close> is \<open>int\<close>. A finite Python \<^verbatim>\<open>float\<close> is the real number it
    stands for. Where the program truncates a float to a frame count or a pixel size, or
    compares two floats to choose a branch, the operations round as binary64 does
    (\<open>fl\<close> below) and an infinite result raises as in Python. Times in seconds (the
    seek offsets handed to FFmpeg, the status line) are computed exactly. The one infinite
    value the program stores, \<^verbatim>\<open>float('inf')\<close> in \<^verbatim>\<open>total_frames\<close>, is the constructor
    \<open>FramesInf\<close>; frame rates and durations are taken to be finite.
  \<^item> An exception is a value of \<open>exn\<close>. An \<open>action\<close> (a method of the class) is a
    function from the state to a pair of the exception that left it (if any) and the
    state at that moment, so that assignments made before a \<^verbatim>\<open>raise\<close> are kept, as
    in Python.
  \<^item> \<^verbatim>\<open>self.after(...)\<close> appends a \<open>callback\<close> to \<open>after_queue\<close>; the playback thread
    touches widgets only that way. The playback loop is run on its own: what the main
    thread does between two of its passes is not part of a run.
  \<^item> A widget is the options the program reads or writes; \<^verbatim>\<open>seek_bar.set\<close> stores
    the value and nothing more.
\<close>

subsection \<open>Python values\<close>

type_synonym byte = "8 word"

datatype exn =
  ValueError | TypeError | ZeroDivisionError | OverflowError | KeyError | IndexError
  | AttributeError | CalledProcessError | FileNotFoundError | JSONDecodeError | Cv2Error

text \<open>\<^verbatim>\<open>int(x)\<close> of a float truncates toward zero.\<close>

definition py_int :: "real \<Rightarrow> int" where
  "py_int x = (if 0 \<le> x then \<lfloor>x\<rfloor> else \<lceil>x\<rceil>)"

subsection \<open>Floating point\<close>

text \<open>
  A Python float is an IEEE 754 binary64 number, and the result of an arithmetic
  operation is the exact result rounded to the nearest such number, ties to the even
  significand. The doubles of magnitude in \<open>[2^e, 2^(e+1))\<close> are the multiples of
  \<open>2^(e-52)\<close>; below \<open>2^(-1022)\<close> the spacing stays \<open>2^(-1074)\<close>. \<open>exponent x\<close> is
  the \<open>e\<close> of a real \<open>x\<close> other than 0, found by halving or doubling, and \<open>fl x\<close>
  the double nearest to \<open>x\<close>, with no bound on the exponent from above. A result whose
  rounding reaches \<open>2^1024\<close> is infinite in binary64: \<open>overflows\<close>.
\<close>

definition pow2 :: "int \<Rightarrow> real" where
  "pow2 k = (if 0 \<le> k then 2 ^ nat k else 1 / 2 ^ nat (- k))"

function lg_up :: "real \<Rightarrow> int" where
  "lg_up x = (if x < 2 then 0 else 1 + lg_up (x / 2))"
  by auto
termination
proof (relation "measure (\<lambda>x. nat \<lceil>x\<rceil>)")
  show "wf (measure (\<lambda>x. nat \<lceil>x\<rceil>))" by simp
next
  fix x :: real
  assume "\<not> x < 2"
  then have "\<lceil>x / 2\<rceil> < \<lceil>x\<rceil>" and "0 < \<lceil>x\<rceil>"
    by linarith+
  then show "(x / 2, x) \<in> measure (\<lambda>x. nat \<lceil>x\<rceil>)" by simp
qed

function lg_down :: "real \<Rightarrow> int" where
  "lg_down x = (if x \<le> 0 \<or> 1 \<le> x then 0 else lg_down (2 * x) - 1)"
  by auto
termination
proof (relation "measure (\<lambda>x. nat \<lceil>1 / x\<rceil>)")
  show "wf (measure (\<lambda>x. nat \<lceil>1 / x\<rceil>))" by simp
next
  fix x :: real
  assume "\<not> (x \<le> 0 \<or> 1 \<le> x)"
  then have x: "0 < x" "x < 1" by simp_all
  define y where "y = 1 / x"
  from x have y: "1 < y" by (simp add: y_def)
  have h: "1 / (2 * x) = y / 2" by (simp add: y_def)
  from y have c: "2 \<le> \<lceil>y\<rceil>" by (simp add: le_ceiling_iff)
  from c have "2 \<le> real_of_int \<lceil>y\<rceil>" by linarith
  moreover have "y \<le> real_of_int \<lceil>y\<rceil>" by (rule le_of_int_ceiling)
  ultimately have "y / 2 \<le> real_of_int \<lceil>y\<rceil> - 1" by linarith
  then have "y / 2 \<le> real_of_int (\<lceil>y\<rceil> - 1)" by simp
  then have "\<lceil>y / 2\<rceil> \<le> \<lceil>y\<rceil> - 1" by (simp only: ceiling_le_iff)
  with c have "\<lceil>y / 2\<rceil> < \<lceil>y\<rceil>" and "0 < \<lceil>y\<rceil>" by simp_all
  then show "(2 * x, x) \<in> measure (\<lambda>x. nat \<lceil>1 / x\<rceil>)"
    by (simp add: h y_def [symmetric])
qed

declare lg_up.simps [simp del] lg_down.simps [simp del]

definition exponent :: "real \<Rightarrow> int" where
  "exponent x = (if 1 \<le> \<bar>x\<bar> then lg_up \<bar>x\<bar> else lg_down \<bar>x\<bar>)"

definition round_half_even :: "real \<Rightarrow> int" where
  "round_half_even y =
     (let f = \<lfloor>y\<rfloor>
      in if y - real_of_int f < 1 / 2 then f
         else if 1 / 2 < y - real_of_int f then f + 1
         else if even f then f else f + 1)"

definition fl :: "real \<Rightarrow> real" where
  "fl x =
     (let q = pow2 (max (exponent x) (- 1022) - 52)
      in real_of_int (round_half_even (x / q)) * q)"

definition overflows :: "real \<Rightarrow> bool" where
  "overflows x \<longleftrightarrow> 2 ^ 1024 \<le> \<bar>fl x\<bar>"

text \<open>
  \<^verbatim>\<open>a / b\<close> of two integers is the correctly rounded quotient, and raises when the
  divisor is 0 or the quotient is too large for a float. An integer that meets a float
  in an operation is converted first, which raises when it is too large. \<^verbatim>\<open>int(x)\<close>
  of an infinite float raises; \<open>int_of_result x\<close> is \<^verbatim>\<open>int()\<close> of the float result of
  an operation on floats whose exact value is \<open>x\<close>.
\<close>

definition int_truediv :: "int \<Rightarrow> int \<Rightarrow> exn + real" where
  "int_truediv a b =
     (if b = 0 then Inl ZeroDivisionError
      else if overflows (real_of_int a / real_of_int b) then Inl OverflowError
      else Inr (fl (real_of_int a / real_of_int b)))"

definition float_of_int :: "int \<Rightarrow> exn + real" where
  "float_of_int n =
     (if overflows (real_of_int n) then Inl OverflowError else Inr (fl (real_of_int n)))"

definition int_of_result :: "real \<Rightarrow> exn + int" where
  "int_of_result x = (if overflows x then Inl OverflowError else Inr (py_int (fl x)))"

subsection \<open>Strings\<close>

text \<open>\<^verbatim>\<open>str(n)\<close> of an integer, and the format \<^verbatim>\<open>{n:02d}\<close>.\<close>

definition digit_char :: "nat \<Rightarrow> char" where
  "digit_char d = ''0123456789'' ! d"

fun digits10 :: "nat \<Rightarrow> string" where
  "digits10 n = (if n < 10 then [digit_char n] else digits10 (n div 10) @ [digit_char (n mod 10)])"

declare digits10.simps [simp del]

definition py_str :: "int \<Rightarrow> string" where
  "py_str i = (if i < 0 then CHR ''-'' # digits10 (nat (- i)) else digits10 (nat i))"

definition fmt_02d :: "int \<Rightarrow> string" where
  "fmt_02d i = (if 0 \<le> i \<and> i < 10 then CHR ''0'' # py_str i else py_str i)"

text \<open>\<^verbatim>\<open>s.split(c)\<close> for a one-character separator: always at least one part.\<close>

fun split_sep :: "char \<Rightarrow> string \<Rightarrow> string list" where
  "split_sep c [] = [[]]"
| "split_sep c (x # xs) =
     (if x = c then [] # split_sep c xs
      else (x # hd (split_sep c xs)) # tl (split_sep c xs))"

text \<open>Truthiness of \<^verbatim>\<open>self.video_path1\<close>: \<^verbatim>\<open>None\<close> and the empty string are false.\<close>

definition truthy :: "string option \<Rightarrow> bool" where
  "truthy p = (case p of None \<Rightarrow> False | Some s \<Rightarrow> s \<noteq> [])"

text \<open>
  \<^verbatim>\<open>total_frames\<close> holds an integer or \<^verbatim>\<open>float('inf')\<close>. The comparisons and the
  subtraction the program applies to it:
\<close>

datatype frames = FramesInt int | FramesInf

fun frames_minus1 :: "frames \<Rightarrow> frames" where
  "frames_minus1 (FramesInt n) = FramesInt (n - 1)"
| "frames_minus1 FramesInf = FramesInf"

fun int_lt_frames :: "int \<Rightarrow> frames \<Rightarrow> bool" where
  "int_lt_frames i (FramesInt n) = (i < n)"
| "int_lt_frames i FramesInf = True"

fun int_ge_frames :: "int \<Rightarrow> frames \<Rightarrow> bool" where
  "int_ge_frames i (FramesInt n) = (i \<ge> n)"
| "int_ge_frames i FramesInf = False"

subsection \<open>Module-level functions\<close>

text \<open>
  \<^verbatim>\<open>parse_frame_rate(rate_str)\<close>. Python's \<^verbatim>\<open>float(s)\<close> is the parameter \<open>pf\<close>:
  \<open>None\<close> where it raises \<^verbatim>\<open>ValueError\<close>. \<open>parse_frame_rate_try\<close> is the body of the
  \<^verbatim>\<open>try\<close>; unpacking \<^verbatim>\<open>num, den = map(float, ...)\<close> raises \<^verbatim>\<open>ValueError\<close> unless there
  are exactly two parts and both convert. \<open>parse_frame_rate\<close> adds the handler
  \<^verbatim>\<open>except (ValueError, TypeError): return 30.0\<close>. The quotient is left exact here;
  the float the function returns is the double nearest to it, which is taken where the
  result is stored (\<open>initialize_playback_try\<close>).
\<close>

definition parse_frame_rate_try :: "(string \<Rightarrow> real option) \<Rightarrow> string \<Rightarrow> exn + real" where
  "parse_frame_rate_try pf rate_str =
     (if CHR ''/'' \<in> set rate_str then
        (case split_sep CHR ''/'' rate_str of
           [a, b] \<Rightarrow>
             (case pf a of
                None \<Rightarrow> Inl ValueError
              | Some num \<Rightarrow>
                  (case pf b of
                     None \<Rightarrow> Inl ValueError
                   | Some den \<Rightarrow> if den = 0 then Inr 30 else Inr (num / den)))
         | _ \<Rightarrow> Inl ValueError)
      else (case pf rate_str of None \<Rightarrow> Inl ValueError | Some v \<Rightarrow> Inr v))"

definition parse_frame_rate :: "(string \<Rightarrow> real option) \<Rightarrow> string \<Rightarrow> exn + real" where
  "parse_frame_rate pf rate_str =
     (case parse_frame_rate_try pf rate_str of
        Inl e \<Rightarrow> if e = ValueError \<or> e = TypeError then Inr 30 else Inl e
      | Inr v \<Rightarrow> Inr v)"

text \<open>\<^verbatim>\<open>format_time(seconds)\<close> for a finite \<^verbatim>\<open>seconds\<close> (\<open>None\<close> is Python's \<^verbatim>\<open>None\<close>).\<close>

definition format_time :: "real option \<Rightarrow> string" where
  "format_time seconds =
     (case seconds of
        None \<Rightarrow> ''00:00''
      | Some x \<Rightarrow>
          if x < 0 then ''00:00''
          else fmt_02d (py_int x div 60) @ '':'' @ fmt_02d (py_int x mod 60))"


subsection \<open>The application state and its environment\<close>

datatype widget_state = NORMAL | DISABLED

datatype mode = SideBySide | Overlay | Difference | Toggle

text \<open>
  One entry of ffprobe's \<^verbatim>\<open>streams\<close> array, a dictionary: a missing key is \<open>None\<close>.
  \<^verbatim>\<open>avg_frame_rate\<close> and \<^verbatim>\<open>duration\<close> are strings in ffprobe's JSON.
\<close>

record video_stream =
  codec_type :: "string option"
  width :: "int option"
  height :: "int option"
  avg_frame_rate :: "string option"
  duration :: "string option"

text \<open>
  An FFmpeg command line: \<^verbatim>\<open>-ss\<close> (the seek time in seconds), \<^verbatim>\<open>-i\<close>, the
  \<^verbatim>\<open>scale=W:H\<close> filter, and whether \<^verbatim>\<open>-vframes 1\<close> is given.
\<close>

record command =
  ss :: real
  input :: "string option"
  scale_width :: int
  scale_height :: int
  vframes1 :: bool

text \<open>
  A NumPy array of \<^verbatim>\<open>uint8\<close>: its shape, its bytes in row-major order, and its
  \<^verbatim>\<open>writeable\<close> flag.
\<close>

record ndarray =
  shape :: "int list"
  data :: "byte list"
  writeable :: bool

datatype color_code = COLOR_BGR2GRAY | COLOR_GRAY2BGR | COLOR_BGR2RGB

text \<open>What \<^verbatim>\<open>self.after\<close> has scheduled for the main thread.\<close>

datatype callback =
  Cb_seek_bar_set int
  | Cb_update_frame_display "byte list" "byte list"
  | Cb_update_status_bar string
  | Cb_seek_bar_config_total
  | Cb_play_btn_play
  | Cb_restart_after_resize bool

record app =
  video_path1 :: "string option"
  video_path2 :: "string option"
  video_info1 :: video_stream
  video_info2 :: video_stream
  video_name1 :: string
  video_name2 :: string
  ffmpeg_process1 :: "command option"
  ffmpeg_process2 :: "command option"
  is_playing :: bool
  current_frame_num :: int
  total_frames :: frames
  fps1 :: real
  fps2 :: real
  video_fps :: real
  video2_offset :: int
  display_width :: int
  display_height :: int
  split_pos :: int
  duration_known :: bool
  is_fullscreen :: bool
  comparison_mode_var :: mode
  seek_bar_state :: widget_state
  seek_bar_to :: frames
  seek_bar_value :: int
  play_pause_btn_state :: widget_state
  play_pause_btn_pause :: bool
  offset_var :: string
  status_var :: string
  video_label_text :: string
  video_label_image :: "ndarray option"
  messagebox :: "string list"
  ffmpeg_calls :: "command list"
  after_queue :: "callback list"

text \<open>
  \<open>ffmpeg_calls\<close> is the trace of the single-shot FFmpeg commands run with
  \<^verbatim>\<open>check_output\<close>, \<open>messagebox\<close> the titles of the error dialogs shown;
  \<open>play_pause_btn_pause\<close> says that the button shows its pause label. The buttons whose
  state the program only writes are left out.

  The environment: Python's \<^verbatim>\<open>float(s)\<close> and \<^verbatim>\<open>int(s)\<close> on strings (\<open>None\<close>:
  \<^verbatim>\<open>ValueError\<close>), \<^verbatim>\<open>subprocess\<close>, ffprobe, the sizes Tk reports, and the OpenCV
  functions the program calls.
\<close>

record env =
  py_float :: "string \<Rightarrow> real option"
  py_int_str :: "string \<Rightarrow> int option"
  check_output :: "command \<Rightarrow> exn + byte list"
  popen :: "command \<Rightarrow> exn option"
  ffprobe :: "string \<Rightarrow> exn + video_stream list"
  main_frame_width :: int
  main_frame_height :: int
  controls_frame_height :: int
  status_bar_height :: int
  cv2_line :: "ndarray \<Rightarrow> int \<times> int \<Rightarrow> int \<times> int \<Rightarrow> int \<times> int \<times> int \<Rightarrow> int \<Rightarrow> ndarray"
  cv2_addWeighted :: "ndarray \<Rightarrow> real \<Rightarrow> ndarray \<Rightarrow> real \<Rightarrow> real \<Rightarrow> ndarray"
  cv2_absdiff :: "ndarray \<Rightarrow> ndarray \<Rightarrow> ndarray"
  cv2_cvtColor :: "ndarray \<Rightarrow> color_code \<Rightarrow> ndarray"
  cv2_putText :: "ndarray \<Rightarrow> string \<Rightarrow> int \<times> int \<Rightarrow> real \<Rightarrow> int \<times> int \<times> int \<Rightarrow> int \<Rightarrow> ndarray"
  cv2_getTextSize :: "string \<Rightarrow> real \<Rightarrow> int \<Rightarrow> int"

type_synonym action = "app \<Rightarrow> exn option \<times> app"

text \<open>\<^verbatim>\<open>VideoComparer.__init__\<close>: the attribute values before any video is loaded.\<close>

definition empty_dict :: video_stream where
  "empty_dict =
     \<lparr>codec_type = None, width = None, height = None, avg_frame_rate = None, duration = None\<rparr>"

definition init :: app where
  "init =
     \<lparr>video_path1 = None, video_path2 = None,
      video_info1 = empty_dict, video_info2 = empty_dict,
      video_name1 = [], video_name2 = [],
      ffmpeg_process1 = None, ffmpeg_process2 = None,
      is_playing = False,
      current_frame_num = 0, total_frames = FramesInt 0,
      fps1 = 30, fps2 = 30, video_fps = 30,
      video2_offset = 0,
      display_width = 1200, display_height = 675,
      split_pos = 1200 div 2,
      duration_known = True,
      is_fullscreen = False,
      comparison_mode_var = SideBySide,
      seek_bar_state = NORMAL, seek_bar_to = FramesInt 100, seek_bar_value = 0,
      play_pause_btn_state = DISABLED, play_pause_btn_pause = False,
      offset_var = ''0'',
      status_var = ''Ready. Please load two videos.'',
      video_label_text = ''Load videos to begin comparison'',
      video_label_image = None,
      messagebox = [],
      ffmpeg_calls = [],
      after_queue = []\<rparr>"

subsection \<open>Status bar\<close>

text \<open>
  \<^verbatim>\<open>update_status_bar\<close>. Both branches divide by \<^verbatim>\<open>video_fps\<close> first
  (\<^verbatim>\<open>ZeroDivisionError\<close> at zero). With an infinite \<^verbatim>\<open>total_frames\<close> the quotient is
  infinite: negative, and \<^verbatim>\<open>format_time\<close> answers \<^verbatim>\<open>00:00\<close>, or positive, and its
  \<^verbatim>\<open>int()\<close> raises \<^verbatim>\<open>OverflowError\<close>.
\<close>

definition update_status_bar :: "string \<Rightarrow> action" where
  "update_status_bar status_text s =
     (if video_fps s = 0 then (Some ZeroDivisionError, s)
      else
        let current_time = format_time (Some (real_of_int (current_frame_num s) / video_fps s))
        in if duration_known s then
             (case total_frames s of
                FramesInt n \<Rightarrow>
                  (None, s\<lparr>status_var := status_text @ '' | '' @ current_time @ '' / ''
                              @ format_time (Some (real_of_int n / video_fps s))\<rparr>)
              | FramesInf \<Rightarrow>
                  if video_fps s < 0
                  then (None, s\<lparr>status_var := status_text @ '' | '' @ current_time @ '' / ''
                                   @ ''00:00''\<rparr>)
                  else (Some OverflowError, s))
           else (None, s\<lparr>status_var := status_text @ '' | '' @ current_time @ '' / ??:??''\<rparr>))"

subsection \<open>Compositor\<close>

text \<open>
  \<^verbatim>\<open>np.frombuffer(raw, dtype='uint8').reshape((h, w, 3))\<close>: \<^verbatim>\<open>ValueError\<close> unless the
  buffer has exactly \<open>h * w * 3\<close> bytes. (Both callers of \<^verbatim>\<open>update_frame_display\<close>
  check that length first, so NumPy's reading of a dimension \<open>-1\<close> as "infer" never applies.)
  The raw frames are \<^verbatim>\<open>bytes\<close> objects (read from a pipe, or the output of
  \<^verbatim>\<open>check_output\<close>), which are immutable: the array is a view of the buffer and is
  not writeable.
\<close>

definition reshape3 :: "byte list \<Rightarrow> int \<Rightarrow> int \<Rightarrow> ndarray option" where
  "reshape3 raw h w =
     (if 0 \<le> h \<and> 0 \<le> w \<and> int (length raw) = h * w * 3
      then Some \<lparr>shape = [h, w, 3], data = raw, writeable = False\<rparr> else None)"

text \<open>
  An array that OpenCV or \<^verbatim>\<open>.copy()\<close> returns is a new one, and writeable.
  \<^verbatim>\<open>cv2.line\<close> and \<^verbatim>\<open>cv2.putText\<close> draw into the array they are given: OpenCV
  refuses one that is not writeable (\<^verbatim>\<open>cv2.error\<close>), and otherwise the drawing changes
  the bytes of that array and nothing else.
\<close>

definition new_array :: "ndarray \<Rightarrow> ndarray" where
  "new_array a = a\<lparr>writeable := True\<rparr>"

definition draw :: "(ndarray \<Rightarrow> ndarray) \<Rightarrow> ndarray \<Rightarrow> exn + ndarray" where
  "draw f img = (if writeable img then Inr (img\<lparr>data := data (f img)\<rparr>) else Inl Cv2Error)"

text \<open>
  \<^verbatim>\<open>combined_frame = frame1_bgr.copy(); combined_frame[:, p:] = frame2_bgr[:, p:]\<close>.
  A slice start is normalised as Python does; byte \<open>i\<close> of an \<open>h \<times> w \<times> 3\<close> array lies in
  column \<open>(i div 3) mod w\<close>.
\<close>

definition slice_start :: "int \<Rightarrow> int \<Rightarrow> int" where
  "slice_start w p = (if p < 0 then max 0 (w + p) else min p w)"

definition copy_columns_from :: "int \<Rightarrow> int \<Rightarrow> ndarray \<Rightarrow> ndarray \<Rightarrow> ndarray" where
  "copy_columns_from w p frame1 frame2 =
     (new_array frame1)\<lparr>data :=
       map (\<lambda>i. if slice_start w p \<le> (int i div 3) mod w then data frame2 ! i else data frame1 ! i)
         [0..<length (data frame1)]\<rparr>"

text \<open>
  The \<^verbatim>\<open>if mode == ...\<close> chain of \<^verbatim>\<open>update_frame_display\<close>: the value it binds to
  \<^verbatim>\<open>combined_frame\<close>. Side-by-side mode works on a copy of the first frame, overlay
  and difference mode on arrays OpenCV returns; toggle mode binds one of the two views
  themselves. In overlay mode \<^verbatim>\<open>split_pos / display_width\<close> raises at width 0. What
  OpenCV computes is a parameter; that its functions return is assumed, apart from the
  check of the drawing functions above.
\<close>

definition combined_frame :: "env \<Rightarrow> app \<Rightarrow> ndarray \<Rightarrow> ndarray \<Rightarrow> exn + ndarray" where
  "combined_frame ev s frame1_bgr frame2_bgr =
     (case comparison_mode_var s of
        SideBySide \<Rightarrow>
          draw (\<lambda>img. cv2_line ev img (split_pos s, 0) (split_pos s, display_height s)
                        (0, 255, 0) 2)
            (copy_columns_from (display_width s) (split_pos s) frame1_bgr frame2_bgr)
      | Overlay \<Rightarrow>
          (case int_truediv (split_pos s) (display_width s) of
             Inl e \<Rightarrow> Inl e
           | Inr alpha \<Rightarrow>
               Inr (new_array (cv2_addWeighted ev frame1_bgr (fl (1 - alpha)) frame2_bgr alpha 0)))
      | Difference \<Rightarrow>
          Inr (new_array
                 (cv2_cvtColor ev
                    (new_array (cv2_cvtColor ev (new_array (cv2_absdiff ev frame1_bgr frame2_bgr))
                                  COLOR_BGR2GRAY))
                    COLOR_GRAY2BGR))
      | Toggle \<Rightarrow>
          (case int_truediv (display_width s) 2 of
             Inl e \<Rightarrow> Inl e
           | Inr half \<Rightarrow>
               Inr (if real_of_int (split_pos s) < half then frame1_bgr else frame2_bgr)))"

text \<open>
  \<^verbatim>\<open>_add_video_labels(frame)\<close>: each name twice, a black shadow under white text,
  drawn into \<^verbatim>\<open>frame\<close> itself. The result is the array after the four calls.
\<close>

definition add_video_labels :: "env \<Rightarrow> app \<Rightarrow> ndarray \<Rightarrow> exn + ndarray" where
  "add_video_labels ev s frame =
     (let scale = 7 / 10; color = (255, 255, 255); thickness = 1; shadow = (0, 0, 0)
      in case draw (\<lambda>img. cv2_putText ev img (video_name1 s) (11, 31) scale shadow (thickness + 1))
                frame of
           Inl e \<Rightarrow> Inl e
         | Inr f1 \<Rightarrow>
        (case draw (\<lambda>img. cv2_putText ev img (video_name1 s) (10, 30) scale color thickness) f1 of
           Inl e \<Rightarrow> Inl e
         | Inr f2 \<Rightarrow>
        (let w = cv2_getTextSize ev (video_name2 s) scale thickness;
             x = display_width s - w - 10
         in case draw (\<lambda>img. cv2_putText ev img (video_name2 s) (x + 1, 31) scale shadow
                                  (thickness + 1)) f2 of
              Inl e \<Rightarrow> Inl e
            | Inr f3 \<Rightarrow>
                draw (\<lambda>img. cv2_putText ev img (video_name2 s) (x, 30) scale color thickness) f3)))"

text \<open>
  \<^verbatim>\<open>update_frame_display\<close>. The label widget gets its image in the last two statements,
  which an exception before them skips.
\<close>

definition update_frame_display :: "env \<Rightarrow> byte list \<Rightarrow> byte list \<Rightarrow> action" where
  "update_frame_display ev raw_frame1 raw_frame2 s =
     (let s0 = (if video_label_text s \<noteq> [] then s\<lparr>video_label_text := []\<rparr> else s)
      in case reshape3 raw_frame1 (display_height s0) (display_width s0) of
           None \<Rightarrow> (Some ValueError, s0)
         | Some frame1_bgr \<Rightarrow>
             (case reshape3 raw_frame2 (display_height s0) (display_width s0) of
                None \<Rightarrow> (Some ValueError, s0)
              | Some frame2_bgr \<Rightarrow>
                  (case combined_frame ev s0 frame1_bgr frame2_bgr of
                     Inl e \<Rightarrow> (Some e, s0)
                   | Inr combined \<Rightarrow>
                       (case add_video_labels ev s0 combined of
                          Inl e \<Rightarrow> (Some e, s0)
                        | Inr labelled \<Rightarrow>
                            (None, s0\<lparr>video_label_image :=
                               Some (new_array (cv2_cvtColor ev labelled COLOR_BGR2RGB))\<rparr>)))))"


subsection \<open>Frame fetcher\<close>

text \<open>
  The two command lines both fetch paths build for a timeline frame: the same
  \<^verbatim>\<open>time_offset1\<close> and \<^verbatim>\<open>time_offset2\<close> expressions appear in
  \<^verbatim>\<open>start_ffmpeg_processes\<close> and in \<^verbatim>\<open>display_single_frame\<close>, which adds
  \<^verbatim>\<open>-vframes 1\<close>. Dividing by a frame rate of zero raises \<^verbatim>\<open>ZeroDivisionError\<close>.
\<close>

definition stop_ffmpeg_processes :: action where
  "stop_ffmpeg_processes s = (None, s\<lparr>ffmpeg_process1 := None, ffmpeg_process2 := None\<rparr>)"

definition start_ffmpeg_processes :: "env \<Rightarrow> int \<Rightarrow> action" where
  "start_ffmpeg_processes ev frame_number s =
     (let s1 = snd (stop_ffmpeg_processes s)
      in if fps1 s1 = 0 then (Some ZeroDivisionError, s1)
         else if fps2 s1 = 0 then (Some ZeroDivisionError, s1)
         else
           let time_offset1 = real_of_int frame_number / fps1 s1;
               time_offset2 = real_of_int (frame_number + video2_offset s1) / fps2 s1;
               command1 = \<lparr>ss = time_offset1, input = video_path1 s1,
                            scale_width = display_width s1, scale_height = display_height s1,
                            vframes1 = False\<rparr>;
               command2 = \<lparr>ss = time_offset2, input = video_path2 s1,
                            scale_width = display_width s1, scale_height = display_height s1,
                            vframes1 = False\<rparr>
           in case popen ev command1 of
                Some e \<Rightarrow>
                  (None, s1\<lparr>messagebox := messagebox s1 @ [''FFmpeg Error''],
                             is_playing := False\<rparr>)
              | None \<Rightarrow>
                  (case popen ev command2 of
                     Some e \<Rightarrow>
                       (None, s1\<lparr>ffmpeg_process1 := Some command1,
                                  messagebox := messagebox s1 @ [''FFmpeg Error''],
                                  is_playing := False\<rparr>)
                   | None \<Rightarrow>
                       (None, s1\<lparr>ffmpeg_process1 := Some command1,
                                  ffmpeg_process2 := Some command2\<rparr>)))"

text \<open>
  \<^verbatim>\<open>display_single_frame\<close>. Only \<^verbatim>\<open>CalledProcessError\<close> is handled (by a status
  message); any other exception of \<^verbatim>\<open>check_output\<close> leaves the method.
\<close>

definition display_single_frame :: "env \<Rightarrow> int \<Rightarrow> action" where
  "display_single_frame ev frame_number s =
     (if \<not> truthy (video_path1 s) \<or> \<not> truthy (video_path2 s) then (None, s)
      else if duration_known s \<and> \<not> (0 \<le> frame_number \<and> int_lt_frames frame_number (total_frames s))
      then (None, s)
      else if fps1 s = 0 then (Some ZeroDivisionError, s)
      else if fps2 s = 0 then (Some ZeroDivisionError, s)
      else
        let time_offset1 = real_of_int frame_number / fps1 s;
            time_offset2 = real_of_int (frame_number + video2_offset s) / fps2 s;
            frame_size = display_width s * display_height s * 3;
            command1 = \<lparr>ss = time_offset1, input = video_path1 s,
                         scale_width = display_width s, scale_height = display_height s,
                         vframes1 = True\<rparr>;
            command2 = \<lparr>ss = time_offset2, input = video_path2 s,
                         scale_width = display_width s, scale_height = display_height s,
                         vframes1 = True\<rparr>;
            s1 = s\<lparr>ffmpeg_calls := ffmpeg_calls s @ [command1]\<rparr>
        in case check_output ev command1 of
             Inl e \<Rightarrow>
               if e = CalledProcessError
               then update_status_bar (''Error seeking to frame '' @ py_str frame_number) s1
               else (Some e, s1)
           | Inr raw_frame1 \<Rightarrow>
               (let s2 = s1\<lparr>ffmpeg_calls := ffmpeg_calls s1 @ [command2]\<rparr>
                in case check_output ev command2 of
                     Inl e \<Rightarrow>
                       if e = CalledProcessError
                       then update_status_bar (''Error seeking to frame '' @ py_str frame_number) s2
                       else (Some e, s2)
                   | Inr raw_frame2 \<Rightarrow>
                       if int (length raw_frame1) = frame_size \<and> int (length raw_frame2) = frame_size
                       then update_frame_display ev raw_frame1 raw_frame2 s2
                       else (None, s2)))"

subsection \<open>Geometry planner and resize\<close>

text \<open>
  \<^verbatim>\<open>calculate_display_size(w, h, tw, th)\<close>: \<^verbatim>\<open>ar = w / h\<close>, then the condition
  \<^verbatim>\<open>tw / th > ar\<close>, then the chosen branch: \<^verbatim>\<open>int(th * ar)\<close> or
  \<^verbatim>\<open>int(tw / ar)\<close>, the integer converted to a float, the float operation, and the
  truncation of its result. Each step can raise.
\<close>

definition calculate_display_size :: "int \<Rightarrow> int \<Rightarrow> int \<Rightarrow> int \<Rightarrow> exn + int \<times> int" where
  "calculate_display_size w h tw th =
     (case int_truediv w h of
        Inl e \<Rightarrow> Inl e
      | Inr ar \<Rightarrow>
          (case int_truediv tw th of
             Inl e \<Rightarrow> Inl e
           | Inr r \<Rightarrow>
               if r > ar
               then (case float_of_int th of
                       Inl e \<Rightarrow> Inl e
                     | Inr thf \<Rightarrow>
                         (case int_of_result (thf * ar) of
                            Inl e \<Rightarrow> Inl e
                          | Inr nw \<Rightarrow> Inr (nw, th)))
               else (case float_of_int tw of
                       Inl e \<Rightarrow> Inl e
                     | Inr twf \<Rightarrow>
                         if ar = 0 then Inl ZeroDivisionError
                         else (case int_of_result (twf / ar) of
                                 Inl e \<Rightarrow> Inl e
                               | Inr nh \<Rightarrow> Inr (tw, nh)))))"

text \<open>
  \<^verbatim>\<open>handle_resize\<close>. \<open>new_display_size\<close> is the part that computes
  \<^verbatim>\<open>new_display_width, new_display_height\<close>; a missing \<^verbatim>\<open>width\<close> or \<^verbatim>\<open>height\<close> key
  raises \<^verbatim>\<open>KeyError\<close>.
\<close>

definition new_display_size :: "env \<Rightarrow> app \<Rightarrow> exn + int \<times> int" where
  "new_display_size ev s =
     (let canvas_width = main_frame_width ev;
          canvas_height =
            (if \<not> is_fullscreen s
             then main_frame_height ev - (controls_frame_height ev + status_bar_height ev + 20)
             else main_frame_height ev)
      in if is_fullscreen s then Inr (canvas_width, canvas_height)
         else
           (case width (video_info1 s) of
              None \<Rightarrow> Inl KeyError
            | Some w1 \<Rightarrow>
           (case height (video_info1 s) of
              None \<Rightarrow> Inl KeyError
            | Some h1 \<Rightarrow>
           (case int_truediv w1 h1 of
              Inl e \<Rightarrow> Inl e
            | Inr ar1 \<Rightarrow>
           (case width (video_info2 s) of
              None \<Rightarrow> Inl KeyError
            | Some w2 \<Rightarrow>
           (case height (video_info2 s) of
              None \<Rightarrow> Inl KeyError
            | Some h2 \<Rightarrow>
           (case int_truediv w2 h2 of
              Inl e \<Rightarrow> Inl e
            | Inr ar2 \<Rightarrow>
             let (w, h) = (if ar1 \<ge> ar2 then (w1, h1) else (w2, h2))
             in calculate_display_size w h canvas_width canvas_height)))))))"

definition handle_resize :: "env \<Rightarrow> action" where
  "handle_resize ev s =
     (if \<not> truthy (video_path1 s) \<or> \<not> truthy (video_path2 s) then (None, s)
      else
        case new_display_size ev s of
          Inl e \<Rightarrow> (Some e, s)
        | Inr (new_display_width, new_display_height) \<Rightarrow>
            if abs (new_display_width - display_width s) > 1
               \<or> abs (new_display_height - display_height s) > 1
            then
              let s1 = s\<lparr>display_width := new_display_width,
                         display_height := new_display_height\<rparr>;
                  s2 = s1\<lparr>split_pos := display_width s1 div 2\<rparr>;
                  was_playing = is_playing s2;
                  s3 = (if was_playing then s2\<lparr>is_playing := False\<rparr> else s2)
              in (None, s3\<lparr>after_queue := after_queue s3 @ [Cb_restart_after_resize was_playing]\<rparr>)
            else (None, s))"

definition restart_after_resize :: "env \<Rightarrow> bool \<Rightarrow> action" where
  "restart_after_resize ev was_playing s =
     (if was_playing
      then start_ffmpeg_processes ev (current_frame_num s) (s\<lparr>is_playing := True\<rparr>)
      else display_single_frame ev (current_frame_num s) s)"

definition toggle_fullscreen :: "env \<Rightarrow> action" where
  "toggle_fullscreen ev s = handle_resize ev (s\<lparr>is_fullscreen := \<not> is_fullscreen s\<rparr>)"

definition exit_fullscreen :: "env \<Rightarrow> action" where
  "exit_fullscreen ev s =
     (if is_fullscreen s then handle_resize ev (s\<lparr>is_fullscreen := False\<rparr>) else (None, s))"

subsection \<open>Split position, offset, seek and step\<close>

definition on_video_drag :: "env \<Rightarrow> int \<Rightarrow> action" where
  "on_video_drag ev event_x s =
     (if \<not> truthy (video_path1 s) then (None, s)
      else
        let s1 = s\<lparr>split_pos := max 0 (min (display_width s) event_x)\<rparr>
        in if \<not> is_playing s1 then display_single_frame ev (current_frame_num s1) s1
           else (None, s1))"

definition on_video_click :: "env \<Rightarrow> int \<Rightarrow> action" where
  "on_video_click ev event_x s =
     (if \<not> truthy (video_path1 s) then (None, s)
      else
        let s1 = s\<lparr>split_pos := max 0 (min (display_width s) event_x)\<rparr>
        in if \<not> is_playing s1 then display_single_frame ev (current_frame_num s1) s1
           else (None, s1))"

text \<open>
  \<^verbatim>\<open>_validate_offset_input\<close> is the write trace of \<^verbatim>\<open>offset_var\<close>: it runs whenever
  the entry field or the program writes the variable (\<open>offset_var_set\<close>; Tk reports an
  exception of a trace and goes on). \<^verbatim>\<open>int()\<close> failing is caught and ignored.
\<close>

definition validate_offset_input :: "env \<Rightarrow> action" where
  "validate_offset_input ev s =
     (if \<not> truthy (video_path1 s) then (None, s)
      else
        case py_int_str ev (offset_var s) of
          None \<Rightarrow> (None, s)
        | Some v \<Rightarrow>
            let s1 = s\<lparr>video2_offset := v\<rparr>
            in if \<not> is_playing s1
               then (case display_single_frame ev (current_frame_num s1) s1 of
                       (Some e, s2) \<Rightarrow>
                         if e = ValueError \<or> e = TypeError then (None, s2) else (Some e, s2)
                     | (None, s2) \<Rightarrow> (None, s2))
               else (None, s1))"

definition offset_var_set :: "env \<Rightarrow> string \<Rightarrow> app \<Rightarrow> app" where
  "offset_var_set ev v s = snd (validate_offset_input ev (s\<lparr>offset_var := v\<rparr>))"

definition adjust_offset :: "env \<Rightarrow> int \<Rightarrow> action" where
  "adjust_offset ev amount s =
     (if \<not> truthy (video_path1 s) then (None, s)
      else
        let s1 = s\<lparr>video2_offset := video2_offset s + amount\<rparr>;
            s2 = offset_var_set ev (py_str (video2_offset s1)) s1
        in if \<not> is_playing s2 then display_single_frame ev (current_frame_num s2) s2
           else (None, s2))"

text \<open>
  \<^verbatim>\<open>seek_video(value)\<close>: \<^verbatim>\<open>value\<close> is the number the seek bar passes (or
  \<^verbatim>\<open>seek_to_start\<close>, \<^verbatim>\<open>seek_to_end\<close>); \<^verbatim>\<open>int(float(value))\<close> is stored as it is.
\<close>

definition seek_video :: "env \<Rightarrow> real \<Rightarrow> action" where
  "seek_video ev v s =
     (if seek_bar_state s = DISABLED then (None, s)
      else
        let s1 = s\<lparr>current_frame_num := py_int v\<rparr>
        in case (if is_playing s1 then start_ffmpeg_processes ev (current_frame_num s1) s1
                 else display_single_frame ev (current_frame_num s1) s1) of
             (Some e, s2) \<Rightarrow> (Some e, s2)
           | (None, s2) \<Rightarrow> update_status_bar ''Seek'' s2)"

definition seek_to_start :: "env \<Rightarrow> action" where
  "seek_to_start ev s = (if seek_bar_state s = DISABLED then (None, s) else seek_video ev 0 s)"

definition seek_to_end :: "env \<Rightarrow> action" where
  "seek_to_end ev s =
     (if seek_bar_state s = DISABLED then (None, s)
      else case total_frames s of
             FramesInt n \<Rightarrow> seek_video ev (real_of_int (n - 1)) s
           | FramesInf \<Rightarrow> (Some OverflowError, s))"

definition step_frame :: "env \<Rightarrow> int \<Rightarrow> action" where
  "step_frame ev direction s =
     (if is_playing s \<or> play_pause_btn_state s = DISABLED then (None, s)
      else if seek_bar_state s = DISABLED \<and> direction < 0 then (None, s)
      else
        let new_frame = current_frame_num s + direction
        in if 0 \<le> new_frame \<and> int_lt_frames new_frame (total_frames s)
           then
             let s1 = s\<lparr>current_frame_num := new_frame\<rparr>;
                 s2 = (if duration_known s1 then s1\<lparr>seek_bar_value := current_frame_num s1\<rparr>
                       else s1)
             in case display_single_frame ev (current_frame_num s2) s2 of
                  (Some e, s3) \<Rightarrow> (Some e, s3)
                | (None, s3) \<Rightarrow> update_status_bar ''Stepped'' s3
           else (None, s))"


subsection \<open>Playback scheduler\<close>

definition toggle_play_pause :: "env \<Rightarrow> action" where
  "toggle_play_pause ev s =
     (if play_pause_btn_state s = DISABLED then (None, s)
      else
        let s1 = s\<lparr>is_playing := \<not> is_playing s\<rparr>
        in if is_playing s1
           then (case update_status_bar ''Playing'' (s1\<lparr>play_pause_btn_pause := True\<rparr>) of
                   (Some e, s2) \<Rightarrow> (Some e, s2)
                 | (None, s2) \<Rightarrow> start_ffmpeg_processes ev (current_frame_num s2) s2)
           else (case update_status_bar ''Paused'' (s1\<lparr>play_pause_btn_pause := False\<rparr>) of
                   (Some e, s2) \<Rightarrow> (Some e, s2)
                 | (None, s2) \<Rightarrow> stop_ffmpeg_processes s2))"

text \<open>
  \<^verbatim>\<open>toggle_play_pause\<close> then starts the thread that runs \<^verbatim>\<open>video_playback_loop\<close>.
  \<^verbatim>\<open>handle_playback_end(message)\<close> runs on that thread.
\<close>

definition handle_playback_end :: "string \<Rightarrow> app \<Rightarrow> app" where
  "handle_playback_end message s =
     (let s1 = s\<lparr>is_playing := False\<rparr>;
          s2 = (if \<not> duration_known s1
                then s1\<lparr>total_frames := FramesInt (current_frame_num s1),
                        duration_known := True,
                        after_queue := after_queue s1 @ [Cb_seek_bar_config_total]\<rparr>
                else s1)
      in s2\<lparr>after_queue := after_queue s2 @ [Cb_play_btn_play, Cb_update_status_bar message]\<rparr>)"

text \<open>
  What one pass of the loop observes of the two FFmpeg processes: whether
  \<^verbatim>\<open>poll()\<close> reports them exited, and what \<^verbatim>\<open>stdout.read(frame_size)\<close> returns.
\<close>

record tick =
  exited1 :: bool
  exited2 :: bool
  stdout1 :: "byte list"
  stdout2 :: "byte list"

text \<open>
  How the loop is left: by \<^verbatim>\<open>break\<close>, or by an exception that ends the thread. The list
  of ticks is the loop's fuel: when it is used up the loop is still \<open>Running\<close>, with its
  \<^verbatim>\<open>consecutive_errors\<close>.
\<close>

datatype loop_result = Break app | Raised exn app | Running nat app

definition max_errors :: nat where
  "max_errors = 10"

definition bad_read :: "app \<Rightarrow> tick \<Rightarrow> bool" where
  "bad_read s t =
     (let frame_size = display_width s * display_height s * 3
      in stdout1 t = [] \<or> stdout2 t = []
         \<or> int (length (stdout1 t)) \<noteq> frame_size \<or> int (length (stdout2 t)) \<noteq> frame_size)"

text \<open>
  The statements after a good read: the frame counter advances, three callbacks are
  scheduled, and the thread sleeps \<^verbatim>\<open>1.0 / video_fps\<close> seconds, which raises for a
  frame rate of zero (the division) or below zero (\<^verbatim>\<open>time.sleep\<close>).
\<close>

definition advance_frame :: "tick \<Rightarrow> app \<Rightarrow> app" where
  "advance_frame t s =
     (let s1 = s\<lparr>current_frame_num := current_frame_num s + 1\<rparr>;
          s2 = (if duration_known s1
                then s1\<lparr>after_queue := after_queue s1 @ [Cb_seek_bar_set (current_frame_num s1)]\<rparr>
                else s1)
      in s2\<lparr>after_queue := after_queue s2
               @ [Cb_update_frame_display (stdout1 t) (stdout2 t), Cb_update_status_bar ''Playing'']\<rparr>)"

fun video_playback_loop :: "tick list \<Rightarrow> nat \<Rightarrow> app \<Rightarrow> loop_result" where
  "video_playback_loop [] consecutive_errors s =
     (if \<not> is_playing s then Break s else Running consecutive_errors s)"
| "video_playback_loop (t # ts) consecutive_errors s =
     (if \<not> is_playing s then Break s
      else if ffmpeg_process1 s = None then Raised AttributeError s
      else if exited1 t then Break (handle_playback_end ''Video stream ended'' s)
      else if ffmpeg_process2 s = None then Raised AttributeError s
      else if exited2 t then Break (handle_playback_end ''Video stream ended'' s)
      else if int_ge_frames (current_frame_num s) (frames_minus1 (total_frames s))
      then Break (handle_playback_end ''Finished'' s)
      else if bad_read s t
      then (if consecutive_errors + 1 \<ge> max_errors
            then Break (handle_playback_end ''Error: Playback stopped'' s)
            else video_playback_loop ts (consecutive_errors + 1) s)
      else
        let s1 = advance_frame t s
        in if video_fps s1 = 0 then Raised ZeroDivisionError s1
           else if video_fps s1 < 0 then Raised ValueError s1
           else video_playback_loop ts 0 s1)"

fun final_state :: "loop_result \<Rightarrow> app" where
  "final_state (Break s) = s"
| "final_state (Raised e s) = s"
| "final_state (Running n s) = s"

text \<open>
  The main thread runs the scheduled callbacks in order; Tk reports an exception of a
  callback and goes on with the next.
\<close>

fun run_callback :: "env \<Rightarrow> callback \<Rightarrow> action" where
  "run_callback ev (Cb_seek_bar_set v) s = (None, s\<lparr>seek_bar_value := v\<rparr>)"
| "run_callback ev (Cb_update_frame_display raw_frame1 raw_frame2) s =
     update_frame_display ev raw_frame1 raw_frame2 s"
| "run_callback ev (Cb_update_status_bar status_text) s = update_status_bar status_text s"
| "run_callback ev Cb_seek_bar_config_total s =
     (None, s\<lparr>seek_bar_to := total_frames s, seek_bar_state := NORMAL\<rparr>)"
| "run_callback ev Cb_play_btn_play s = (None, s\<lparr>play_pause_btn_pause := False\<rparr>)"
| "run_callback ev (Cb_restart_after_resize was_playing) s = restart_after_resize ev was_playing s"

definition run_after_queue :: "env \<Rightarrow> app \<Rightarrow> app" where
  "run_after_queue ev s =
     fold (\<lambda>cb s'. snd (run_callback ev cb s')) (after_queue s) (s\<lparr>after_queue := []\<rparr>)"

subsection \<open>Metadata resolver\<close>

text \<open>
  \<^verbatim>\<open>initialize_playback\<close>. \<open>initialize_playback_try\<close> is the body of its \<^verbatim>\<open>try\<close>:
  any exception there is answered by an error dialog and \<^verbatim>\<open>return\<close>, with the
  attributes assigned so far kept. \<^verbatim>\<open>float(info.get('duration', 0))\<close> is \<open>0\<close> for a
  missing key. A frame count is \<^verbatim>\<open>int()\<close> of the float product of the stored frame
  rate and the duration. The geometry is computed inside the \<^verbatim>\<open>try\<close> too, after
  \<^verbatim>\<open>total_frames\<close> is assigned.
\<close>

definition get_duration :: "env \<Rightarrow> video_stream \<Rightarrow> real option" where
  "get_duration ev info = (case duration info of None \<Rightarrow> Some 0 | Some d \<Rightarrow> py_float ev d)"

definition get_avg_frame_rate :: "video_stream \<Rightarrow> string" where
  "get_avg_frame_rate info = (case avg_frame_rate info of None \<Rightarrow> ''30/1'' | Some r \<Rightarrow> r)"

definition initialize_playback_try :: "env \<Rightarrow> action" where
  "initialize_playback_try ev s =
     (case parse_frame_rate (py_float ev) (get_avg_frame_rate (video_info1 s)) of
        Inl e \<Rightarrow> (Some e, s)
      | Inr f1 \<Rightarrow>
     (let s1 = s\<lparr>fps1 := fl f1\<rparr>
      in case parse_frame_rate (py_float ev) (get_avg_frame_rate (video_info2 s1)) of
        Inl e \<Rightarrow> (Some e, s1)
      | Inr f2 \<Rightarrow>
     (let s2 = s1\<lparr>fps2 := fl f2\<rparr>;
          s3 = s2\<lparr>video_fps := fl (fl (fps1 s2 + fps2 s2) / 2)\<rparr>
      in case get_duration ev (video_info1 s3) of
        None \<Rightarrow> (Some ValueError, s3)
      | Some d1 \<Rightarrow>
     (case int_of_result (fps1 s3 * d1) of
        Inl e \<Rightarrow> (Some e, s3)
      | Inr fc1 \<Rightarrow>
     (case get_duration ev (video_info2 s3) of
        None \<Rightarrow> (Some ValueError, s3)
      | Some d2 \<Rightarrow>
     (case int_of_result (fps2 s3 * d2) of
        Inl e \<Rightarrow> (Some e, s3)
      | Inr fc2 \<Rightarrow>
     (let s4 = s3\<lparr>total_frames := FramesInt (if fc1 > 0 \<and> fc2 > 0 then min fc1 fc2 else 0)\<rparr>
      in handle_resize ev s4)))))))"

definition initialize_playback :: "env \<Rightarrow> action" where
  "initialize_playback ev s =
     (case initialize_playback_try ev s of
        (Some e, s') \<Rightarrow> (None, s'\<lparr>messagebox := messagebox s' @ [''Initialization Error'']\<rparr>)
      | (None, s') \<Rightarrow>
          let s5 = (if int_ge_frames 0 (total_frames s')
                    then s'\<lparr>duration_known := False, total_frames := FramesInf,
                            seek_bar_state := DISABLED\<rparr>
                    else s'\<lparr>duration_known := True,
                            seek_bar_to := frames_minus1 (total_frames s'),
                            seek_bar_state := NORMAL\<rparr>);
              s6 = s5\<lparr>current_frame_num := 0\<rparr>;
              s7 = (if duration_known s6 then s6\<lparr>seek_bar_value := 0\<rparr> else s6);
              s8 = s7\<lparr>play_pause_btn_state := NORMAL\<rparr>;
              s9 = offset_var_set ev ''0'' (s8\<lparr>video2_offset := 0\<rparr>)
          in (case update_status_bar ''Ready'' s9 of
                (Some e, s10) \<Rightarrow> (Some e, s10)
              | (None, s10) \<Rightarrow> display_single_frame ev 0 s10))"

text \<open>
  \<^verbatim>\<open>load_video(video_num)\<close> with the path the file dialog returned (empty: cancelled).
\<close>

definition load_video :: "env \<Rightarrow> int \<Rightarrow> string \<Rightarrow> action" where
  "load_video ev video_num file_path s =
     (case update_status_bar (''Opening file dialog for Video '' @ py_str video_num @ ''...'') s of
        (Some e, s0) \<Rightarrow> (Some e, s0)
      | (None, s0) \<Rightarrow>
     if file_path = [] then update_status_bar ''File selection cancelled.'' s0
     else
       let filename = last (split_sep CHR ''/'' file_path)
       in (case update_status_bar (''Analyzing video: '' @ filename @ ''...'') s0 of
            (Some e, s1) \<Rightarrow> (Some e, s1)
          | (None, s1) \<Rightarrow>
       (case ffprobe ev file_path of
          Inl e \<Rightarrow>
            if e = CalledProcessError \<or> e = FileNotFoundError \<or> e = JSONDecodeError
               \<or> e = IndexError
            then (None, s1\<lparr>messagebox := messagebox s1 @ [''FFprobe Error'']\<rparr>)
            else (Some e, s1)
        | Inr all_streams \<Rightarrow>
       (case find (\<lambda>st. codec_type st = Some ''video'') all_streams of
          None \<Rightarrow> (None, s1\<lparr>messagebox := messagebox s1 @ [''Stream Error'']\<rparr>)
        | Some video_stream \<Rightarrow>
       if width video_stream = None \<or> height video_stream = None
       then (None, s1\<lparr>messagebox := messagebox s1 @ [''Stream Error'']\<rparr>)
       else
         let s2 = (if video_num = 1
                   then s1\<lparr>video_path1 := Some file_path, video_info1 := video_stream,
                           video_name1 := filename\<rparr>
                   else s1\<lparr>video_path2 := Some file_path, video_info2 := video_stream,
                           video_name2 := filename\<rparr>)
         in (case update_status_bar
                    (if video_num = 1 then ''Video 1 loaded. Please load Video 2.''
                     else ''Video 2 loaded. Ready to play.'') s2 of
               (Some e, s3) \<Rightarrow> (Some e, s3)
             | (None, s3) \<Rightarrow>
                 if truthy (video_path1 s3) \<and> truthy (video_path2 s3)
                 then initialize_playback ev s3 else (None, s3))))))"


subsection \<open>A test environment\<close>

text \<open>
  To run the model on concrete inputs the parameters need values. \<open>decimal_literal\<close>
  is the value of a plain signed decimal literal (no exponent, no underscores, no
  blanks), \<open>float_literal\<close> Python's \<^verbatim>\<open>float()\<close> on it (the nearest double), and
  \<open>integer_literal\<close> Python's \<^verbatim>\<open>int()\<close> on an integer literal. \<open>test_env\<close> has
  sources of 2 \<times> 1 pixels at 30 frames per second: A of 10 seconds, B of 5 seconds, and C
  whose container reports no duration. Its decoder answers every request with the same
  6-byte frame per source, its window leaves a 2 \<times> 1 canvas, and its OpenCV stand-ins
  return their image argument. In \<open>no_canvas_env\<close> the window is one pixel lower, which
  leaves a canvas of height 0.
\<close>

definition digit_val :: "char \<Rightarrow> nat option" where
  "digit_val c =
     (let n = (of_char c :: nat) in if 48 \<le> n \<and> n \<le> 57 then Some (n - 48) else None)"

fun nat_of_digits :: "nat \<Rightarrow> string \<Rightarrow> nat option" where
  "nat_of_digits acc [] = Some acc"
| "nat_of_digits acc (c # cs) =
     (case digit_val c of None \<Rightarrow> None | Some d \<Rightarrow> nat_of_digits (10 * acc + d) cs)"

definition unsigned_decimal :: "string \<Rightarrow> real option" where
  "unsigned_decimal s =
     (case split_sep CHR ''.'' s of
        [i] \<Rightarrow> if i = [] then None else map_option real (nat_of_digits 0 i)
      | [i, f] \<Rightarrow>
          if i = [] \<and> f = [] then None
          else (case nat_of_digits 0 i of
                  None \<Rightarrow> None
                | Some a \<Rightarrow>
                    (case nat_of_digits 0 f of
                       None \<Rightarrow> None
                     | Some b \<Rightarrow> Some (real a + real b / 10 ^ length f)))
      | _ \<Rightarrow> None)"

definition decimal_literal :: "string \<Rightarrow> real option" where
  "decimal_literal s =
     (case s of
        [] \<Rightarrow> None
      | c # r \<Rightarrow>
          if c = CHR ''-'' then map_option uminus (unsigned_decimal r)
          else if c = CHR ''+'' then unsigned_decimal r
          else unsigned_decimal s)"

definition float_literal :: "string \<Rightarrow> real option" where
  "float_literal s = map_option fl (decimal_literal s)"

definition integer_literal :: "string \<Rightarrow> int option" where
  "integer_literal s =
     (case s of
        [] \<Rightarrow> None
      | c # r \<Rightarrow>
          if c = CHR ''-''
          then (if r = [] then None else map_option (\<lambda>n. - int n) (nat_of_digits 0 r))
          else if c = CHR ''+''
          then (if r = [] then None else map_option int (nat_of_digits 0 r))
          else map_option int (nat_of_digits 0 s))"

definition stream_a :: video_stream where
  "stream_a =
     \<lparr>codec_type = Some ''video'', width = Some 2, height = Some 1,
      avg_frame_rate = Some ''30/1'', duration = Some ''10.000000''\<rparr>"

definition stream_b :: video_stream where
  "stream_b =
     \<lparr>codec_type = Some ''video'', width = Some 2, height = Some 1,
      avg_frame_rate = Some ''30/1'', duration = Some ''5.000000''\<rparr>"

definition stream_c :: video_stream where
  "stream_c =
     \<lparr>codec_type = Some ''video'', width = Some 2, height = Some 1,
      avg_frame_rate = Some ''30/1'', duration = None\<rparr>"

definition frame_a :: "byte list" where
  "frame_a = [1, 2, 3, 4, 5, 6]"

definition frame_b :: "byte list" where
  "frame_b = [7, 8, 9, 10, 11, 12]"

definition test_env :: env where
  "test_env =
     \<lparr>py_float = float_literal,
      py_int_str = integer_literal,
      check_output = (\<lambda>c. if input c = Some ''/v/a.mp4'' then Inr frame_a else Inr frame_b),
      popen = (\<lambda>c. None),
      ffprobe = (\<lambda>p. if p = ''/v/a.mp4'' then Inr [stream_a]
                     else if p = ''/v/c.mp4'' then Inr [stream_c] else Inr [stream_b]),
      main_frame_width = 2,
      main_frame_height = 101,
      controls_frame_height = 70,
      status_bar_height = 10,
      cv2_line = (\<lambda>img p q color thickness. img),
      cv2_addWeighted = (\<lambda>a wa b wb g. a),
      cv2_absdiff = (\<lambda>a b. a),
      cv2_cvtColor = (\<lambda>img code. img),
      cv2_putText = (\<lambda>img text org scale color thickness. img),
      cv2_getTextSize = (\<lambda>text scale thickness. 0)\<rparr>"

definition no_canvas_env :: env where
  "no_canvas_env = test_env\<lparr>main_frame_height := 100\<rparr>"

text \<open>The state after loading the sources A and B into a fresh application.\<close>

definition loaded :: app where
  "loaded =
     snd (load_video test_env 2 ''/v/b.mp4'' (snd (load_video test_env 1 ''/v/a.mp4'' init)))"


text \<open>
  Test inputs for the playback loop: a pass that reads two whole frames, and one whose
  second read comes back empty. Test states: playback started at frame 0, and the scenario
  of a seek to frame 149 of the 150-frame timeline followed by the play command.
\<close>

definition good_tick :: tick where
  "good_tick = \<lparr>exited1 = False, exited2 = False, stdout1 = frame_a, stdout2 = frame_b\<rparr>"

definition short_tick :: tick where
  "short_tick = \<lparr>exited1 = False, exited2 = False, stdout1 = frame_a, stdout2 = []\<rparr>"

definition playing_at_0 :: app where
  "playing_at_0 = snd (toggle_play_pause test_env (run_after_queue test_env loaded))"

definition paused_at_149 :: app where
  "paused_at_149 = snd (seek_video test_env 149 (run_after_queue test_env loaded))"

definition playing_at_149 :: app where
  "playing_at_149 = snd (toggle_play_pause test_env paused_at_149)"

text \<open>
  \<open>display_only s s'\<close>: the state \<open>s'\<close> differs from \<open>s\<close> at most in what a frame
  fetch and its display write (the trace of FFmpeg calls, the status line, the video
  label).
\<close>

definition display_only :: "app \<Rightarrow> app \<Rightarrow> bool" where
  "display_only s s' \<longleftrightarrow>
     s'\<lparr>ffmpeg_calls := ffmpeg_calls s, status_var := status_var s,
        video_label_text := video_label_text s,
        video_label_image := video_label_image s\<rparr> = s"

text \<open>The guards of \<^verbatim>\<open>step_frame\<close>, together: the step is carried out.\<close>

definition step_accepted :: "int \<Rightarrow> app \<Rightarrow> bool" where
  "step_accepted direction s \<longleftrightarrow>
     \<not> (is_playing s \<or> play_pause_btn_state s = DISABLED)
     \<and> \<not> (seek_bar_state s = DISABLED \<and> direction < 0)
     \<and> 0 \<le> current_frame_num s + direction
     \<and> int_lt_frames (current_frame_num s + direction) (total_frames s)"

section \<open>Properties\<close>

subsection \<open>Auxiliary facts\<close>

lemma split_sep_notin: "c \<notin> set s \<Longrightarrow> split_sep c s = [s]"
  by (induction s) auto

lemma split_sep_append: "c \<notin> set a \<Longrightarrow> split_sep c (a @ c # r) = a # split_sep c r"
  by (induction a) auto

lemma split_sep_two: "c \<notin> set a \<Longrightarrow> c \<notin> set b \<Longrightarrow> split_sep c (a @ c # b) = [a, b]"
  by (simp add: split_sep_append split_sep_notin)

lemma parse_frame_rate_try_error: "parse_frame_rate_try pf rate_str = Inl e \<Longrightarrow> e = ValueError"
  by (auto simp: parse_frame_rate_try_def split: if_splits list.splits option.splits)

text \<open>Fetching and displaying a frame leaves the playback state alone.\<close>

lemma display_only_refl: "display_only s s"
  by (simp add: display_only_def)

lemma display_only_trans: "display_only s s' \<Longrightarrow> display_only s' s'' \<Longrightarrow> display_only s s''"
  unfolding display_only_def by (cases s, cases s', cases s'') simp

lemma display_only_calls: "display_only s (s\<lparr>ffmpeg_calls := c\<rparr>)"
  by (simp add: display_only_def)

lemma update_status_bar_display_only: "display_only s (snd (update_status_bar m s))"
  by (simp add: update_status_bar_def display_only_def Let_def split: frames.splits)

lemma update_frame_display_display_only:
  "display_only s (snd (update_frame_display ev r1 r2 s))"
  by (simp add: update_frame_display_def display_only_def Let_def
      split: option.splits sum.splits)

lemma update_status_bar_calls_display_only:
  "display_only s (snd (update_status_bar m (s\<lparr>ffmpeg_calls := c\<rparr>)))"
  by (rule display_only_trans [OF display_only_calls update_status_bar_display_only])

lemma update_frame_display_calls_display_only:
  "display_only s (snd (update_frame_display ev r1 r2 (s\<lparr>ffmpeg_calls := c\<rparr>)))"
  by (rule display_only_trans [OF display_only_calls update_frame_display_display_only])

lemma display_single_frame_display_only:
  "display_only s (snd (display_single_frame ev n s))"
  by (simp add: display_single_frame_def Let_def display_only_refl display_only_calls
      update_status_bar_calls_display_only update_frame_display_calls_display_only
      split: sum.splits)

lemma display_only_fields:
  assumes "display_only s s'"
  shows "video2_offset s' = video2_offset s"
    and "current_frame_num s' = current_frame_num s"
    and "total_frames s' = total_frames s"
    and "duration_known s' = duration_known s"
    and "split_pos s' = split_pos s"
    and "display_width s' = display_width s"
    and "display_height s' = display_height s"
    and "is_playing s' = is_playing s"
  using assms unfolding display_only_def by (cases s, cases s', simp)+

subsection \<open>Truncation and rounding\<close>

lemma py_int_nonneg: "0 \<le> x \<Longrightarrow> py_int x = \<lfloor>x\<rfloor>"
  by (simp add: py_int_def)

lemma py_int_of_int: "py_int (real_of_int n) = n"
  by (simp add: py_int_def)

text \<open>Rounding keeps the sign.\<close>

lemma round_half_even_nonneg: "0 \<le> y \<Longrightarrow> 0 \<le> round_half_even y"
  by (auto simp: round_half_even_def Let_def)

lemma round_half_even_nonpos: "y \<le> 0 \<Longrightarrow> round_half_even y \<le> 0"
  unfolding round_half_even_def Let_def by (auto; linarith)

lemma pow2_pos: "0 < pow2 k"
  by (simp add: pow2_def)

lemma fl_nonneg: "0 \<le> x \<Longrightarrow> 0 \<le> fl x"
  unfolding fl_def Let_def
  by (intro mult_nonneg_nonneg) (simp_all add: round_half_even_nonneg pow2_pos less_imp_le)

lemma fl_nonpos: "x \<le> 0 \<Longrightarrow> fl x \<le> 0"
  unfolding fl_def Let_def
  by (intro mult_nonpos_nonneg)
     (simp_all add: round_half_even_nonpos pow2_pos less_imp_le divide_nonpos_pos)

text \<open>
  The exponent found by halving is the right one, and an integer of at most 53 bits is a
  double: rounding leaves it as it is.
\<close>

lemma lg_up_bounds:
  "1 \<le> x \<Longrightarrow> 0 \<le> lg_up x \<and> 2 ^ nat (lg_up x) \<le> x \<and> x < 2 * 2 ^ nat (lg_up x)"
proof (induction x rule: lg_up.induct)
  case (1 x)
  show ?case
  proof (cases "x < 2")
    case True
    with 1 show ?thesis by (simp add: lg_up.simps [of x])
  next
    case False
    then have "1 \<le> x / 2" by simp
    with 1 False have ih: "0 \<le> lg_up (x / 2)" "2 ^ nat (lg_up (x / 2)) \<le> x / 2"
      "x / 2 < 2 * 2 ^ nat (lg_up (x / 2))"
      by simp_all
    from False have l: "lg_up x = 1 + lg_up (x / 2)" by (simp add: lg_up.simps [of x])
    from ih(1) have n: "nat (1 + lg_up (x / 2)) = Suc (nat (lg_up (x / 2)))" by simp
    from ih show ?thesis by (simp add: l n)
  qed
qed

lemma round_half_even_of_int: "round_half_even (real_of_int k) = k"
  by (simp add: round_half_even_def)

lemma fl_of_int:
  assumes "\<bar>n\<bar> \<le> 2 ^ 53"
  shows "fl (real_of_int n) = real_of_int n"
proof (cases "n = 0")
  case True
  then show ?thesis by (simp add: fl_def round_half_even_def Let_def)
next
  case False
  define e where "e = lg_up \<bar>real_of_int n\<bar>"
  from False have "1 \<le> \<bar>n\<bar>" by linarith
  then have "real_of_int 1 \<le> real_of_int \<bar>n\<bar>" by (simp only: of_int_le_iff)
  then have one: "1 \<le> \<bar>real_of_int n\<bar>" by simp
  from lg_up_bounds [OF one] have e0: "0 \<le> e" and lo: "2 ^ nat e \<le> \<bar>real_of_int n\<bar>"
    by (simp_all add: e_def)
  from assms have "real_of_int \<bar>n\<bar> \<le> real_of_int (2 ^ 53)" by (simp only: of_int_le_iff)
  then have hi: "\<bar>real_of_int n\<bar> \<le> 2 ^ 53" by simp
  with lo have "(2::real) ^ nat e \<le> 2 ^ 53" by linarith
  then have "nat e \<le> 53" by (rule power_le_imp_le_exp [rotated]) simp
  with e0 have e53: "e \<le> 53" by simp
  have ex: "exponent (real_of_int n) = e"
    using one by (simp add: exponent_def e_def)
  show ?thesis
  proof (cases "e \<le> 52")
    case True
    define k where "k = nat (52 - e)"
    from True e0 have q: "pow2 (max e (- 1022) - 52) = 1 / 2 ^ k"
      by (auto simp: pow2_def k_def max_def)
    have "real_of_int n / (1 / 2 ^ k) = real_of_int (n * 2 ^ k)" by simp
    then have "round_half_even (real_of_int n / (1 / 2 ^ k)) = n * 2 ^ k"
      by (simp only: round_half_even_of_int)
    then show ?thesis
      by (simp add: fl_def ex q Let_def)
  next
    case False
    with e53 have e: "e = 53" by simp
    with lo hi have "\<bar>real_of_int n\<bar> = 2 ^ 53" by simp
    then have "real_of_int n = 2 ^ 53 \<or> real_of_int n = - (2 ^ 53)" by linarith
    then show ?thesis
      by (auto simp: fl_def ex e pow2_def round_half_even_def Let_def)
  qed
qed

lemma not_overflows_of_int: "\<bar>n\<bar> \<le> 2 ^ 53 \<Longrightarrow> \<not> overflows (real_of_int n)"
proof -
  assume a: "\<bar>n\<bar> \<le> 2 ^ 53"
  then have "real_of_int \<bar>n\<bar> \<le> real_of_int (2 ^ 53)" by (simp only: of_int_le_iff)
  then have "\<bar>real_of_int n\<bar> \<le> 2 ^ 53" by simp
  moreover have "(2::real) ^ 53 < 2 ^ 1024" by simp
  ultimately show ?thesis by (simp add: overflows_def fl_of_int [OF a])
qed

lemma fl_numeral: "(numeral k :: int) \<le> 2 ^ 53 \<Longrightarrow> fl (numeral k) = numeral k"
  using fl_of_int [of "numeral k"] by simp

lemma fl_0: "fl 0 = 0"
  using fl_of_int [of 0] by simp

lemma fl_1: "fl 1 = 1"
  using fl_of_int [of 1] by simp

lemma not_overflows_numeral: "(numeral k :: int) \<le> 2 ^ 53 \<Longrightarrow> \<not> overflows (numeral k)"
  using not_overflows_of_int [of "numeral k"] by simp

lemma not_overflows_0: "\<not> overflows 0"
  using not_overflows_of_int [of 0] by simp

lemma not_overflows_1: "\<not> overflows 1"
  using not_overflows_of_int [of 1] by simp

text \<open>
  The error of rounding. The exponent found by doubling is the right one too; a rounded
  value is within half a unit in the last place, which in the normal range is a relative
  error of at most \<open>2^(-53)\<close>.
\<close>

lemma pow2_powi: "pow2 k = 2 powi k"
  by (simp add: pow2_def power_int_def power_one_over inverse_eq_divide)

lemma pow2_add: "pow2 (a + b) = pow2 a * pow2 b"
  by (simp add: pow2_powi power_int_add)

lemma pow2_mono: "a \<le> b \<Longrightarrow> pow2 a \<le> pow2 b"
  by (simp add: pow2_powi power_int_increasing)

lemma pow2_nat: "pow2 (int n) = 2 ^ n"
  by (simp add: pow2_def)

lemma pow2_Suc: "pow2 (k + 1) = 2 * pow2 k"
proof -
  have "pow2 1 = 2" by (simp add: pow2_def)
  with pow2_add [of k 1] show ?thesis by simp
qed

lemma lg_down_bounds:
  "0 < x \<Longrightarrow> x < 1 \<Longrightarrow> lg_down x < 0 \<and> pow2 (lg_down x) \<le> x \<and> x < 2 * pow2 (lg_down x)"
proof (induction x rule: lg_down.induct)
  case (1 x)
  from 1(2,3) have l: "lg_down x = lg_down (2 * x) - 1"
    by (simp add: lg_down.simps [of x])
  show ?case
  proof (cases "1 \<le> 2 * x")
    case True
    then have "lg_down (2 * x) = 0" by (simp add: lg_down.simps [of "2 * x"])
    with l True 1(3) show ?thesis by (simp add: pow2_def)
  next
    case False
    with 1 have ih: "lg_down (2 * x) < 0" "pow2 (lg_down (2 * x)) \<le> 2 * x"
      "2 * x < 2 * pow2 (lg_down (2 * x))"
      by simp_all
    have "pow2 (lg_down (2 * x)) = pow2 (lg_down x + 1)" by (simp add: l)
    also have "\<dots> = 2 * pow2 (lg_down x)" by (rule pow2_Suc)
    finally have "pow2 (lg_down (2 * x)) = 2 * pow2 (lg_down x)" .
    with ih l show ?thesis by simp
  qed
qed

lemma exponent_bounds:
  assumes "x \<noteq> 0"
  shows "pow2 (exponent x) \<le> \<bar>x\<bar> \<and> \<bar>x\<bar> < 2 * pow2 (exponent x)"
proof (cases "1 \<le> \<bar>x\<bar>")
  case True
  from lg_up_bounds [OF True] have "0 \<le> lg_up \<bar>x\<bar>"
    and "2 ^ nat (lg_up \<bar>x\<bar>) \<le> \<bar>x\<bar>" and "\<bar>x\<bar> < 2 * 2 ^ nat (lg_up \<bar>x\<bar>)"
    by simp_all
  with True show ?thesis by (simp add: exponent_def pow2_def)
next
  case False
  with assms have "0 < \<bar>x\<bar>" "\<bar>x\<bar> < 1" by simp_all
  from lg_down_bounds [OF this] False show ?thesis by (simp add: exponent_def)
qed

lemma round_half_even_error: "\<bar>real_of_int (round_half_even y) - y\<bar> \<le> 1 / 2"
  unfolding round_half_even_def Let_def by (auto; linarith)

lemma fl_error: "\<bar>fl x - x\<bar> \<le> pow2 (max (exponent x) (- 1022) - 52) / 2"
proof -
  define q where "q = pow2 (max (exponent x) (- 1022) - 52)"
  have q: "0 < q" by (simp add: q_def pow2_pos)
  have "fl x - x = (real_of_int (round_half_even (x / q)) - x / q) * q"
    using q by (simp add: fl_def q_def Let_def algebra_simps)
  then have "\<bar>fl x - x\<bar> = \<bar>real_of_int (round_half_even (x / q)) - x / q\<bar> * q"
    using q by (simp add: abs_mult)
  also have "\<dots> \<le> (1 / 2) * q"
    using q round_half_even_error [of "x / q"] by (intro mult_right_mono) simp_all
  finally show ?thesis by (simp add: q_def)
qed

text \<open>In the normal range the relative error is at most \<open>2^(-53)\<close>.\<close>

lemma fl_relative_error:
  assumes "pow2 (- 1022) \<le> \<bar>x\<bar>"
  shows "\<bar>fl x - x\<bar> \<le> \<bar>x\<bar> / 2 ^ 53"
proof -
  from assms have x0: "x \<noteq> 0" using pow2_pos [of "- 1022"] by auto
  note eb = exponent_bounds [OF x0]
  have "- 1022 \<le> exponent x"
  proof (rule ccontr)
    assume "\<not> - 1022 \<le> exponent x"
    then have "exponent x + 1 \<le> - 1022" by simp
    then have "pow2 (exponent x + 1) \<le> pow2 (- 1022)" by (rule pow2_mono)
    moreover have "pow2 (exponent x + 1) = 2 * pow2 (exponent x)"
      by (rule pow2_Suc)
    ultimately show False using eb assms by linarith
  qed
  then have "max (exponent x) (- 1022) - 52 = exponent x + (- 52)" by simp
  then have "pow2 (max (exponent x) (- 1022) - 52) = pow2 (exponent x) * pow2 (- 52)"
    by (simp only: pow2_add)
  also have "\<dots> = pow2 (exponent x) / 2 ^ 52" by (simp add: pow2_def)
  finally have "\<bar>fl x - x\<bar> \<le> pow2 (exponent x) / 2 ^ 52 / 2"
    using fl_error [of x] by simp
  also have "\<dots> \<le> \<bar>x\<bar> / 2 ^ 52 / 2"
    using eb by (simp add: divide_right_mono)
  finally show ?thesis by simp
qed

lemma fl_bounds:
  assumes "pow2 (- 1022) \<le> \<bar>x\<bar>"
  shows "\<bar>x\<bar> / 2 \<le> \<bar>fl x\<bar>" and "\<bar>fl x\<bar> \<le> 2 * \<bar>x\<bar>"
proof -
  have "\<bar>x\<bar> / 2 ^ 53 \<le> \<bar>x\<bar> / 2"
    by (intro divide_left_mono) simp_all
  with fl_relative_error [OF assms] have e: "\<bar>fl x - x\<bar> \<le> \<bar>x\<bar> / 2" by linarith
  then show "\<bar>x\<bar> / 2 \<le> \<bar>fl x\<bar>" by linarith
  from e show "\<bar>fl x\<bar> \<le> 2 * \<bar>x\<bar>" by linarith
qed

subsection \<open>The geometry planner and the test states\<close>

text \<open>For sources of positive size the planner gives no negative width.\<close>

lemma int_truediv_Inr: "int_truediv a b = Inr r \<Longrightarrow> b \<noteq> 0 \<and> r = fl (real_of_int a / real_of_int b)"
  by (auto simp: int_truediv_def split: if_splits)

lemma calculate_display_size_width_nonneg:
  assumes "0 < w" and "0 < h" and "0 \<le> tw"
    and "calculate_display_size w h tw th = Inr (nw, nh)"
  shows "0 \<le> nw"
proof -
  from assms(4) obtain ar r where ar: "int_truediv w h = Inr ar"
    and r: "int_truediv tw th = Inr r"
    by (auto simp: calculate_display_size_def split: sum.splits)
  from int_truediv_Inr [OF ar] assms(1,2) have ar0: "0 \<le> ar"
    by (simp add: fl_nonneg)
  show ?thesis
  proof (cases "r > ar")
    case True
    with ar0 have "0 < r" by simp
    with int_truediv_Inr [OF r] have "\<not> real_of_int tw / real_of_int th \<le> 0"
      using fl_nonpos [of "real_of_int tw / real_of_int th"] by auto
    with assms(3) have th: "0 < th"
      by (auto simp: not_le zero_less_divide_iff)
    from True ar r assms(4) obtain thf where thf: "float_of_int th = Inr thf"
      and nw: "int_of_result (thf * ar) = Inr nw"
      by (auto simp: calculate_display_size_def split: sum.splits)
    from thf th have "0 \<le> thf"
      by (auto simp: float_of_int_def fl_nonneg split: if_splits)
    then have "0 \<le> thf * ar" using ar0 by (rule mult_nonneg_nonneg)
    then have "0 \<le> fl (thf * ar)" by (rule fl_nonneg)
    with nw show ?thesis
      by (auto simp: int_of_result_def py_int_def split: if_splits)
  next
    case False
    with ar r assms(3,4) show ?thesis
      by (auto simp: calculate_display_size_def split: sum.splits if_splits)
  qed
qed

lemma new_display_size_width_nonneg:
  assumes "width (video_info1 s) = Some w1" and "height (video_info1 s) = Some h1"
    and "width (video_info2 s) = Some w2" and "height (video_info2 s) = Some h2"
    and "0 < w1" and "0 < h1" and "0 < w2" and "0 < h2"
    and "0 \<le> main_frame_width ev"
    and "new_display_size ev s = Inr (nw, nh)"
  shows "0 \<le> nw"
proof (cases "is_fullscreen s")
  case True
  with assms(9,10) show ?thesis by (simp add: new_display_size_def Let_def)
next
  case False
  let ?th = "main_frame_height ev - (controls_frame_height ev + status_bar_height ev + 20)"
  from False assms have
    "calculate_display_size w1 h1 (main_frame_width ev) ?th = Inr (nw, nh)
     \<or> calculate_display_size w2 h2 (main_frame_width ev) ?th = Inr (nw, nh)"
    by (simp add: new_display_size_def Let_def split: if_splits sum.splits)
  with assms(5-9) show ?thesis
    by (auto dest: calculate_display_size_width_nonneg)
qed

lemma handle_resize_cases:
  assumes "handle_resize ev s = (r, s')"
  shows "s' = s
    \<or> (\<exists>nw nh. new_display_size ev s = Inr (nw, nh) \<and> display_width s' = nw
          \<and> display_height s' = nh \<and> split_pos s' = nw div 2
          \<and> (abs (nw - display_width s) > 1 \<or> abs (nh - display_height s) > 1))"
  using assms
  by (auto simp: handle_resize_def Let_def split: if_splits sum.splits prod.splits)

text \<open>The test state, evaluated.\<close>

lemmas float_simps =
  fl_def exponent_def lg_up.simps lg_down.simps pow2_def round_half_even_def overflows_def
  int_truediv_def float_of_int_def int_of_result_def

lemmas small_float_simps =
  int_truediv_def float_of_int_def int_of_result_def fl_numeral fl_0 fl_1
  not_overflows_numeral not_overflows_0 not_overflows_1

lemmas eval_simps =
  load_video_def update_status_bar_def format_time_def fmt_02d_def py_str_def py_int_def
  digits10.simps digit_char_def truthy_def init_def test_env_def stream_a_def stream_b_def
  stream_c_def frame_a_def frame_b_def initialize_playback_def initialize_playback_try_def
  parse_frame_rate_def parse_frame_rate_try_def float_literal_def decimal_literal_def
  unsigned_decimal_def digit_val_def integer_literal_def get_duration_def
  get_avg_frame_rate_def handle_resize_def new_display_size_def calculate_display_size_def
  offset_var_set_def validate_offset_input_def display_single_frame_def
  update_frame_display_def reshape3_def combined_frame_def add_video_labels_def draw_def
  new_array_def copy_columns_from_def slice_start_def empty_dict_def small_float_simps

lemma loaded_eq:
  "loaded =
     \<lparr>video_path1 = Some ''/v/a.mp4'', video_path2 = Some ''/v/b.mp4'',
      video_info1 = stream_a, video_info2 = stream_b,
      video_name1 = ''a.mp4'', video_name2 = ''b.mp4'',
      ffmpeg_process1 = None, ffmpeg_process2 = None, is_playing = False,
      current_frame_num = 0, total_frames = FramesInt 150,
      fps1 = 30, fps2 = 30, video_fps = 30, video2_offset = 0,
      display_width = 2, display_height = 1, split_pos = 1,
      duration_known = True, is_fullscreen = False, comparison_mode_var = SideBySide,
      seek_bar_state = NORMAL, seek_bar_to = FramesInt 149, seek_bar_value = 0,
      play_pause_btn_state = NORMAL, play_pause_btn_pause = False,
      offset_var = ''0'', status_var = ''Ready | 00:00 / 00:05'',
      video_label_text = [],
      video_label_image =
        Some \<lparr>shape = [1, 2, 3], data = [1, 2, 3, 10, 11, 12], writeable = True\<rparr>,
      messagebox = [],
      ffmpeg_calls =
        [\<lparr>ss = 0, input = Some ''/v/a.mp4'', scale_width = 2, scale_height = 1,
          vframes1 = True\<rparr>,
         \<lparr>ss = 0, input = Some ''/v/b.mp4'', scale_width = 2, scale_height = 1,
          vframes1 = True\<rparr>,
         \<lparr>ss = 0, input = Some ''/v/a.mp4'', scale_width = 2, scale_height = 1,
          vframes1 = True\<rparr>,
         \<lparr>ss = 0, input = Some ''/v/b.mp4'', scale_width = 2, scale_height = 1,
          vframes1 = True\<rparr>],
      after_queue = [Cb_restart_after_resize False]\<rparr>"
  unfolding loaded_def by (simp add: eval_simps Let_def)

lemmas run_simps =
  seek_video_def toggle_play_pause_def start_ffmpeg_processes_def stop_ffmpeg_processes_def
  run_after_queue_def restart_after_resize_def handle_playback_end_def advance_frame_def
  bad_read_def max_errors_def step_frame_def good_tick_def short_tick_def

lemma playing_at_149_fields:
  "is_playing playing_at_149"
  "ffmpeg_process1 playing_at_149 \<noteq> None"
  "ffmpeg_process2 playing_at_149 \<noteq> None"
  "duration_known playing_at_149"
  "total_frames playing_at_149 = FramesInt 150"
  "current_frame_num playing_at_149 = 149"
  "video_fps playing_at_149 = 30"
  "after_queue playing_at_149 = []"
  "display_width playing_at_149 = 2"
  "display_height playing_at_149 = 1"
  "status_var playing_at_149 = ''Playing | 00:04 / 00:05''"
  unfolding playing_at_149_def paused_at_149_def
  by (simp_all add: loaded_eq eval_simps run_simps Let_def)

lemma tick_fields:
  "\<not> exited1 good_tick" "\<not> exited2 good_tick" "\<not> exited1 short_tick" "\<not> exited2 short_tick"
  "stdout1 good_tick = frame_a" "stdout2 good_tick = frame_b"
  "stdout1 short_tick = frame_a" "stdout2 short_tick = []"
  by (simp_all add: good_tick_def short_tick_def)

lemma playing_at_0_fields:
  "is_playing playing_at_0"
  "ffmpeg_process1 playing_at_0 \<noteq> None"
  "ffmpeg_process2 playing_at_0 \<noteq> None"
  "total_frames playing_at_0 = FramesInt 150"
  "current_frame_num playing_at_0 = 0"
  "video_fps playing_at_0 = 30"
  "display_width playing_at_0 = 2"
  "display_height playing_at_0 = 1"
  unfolding playing_at_0_def
  by (simp_all add: loaded_eq eval_simps run_simps Let_def)

subsection \<open>Frame-rate parsing\<close>

text \<open>
  C8. For every frame-rate string and whatever \<^verbatim>\<open>float()\<close> accepts,
  \<^verbatim>\<open>parse_frame_rate\<close> returns a value and never an exception. It returns
  \<open>num / den\<close> for a string \<open>num/den\<close> whose two parts convert and whose denominator
  is not zero, the converted value for a string without a slash that converts, and 30
  in every other case: a zero denominator, a part that does not convert, a number of
  parts other than two, or any exception raised inside the \<^verbatim>\<open>try\<close>.
\<close>

theorem parse_frame_rate_lenient:
  "(\<exists>v. parse_frame_rate pf rate_str = Inr v)
   \<and> (CHR ''/'' \<notin> set a \<and> CHR ''/'' \<notin> set b \<and> pf a = Some num \<and> pf b = Some den \<and> den \<noteq> 0
        \<longrightarrow> parse_frame_rate pf (a @ ''/'' @ b) = Inr (num / den))
   \<and> (CHR ''/'' \<notin> set a \<and> CHR ''/'' \<notin> set b \<and> pf b = Some 0
        \<longrightarrow> parse_frame_rate pf (a @ ''/'' @ b) = Inr 30)
   \<and> (CHR ''/'' \<notin> set rate_str \<and> pf rate_str = Some v
        \<longrightarrow> parse_frame_rate pf rate_str = Inr v)
   \<and> (CHR ''/'' \<notin> set rate_str \<and> pf rate_str = None
        \<longrightarrow> parse_frame_rate pf rate_str = Inr 30)
   \<and> (CHR ''/'' \<in> set rate_str
        \<and> (length (split_sep CHR ''/'' rate_str) \<noteq> 2
            \<or> None \<in> pf ` set (split_sep CHR ''/'' rate_str))
        \<longrightarrow> parse_frame_rate pf rate_str = Inr 30)
   \<and> (parse_frame_rate_try pf rate_str = Inl e \<longrightarrow> parse_frame_rate pf rate_str = Inr 30)"
proof (intro conjI impI)
  show "\<exists>v. parse_frame_rate pf rate_str = Inr v"
    by (cases "parse_frame_rate_try pf rate_str")
       (auto simp: parse_frame_rate_def dest: parse_frame_rate_try_error)
next
  assume "CHR ''/'' \<notin> set a \<and> CHR ''/'' \<notin> set b \<and> pf a = Some num \<and> pf b = Some den
    \<and> den \<noteq> 0"
  then show "parse_frame_rate pf (a @ ''/'' @ b) = Inr (num / den)"
    by (simp add: parse_frame_rate_def parse_frame_rate_try_def split_sep_two)
next
  assume "CHR ''/'' \<notin> set a \<and> CHR ''/'' \<notin> set b \<and> pf b = Some 0"
  then show "parse_frame_rate pf (a @ ''/'' @ b) = Inr 30"
    by (cases "pf a")
       (simp_all add: parse_frame_rate_def parse_frame_rate_try_def split_sep_two)
next
  assume "CHR ''/'' \<notin> set rate_str \<and> pf rate_str = Some v"
  then show "parse_frame_rate pf rate_str = Inr v"
    by (simp add: parse_frame_rate_def parse_frame_rate_try_def)
next
  assume "CHR ''/'' \<notin> set rate_str \<and> pf rate_str = None"
  then show "parse_frame_rate pf rate_str = Inr 30"
    by (simp add: parse_frame_rate_def parse_frame_rate_try_def)
next
  assume "CHR ''/'' \<in> set rate_str
    \<and> (length (split_sep CHR ''/'' rate_str) \<noteq> 2
        \<or> None \<in> pf ` set (split_sep CHR ''/'' rate_str))"
  then show "parse_frame_rate pf rate_str = Inr 30"
    by (auto simp: parse_frame_rate_def parse_frame_rate_try_def image_iff
        split: list.splits option.splits)
next
  assume "parse_frame_rate_try pf rate_str = Inl e"
  then show "parse_frame_rate pf rate_str = Inr 30"
    by (auto simp: parse_frame_rate_def dest: parse_frame_rate_try_error)
qed

theorem parse_frame_rate_lenient_witness:
  "decimal_literal ''30000'' = Some 30000 \<and> decimal_literal ''1001'' = Some 1001
   \<and> parse_frame_rate decimal_literal ''30000/1001'' = Inr (30000 / 1001)
   \<and> decimal_literal ''0'' = Some 0
   \<and> parse_frame_rate decimal_literal ''0/0'' = Inr 30
   \<and> decimal_literal ''29.97'' = Some (2997 / 100)
   \<and> parse_frame_rate decimal_literal ''29.97'' = Inr (2997 / 100)
   \<and> decimal_literal ''N/A'' = None
   \<and> parse_frame_rate_try decimal_literal ''N/A'' = Inl ValueError
   \<and> parse_frame_rate decimal_literal ''N/A'' = Inr 30
   \<and> decimal_literal ''abc'' = None
   \<and> parse_frame_rate decimal_literal ''abc'' = Inr 30
   \<and> split_sep CHR ''/'' ''1/2/3'' = [''1'', ''2'', ''3'']
   \<and> parse_frame_rate decimal_literal ''1/2/3'' = Inr 30"
  using parse_frame_rate_lenient
      [of decimal_literal "''29.97''" "''30000''" "''1001''" 30000 1001 "2997 / 100" ValueError]
    parse_frame_rate_lenient
      [of decimal_literal "''N/A''" "''0''" "''0''" 0 0 0 ValueError]
    parse_frame_rate_lenient
      [of decimal_literal "''abc''" "''0''" "''0''" 0 0 0 ValueError]
    parse_frame_rate_lenient
      [of decimal_literal "''1/2/3''" "''0''" "''0''" 0 0 0 ValueError]
  by (simp add: decimal_literal_def unsigned_decimal_def digit_val_def parse_frame_rate_try_def)

subsection \<open>Timeline length\<close>

text \<open>
  \<^verbatim>\<open>int()\<close> is positive exactly when the floor is, and then equals it. The steps of
  \<^verbatim>\<open>initialize_playback\<close> after the frame counts leave the timeline alone.
\<close>

lemma py_int_pos_iff: "0 < py_int x \<longleftrightarrow> 0 < \<lfloor>x\<rfloor>"
  by (auto simp: py_int_def)

lemma py_int_pos_floor: "0 < py_int x \<Longrightarrow> py_int x = \<lfloor>x\<rfloor>"
  by (auto simp: py_int_def split: if_splits)

lemma handle_resize_keeps:
  "total_frames (snd (handle_resize ev s)) = total_frames s"
  "duration_known (snd (handle_resize ev s)) = duration_known s"
  "fps1 (snd (handle_resize ev s)) = fps1 s"
  "fps2 (snd (handle_resize ev s)) = fps2 s"
  "messagebox (snd (handle_resize ev s)) = messagebox s"
  by (simp_all add: handle_resize_def Let_def split: sum.splits prod.splits)

lemma handle_resize_raises:
  "fst (handle_resize ev s) \<noteq> None
   \<longleftrightarrow> truthy (video_path1 s) \<and> truthy (video_path2 s) \<and> isl (new_display_size ev s)"
  by (auto simp: handle_resize_def Let_def split: sum.splits prod.splits)

lemma validate_offset_input_state:
  "snd (validate_offset_input ev s) = s
   \<or> (\<exists>v. snd (validate_offset_input ev s) = s\<lparr>video2_offset := v\<rparr>)
   \<or> (\<exists>v n. snd (validate_offset_input ev s)
              = snd (display_single_frame ev n (s\<lparr>video2_offset := v\<rparr>)))"
  by (auto simp: validate_offset_input_def Let_def split: option.splits prod.splits)
     (metis snd_conv)+

lemma display_only_timeline:
  assumes "display_only s s'"
  shows "total_frames s' = total_frames s \<and> duration_known s' = duration_known s
    \<and> fps1 s' = fps1 s \<and> fps2 s' = fps2 s \<and> current_frame_num s' = current_frame_num s"
  using assms unfolding display_only_def by (cases s, cases s') simp

lemma offset_var_set_keeps:
  "total_frames (offset_var_set ev v s) = total_frames s
   \<and> duration_known (offset_var_set ev v s) = duration_known s
   \<and> fps1 (offset_var_set ev v s) = fps1 s \<and> fps2 (offset_var_set ev v s) = fps2 s"
  using validate_offset_input_state [of ev "s\<lparr>offset_var := v\<rparr>"]
    display_only_timeline [OF display_single_frame_display_only]
  unfolding offset_var_set_def by (elim disjE exE) simp_all

lemma initialize_playback_tail:
  assumes "initialize_playback_try ev s = (None, s')"
  shows "total_frames (snd (initialize_playback ev s))
           = (if int_ge_frames 0 (total_frames s') then FramesInf else total_frames s')
       \<and> duration_known (snd (initialize_playback ev s)) = (\<not> int_ge_frames 0 (total_frames s'))
       \<and> fps1 (snd (initialize_playback ev s)) = fps1 s'
       \<and> fps2 (snd (initialize_playback ev s)) = fps2 s'"
proof -
  define s5 where "s5 = (if int_ge_frames 0 (total_frames s')
                    then s'\<lparr>duration_known := False, total_frames := FramesInf,
                            seek_bar_state := DISABLED\<rparr>
                    else s'\<lparr>duration_known := True,
                            seek_bar_to := frames_minus1 (total_frames s'),
                            seek_bar_state := NORMAL\<rparr>)"
  define s8 where "s8 = (let s6 = s5\<lparr>current_frame_num := 0\<rparr>;
              s7 = (if duration_known s6 then s6\<lparr>seek_bar_value := 0\<rparr> else s6)
              in s7\<lparr>play_pause_btn_state := NORMAL\<rparr>)"
  define s9 where "s9 = offset_var_set ev ''0'' (s8\<lparr>video2_offset := 0\<rparr>)"
  have fin: "snd (initialize_playback ev s)
      = snd (case update_status_bar ''Ready'' s9 of
               (Some e, s10) \<Rightarrow> (Some e, s10)
             | (None, s10) \<Rightarrow> display_single_frame ev 0 s10)"
    using assms by (simp add: initialize_playback_def s5_def s8_def s9_def Let_def)
  have "display_only s9 (snd (initialize_playback ev s))"
  proof (cases "update_status_bar ''Ready'' s9")
    case (Pair e s10)
    have d10: "display_only s9 s10"
      using update_status_bar_display_only [of s9 "''Ready''"] Pair by simp
    show ?thesis
    proof (cases e)
      case None
      with Pair fin d10 show ?thesis
        by (simp add: display_only_trans [OF _ display_single_frame_display_only])
    next
      case (Some a)
      with Pair fin d10 show ?thesis by simp
    qed
  qed
  from display_only_timeline [OF this] offset_var_set_keeps [of ev "''0''" "s8\<lparr>video2_offset := 0\<rparr>"]
  show ?thesis
    by (simp add: s9_def s8_def s5_def Let_def)
qed

text \<open>
  When both frame rates and both durations parse and neither product is infinite, the
  \<^verbatim>\<open>try\<close> reaches the geometry computation with the timeline assigned.
\<close>

lemma initialize_playback_try_resize:
  assumes "parse_frame_rate (py_float ev) (get_avg_frame_rate (video_info1 s)) = Inr f1"
    and "parse_frame_rate (py_float ev) (get_avg_frame_rate (video_info2 s)) = Inr f2"
    and "get_duration ev (video_info1 s) = Some d1"
    and "get_duration ev (video_info2 s) = Some d2"
    and "\<not> overflows (fl f1 * d1)" and "\<not> overflows (fl f2 * d2)"
  shows "initialize_playback_try ev s
         = handle_resize ev
             (s\<lparr>fps1 := fl f1, fps2 := fl f2, video_fps := fl (fl (fl f1 + fl f2) / 2),
                total_frames :=
                  FramesInt (if py_int (fl (fl f1 * d1)) > 0 \<and> py_int (fl (fl f2 * d2)) > 0
                             then min (py_int (fl (fl f1 * d1))) (py_int (fl (fl f2 * d2)))
                             else 0)\<rparr>)"
  using assms by (simp add: initialize_playback_try_def int_of_result_def Let_def)

lemma new_display_size_timeline:
  "new_display_size ev (s\<lparr>fps1 := a, fps2 := b, video_fps := c, total_frames := t\<rparr>)
   = new_display_size ev s"
  by (simp add: new_display_size_def cong: option.case_cong sum.case_cong)

text \<open>
  C2, as the specification states it, fails. Source C reports no duration, so its frame
  count is \<open>floor(30 * 0) = 0\<close>; it is loaded as second source while the window leaves
  no room for the picture, so that the geometry computation inside the \<^verbatim>\<open>try\<close>
  divides by a canvas height of 0. \<^verbatim>\<open>initialize_playback\<close> shows its error dialog and
  returns with what it had assigned: a timeline of length 0 that counts as known, not
  the unknown state.
\<close>

theorem timeline_zero_counterexample:
  "video_path1 (snd (load_video no_canvas_env 2 ''/v/c.mp4'' loaded)) = Some ''/v/a.mp4''
   \<and> video_path2 (snd (load_video no_canvas_env 2 ''/v/c.mp4'' loaded)) = Some ''/v/c.mp4''
   \<and> video_info2 (snd (load_video no_canvas_env 2 ''/v/c.mp4'' loaded)) = stream_c
   \<and> get_duration no_canvas_env stream_c = Some 0
   \<and> \<lfloor>fl (fl 30 * 0)\<rfloor> = 0
   \<and> total_frames (snd (load_video no_canvas_env 2 ''/v/c.mp4'' loaded)) = FramesInt 0
   \<and> duration_known (snd (load_video no_canvas_env 2 ''/v/c.mp4'' loaded))
   \<and> messagebox (snd (load_video no_canvas_env 2 ''/v/c.mp4'' loaded)) = [''Initialization Error'']"
  by (simp add: loaded_eq no_canvas_env_def eval_simps Let_def)

text \<open>
  When a duration does not parse or a product is infinite, the \<^verbatim>\<open>try\<close> is left
  before the timeline is assigned.
\<close>

lemma initialize_playback_try_gives_up:
  assumes "parse_frame_rate (py_float ev) (get_avg_frame_rate (video_info1 s)) = Inr f1"
    and "parse_frame_rate (py_float ev) (get_avg_frame_rate (video_info2 s)) = Inr f2"
    and "get_duration ev (video_info1 s) = None
         \<or> get_duration ev (video_info2 s) = None
         \<or> (get_duration ev (video_info1 s) = Some d1 \<and> overflows (fl f1 * d1))
         \<or> (get_duration ev (video_info2 s) = Some d2 \<and> overflows (fl f2 * d2))"
  shows "\<exists>e. initialize_playback_try ev s
              = (Some e, s\<lparr>fps1 := fl f1, fps2 := fl f2,
                            video_fps := fl (fl (fl f1 + fl f2) / 2)\<rparr>)"
  using assms
  by (auto simp: initialize_playback_try_def int_of_result_def Let_def split: option.splits)

text \<open>
  What \<^verbatim>\<open>initialize_playback\<close> does to the timeline, in each of its cases. It stores
  the two parsed frame rates as floats. A source's frame count is the floor of the float
  product of its stored frame rate and its duration (the program truncates with
  \<^verbatim>\<open>int()\<close>, which differs from the floor only where both are non-positive). When
  both durations parse, both products are finite and the geometry computation that
  follows in the same \<^verbatim>\<open>try\<close> does not raise, the timeline is known, of length the
  minimum of the two counts, if both are positive, and otherwise unknown. When the
  geometry computation raises (both sources loaded, and \<open>new_display_size\<close> fails),
  initialisation is given up with an error dialog: \<^verbatim>\<open>total_frames\<close> is left at the
  minimum of the two counts, or at 0 if one of them is not positive, and
  \<^verbatim>\<open>duration_known\<close> is left as it was. When a duration does not parse or a product is
  infinite, initialisation is given up with the timeline as it was.
\<close>

lemma initialize_playback_timeline:
  assumes "parse_frame_rate (py_float ev) (get_avg_frame_rate (video_info1 s)) = Inr f1"
    and "parse_frame_rate (py_float ev) (get_avg_frame_rate (video_info2 s)) = Inr f2"
  shows "fps1 (snd (initialize_playback ev s)) = fl f1
       \<and> fps2 (snd (initialize_playback ev s)) = fl f2
       \<and> (get_duration ev (video_info1 s) = Some d1 \<and> get_duration ev (video_info2 s) = Some d2
          \<and> \<not> overflows (fl f1 * d1) \<and> \<not> overflows (fl f2 * d2)
          \<and> \<not> (truthy (video_path1 s) \<and> truthy (video_path2 s) \<and> isl (new_display_size ev s)) \<longrightarrow>
            total_frames (snd (initialize_playback ev s))
              = (if 0 < \<lfloor>fl (fl f1 * d1)\<rfloor> \<and> 0 < \<lfloor>fl (fl f2 * d2)\<rfloor>
                 then FramesInt (min \<lfloor>fl (fl f1 * d1)\<rfloor> \<lfloor>fl (fl f2 * d2)\<rfloor>) else FramesInf)
            \<and> (duration_known (snd (initialize_playback ev s))
                 \<longleftrightarrow> 0 < \<lfloor>fl (fl f1 * d1)\<rfloor> \<and> 0 < \<lfloor>fl (fl f2 * d2)\<rfloor>))
       \<and> (get_duration ev (video_info1 s) = Some d1 \<and> get_duration ev (video_info2 s) = Some d2
          \<and> \<not> overflows (fl f1 * d1) \<and> \<not> overflows (fl f2 * d2)
          \<and> truthy (video_path1 s) \<and> truthy (video_path2 s) \<and> isl (new_display_size ev s) \<longrightarrow>
            total_frames (snd (initialize_playback ev s))
              = FramesInt (if 0 < \<lfloor>fl (fl f1 * d1)\<rfloor> \<and> 0 < \<lfloor>fl (fl f2 * d2)\<rfloor>
                           then min \<lfloor>fl (fl f1 * d1)\<rfloor> \<lfloor>fl (fl f2 * d2)\<rfloor> else 0)
            \<and> duration_known (snd (initialize_playback ev s)) = duration_known s
            \<and> messagebox (snd (initialize_playback ev s))
                = messagebox s @ [''Initialization Error''])
       \<and> (get_duration ev (video_info1 s) = None
          \<or> get_duration ev (video_info2 s) = None
          \<or> (get_duration ev (video_info1 s) = Some d1 \<and> overflows (fl f1 * d1))
          \<or> (get_duration ev (video_info2 s) = Some d2 \<and> overflows (fl f2 * d2)) \<longrightarrow>
            total_frames (snd (initialize_playback ev s)) = total_frames s
            \<and> duration_known (snd (initialize_playback ev s)) = duration_known s
            \<and> messagebox (snd (initialize_playback ev s))
                = messagebox s @ [''Initialization Error''])"
proof -
  let ?n1 = "\<lfloor>fl (fl f1 * d1)\<rfloor>" and ?n2 = "\<lfloor>fl (fl f2 * d2)\<rfloor>"
  let ?t = "if 0 < ?n1 \<and> 0 < ?n2 then min ?n1 ?n2 else 0"
  let ?s3 = "s\<lparr>fps1 := fl f1, fps2 := fl f2, video_fps := fl (fl (fl f1 + fl f2) / 2)\<rparr>"
  let ?s4 = "s\<lparr>fps1 := fl f1, fps2 := fl f2, video_fps := fl (fl (fl f1 + fl f2) / 2),
                total_frames := FramesInt ?t\<rparr>"
  let ?S = "snd (initialize_playback ev s)"
  let ?fails = "truthy (video_path1 s) \<and> truthy (video_path2 s) \<and> isl (new_display_size ev s)"
  have early: "fps1 ?S = fl f1 \<and> fps2 ?S = fl f2 \<and> total_frames ?S = total_frames s
      \<and> duration_known ?S = duration_known s
      \<and> messagebox ?S = messagebox s @ [''Initialization Error'']"
    if "get_duration ev (video_info1 s) = None
          \<or> get_duration ev (video_info2 s) = None
          \<or> (get_duration ev (video_info1 s) = Some d1 \<and> overflows (fl f1 * d1))
          \<or> (get_duration ev (video_info2 s) = Some d2 \<and> overflows (fl f2 * d2))"
  proof -
    from initialize_playback_try_gives_up [OF assms that]
    obtain e where "initialize_playback_try ev s = (Some e, ?s3)" ..
    then show ?thesis by (simp add: initialize_playback_def)
  qed
  have late: "fps1 ?S = fl f1 \<and> fps2 ?S = fl f2
      \<and> (\<not> ?fails \<longrightarrow>
            total_frames ?S = (if 0 < ?n1 \<and> 0 < ?n2 then FramesInt (min ?n1 ?n2) else FramesInf)
            \<and> (duration_known ?S \<longleftrightarrow> 0 < ?n1 \<and> 0 < ?n2))
      \<and> (?fails \<longrightarrow>
            total_frames ?S = FramesInt ?t \<and> duration_known ?S = duration_known s
            \<and> messagebox ?S = messagebox s @ [''Initialization Error''])"
    if d: "get_duration ev (video_info1 s) = Some d1" "get_duration ev (video_info2 s) = Some d2"
      and o: "\<not> overflows (fl f1 * d1)" "\<not> overflows (fl f2 * d2)"
  proof -
    have count: "(if py_int (fl (fl f1 * d1)) > 0 \<and> py_int (fl (fl f2 * d2)) > 0
                  then min (py_int (fl (fl f1 * d1))) (py_int (fl (fl f2 * d2))) else 0) = ?t"
      by (auto simp: py_int_pos_iff py_int_pos_floor)
    have tr: "initialize_playback_try ev s = handle_resize ev ?s4"
      using initialize_playback_try_resize [OF assms d o] by (simp only: count)
    obtain r s' where hr: "handle_resize ev ?s4 = (r, s')"
      by (cases "handle_resize ev ?s4")
    from handle_resize_keeps [of ev ?s4] hr
    have keep: "total_frames s' = FramesInt ?t" "duration_known s' = duration_known s"
      "fps1 s' = fl f1" "fps2 s' = fl f2" "messagebox s' = messagebox s"
      by simp_all
    from handle_resize_raises [of ev ?s4] hr
    have raises: "r \<noteq> None \<longleftrightarrow> ?fails"
      by (simp add: new_display_size_timeline)
    show ?thesis
    proof (cases r)
      case None
      with tr hr have "initialize_playback_try ev s = (None, s')" by simp
      note tail = initialize_playback_tail [OF this]
      from raises None have ok: "\<not> ?fails" by simp
      show ?thesis
      proof (cases "0 < ?n1 \<and> 0 < ?n2")
        case True
        then have "0 < min ?n1 ?n2" by simp
        with True keep tail ok show ?thesis by auto
      next
        case False
        with keep tail ok show ?thesis by auto
      qed
    next
      case (Some e)
      with tr hr have "?S = s'\<lparr>messagebox := messagebox s' @ [''Initialization Error'']\<rparr>"
        by (simp add: initialize_playback_def)
      with keep raises Some show ?thesis by simp
    qed
  qed
  have rates: "fps1 ?S = fl f1 \<and> fps2 ?S = fl f2"
  proof (cases "get_duration ev (video_info1 s)")
    case None
    with early show ?thesis by simp
  next
    case d1: (Some a)
    show ?thesis
    proof (cases "get_duration ev (video_info2 s)")
      case None
      with early show ?thesis by simp
    next
      case d2: (Some b)
      show ?thesis
      proof (cases "overflows (fl f1 * a) \<or> overflows (fl f2 * b)")
        case True
        with d1 d2 initialize_playback_try_gives_up [OF assms, of a b]
        obtain e where "initialize_playback_try ev s = (Some e, ?s3)" by blast
        then show ?thesis by (simp add: initialize_playback_def)
      next
        case False
        have tr: "initialize_playback_try ev s
            = handle_resize ev
                (s\<lparr>fps1 := fl f1, fps2 := fl f2, video_fps := fl (fl (fl f1 + fl f2) / 2),
                   total_frames :=
                     FramesInt (if py_int (fl (fl f1 * a)) > 0 \<and> py_int (fl (fl f2 * b)) > 0
                                then min (py_int (fl (fl f1 * a))) (py_int (fl (fl f2 * b)))
                                else 0)\<rparr>)"
          (is "_ = handle_resize ev ?u")
          using False by (intro initialize_playback_try_resize assms d1 d2) simp_all
        obtain r s' where hr: "handle_resize ev ?u = (r, s')"
          by (cases "handle_resize ev ?u")
        from handle_resize_keeps(3,4) [of ev ?u] hr
        have keep: "fps1 s' = fl f1" "fps2 s' = fl f2" by simp_all
        show ?thesis
        proof (cases r)
          case None
          with tr hr have "initialize_playback_try ev s = (None, s')" by simp
          from initialize_playback_tail [OF this] keep show ?thesis by simp
        next
          case (Some e)
          with tr hr keep show ?thesis by (simp add: initialize_playback_def)
        qed
      qed
    qed
  qed
  from rates early late show ?thesis by blast
qed

text \<open>
  C2, amended. Let both frame rates and both durations parse, let neither float product
  of a stored frame rate and a duration be infinite, and let the geometry computation
  in the \<^verbatim>\<open>try\<close> not raise, so that \<^verbatim>\<open>initialize_playback\<close> completes. Then it has
  stored the two parsed frame rates as floats, and with a source's frame count the floor
  of the float product of its stored frame rate and its duration, the timeline is known,
  of length the minimum of the two counts, if both counts are positive, and otherwise
  unknown (\<^verbatim>\<open>duration_known\<close> false, \<^verbatim>\<open>total_frames\<close> infinite, not zero).
\<close>

theorem timeline_length:
  assumes "parse_frame_rate (py_float ev) (get_avg_frame_rate (video_info1 s)) = Inr f1"
    and "parse_frame_rate (py_float ev) (get_avg_frame_rate (video_info2 s)) = Inr f2"
    and "get_duration ev (video_info1 s) = Some d1"
    and "get_duration ev (video_info2 s) = Some d2"
    and "\<not> overflows (fl f1 * d1)" and "\<not> overflows (fl f2 * d2)"
    and "\<not> (truthy (video_path1 s) \<and> truthy (video_path2 s) \<and> isl (new_display_size ev s))"
  shows "fps1 (snd (initialize_playback ev s)) = fl f1
       \<and> fps2 (snd (initialize_playback ev s)) = fl f2
       \<and> total_frames (snd (initialize_playback ev s))
           = (if 0 < \<lfloor>fl (fl f1 * d1)\<rfloor> \<and> 0 < \<lfloor>fl (fl f2 * d2)\<rfloor>
              then FramesInt (min \<lfloor>fl (fl f1 * d1)\<rfloor> \<lfloor>fl (fl f2 * d2)\<rfloor>) else FramesInf)
       \<and> (duration_known (snd (initialize_playback ev s))
            \<longleftrightarrow> 0 < \<lfloor>fl (fl f1 * d1)\<rfloor> \<and> 0 < \<lfloor>fl (fl f2 * d2)\<rfloor>)"
  using initialize_playback_timeline [OF assms(1,2), of d1 d2] assms(3-7)
  by (simp only: simp_thms)

text \<open>
  Two runs: the sources A and B (150 frames), and a first source of 30000/1001 frames
  per second and 1.001 seconds, whose float product is just below 30 (29 frames).
\<close>

theorem timeline_length_witness:
  "parse_frame_rate (py_float test_env) (get_avg_frame_rate (video_info1 loaded)) = Inr 30
   \<and> parse_frame_rate (py_float test_env) (get_avg_frame_rate (video_info2 loaded)) = Inr 30
   \<and> get_duration test_env (video_info1 loaded) = Some 10
   \<and> get_duration test_env (video_info2 loaded) = Some 5
   \<and> \<not> overflows (fl 30 * 10) \<and> \<not> overflows (fl 30 * 5)
   \<and> \<not> isl (new_display_size test_env loaded)
   \<and> total_frames (snd (initialize_playback test_env loaded)) = FramesInt 150
   \<and> duration_known (snd (initialize_playback test_env loaded))
   \<and> parse_frame_rate (py_float test_env) ''30000/1001'' = Inr (30000 / 1001)
   \<and> fl (30000 / 1001) = 1054476685978981 / 35184372088832
   \<and> py_float test_env ''1.001000'' = Some (2254051613498933 / 2251799813685248)
   \<and> fl (fl (30000 / 1001) * (2254051613498933 / 2251799813685248))
       = 8444249301319679 / 281474976710656
   \<and> fps1 (snd (initialize_playback test_env
                   (loaded\<lparr>video_info1 := stream_a\<lparr>avg_frame_rate := Some ''30000/1001'',
                                                    duration := Some ''1.001000''\<rparr>\<rparr>)))
       = 1054476685978981 / 35184372088832
   \<and> total_frames
        (snd (initialize_playback test_env
                (loaded\<lparr>video_info1 := stream_a\<lparr>avg_frame_rate := Some ''30000/1001'',
                                                 duration := Some ''1.001000''\<rparr>\<rparr>)))
       = FramesInt 29"
proof -
  let ?u = "loaded\<lparr>video_info1 := stream_a\<lparr>avg_frame_rate := Some ''30000/1001'',
                                               duration := Some ''1.001000''\<rparr>\<rparr>"
  let ?d = "2254051613498933 / 2251799813685248 :: real"
  have p: "parse_frame_rate (py_float test_env) (get_avg_frame_rate (video_info1 loaded)) = Inr 30"
    "parse_frame_rate (py_float test_env) (get_avg_frame_rate (video_info2 loaded)) = Inr 30"
    "parse_frame_rate (py_float test_env) (get_avg_frame_rate (video_info1 ?u)) = Inr (30000 / 1001)"
    "parse_frame_rate (py_float test_env) (get_avg_frame_rate (video_info2 ?u)) = Inr 30"
    "parse_frame_rate (py_float test_env) ''30000/1001'' = Inr (30000 / 1001)"
    by (simp_all add: loaded_eq eval_simps)
  have lit: "py_float test_env ''1.001000'' = Some ?d"
    by (simp add: test_env_def float_literal_def decimal_literal_def unsigned_decimal_def
        digit_val_def float_simps Let_def)
  have d: "get_duration test_env (video_info1 loaded) = Some 10"
    "get_duration test_env (video_info2 loaded) = Some 5"
    "get_duration test_env (video_info2 ?u) = Some 5"
    by (simp_all add: loaded_eq eval_simps)
  have du: "get_duration test_env (video_info1 ?u) = Some ?d"
    using lit by (simp add: get_duration_def stream_a_def)
  have rate: "fl (30000 / 1001) = 1054476685978981 / 35184372088832"
    by (simp add: float_simps Let_def)
  have prod: "fl (fl (30000 / 1001) * ?d) = 8444249301319679 / 281474976710656"
    unfolding rate by (simp add: float_simps Let_def)
  have no: "\<not> overflows (fl 30 * 10)" "\<not> overflows (fl 30 * 5)"
    by (simp_all add: small_float_simps)
  have prod': "fl (1054476685978981 / 35184372088832 * ?d) = 8444249301319679 / 281474976710656"
    using prod by (simp only: rate)
  have nou: "\<not> overflows (fl (30000 / 1001) * ?d)"
    using prod by (simp add: overflows_def)
  have g: "\<not> (truthy (video_path1 loaded) \<and> truthy (video_path2 loaded)
              \<and> isl (new_display_size test_env loaded))"
    "\<not> (truthy (video_path1 ?u) \<and> truthy (video_path2 ?u)
        \<and> isl (new_display_size test_env ?u))"
    "\<not> isl (new_display_size test_env loaded)"
    by (simp_all add: loaded_eq eval_simps Let_def)
  have pr: "fl (fl 30 * 10) = 300" "fl (fl 30 * 5) = 150"
    by (simp_all add: small_float_simps)
  from timeline_length [OF p(1,2) d(1,2) no g(1), unfolded pr]
  have a: "total_frames (snd (initialize_playback test_env loaded)) = FramesInt 150
      \<and> duration_known (snd (initialize_playback test_env loaded))"
    by simp
  from timeline_length [OF p(3,4) du d(3) nou no(2) g(2), unfolded rate prod' pr]
  have b: "fps1 (snd (initialize_playback test_env ?u)) = 1054476685978981 / 35184372088832
      \<and> total_frames (snd (initialize_playback test_env ?u)) = FramesInt 29"
    by simp
  from a b p d no g(3) lit rate prod show ?thesis by simp
qed

subsection \<open>Seek times\<close>

text \<open>
  C1. With both frame rates different from zero (a zero rate raises
  \<^verbatim>\<open>ZeroDivisionError\<close>), for every frame index \<open>t\<close> and every offset, negative ones
  included: the streaming path, when both processes start, runs source A from
  \<open>t / fps1\<close> seconds and source B from \<open>(t + video2_offset) / fps2\<close> seconds; the
  single-shot path, once past its guards (both sources loaded, \<open>t\<close> on the timeline
  when its length is known), requests source A at \<open>t / fps1\<close> and then, if that fetch
  returned, source B at \<open>(t + video2_offset) / fps2\<close>.
\<close>

theorem seek_times:
  assumes "fps1 s \<noteq> 0" and "fps2 s \<noteq> 0"
  shows "((\<forall>c. popen ev c = None) \<longrightarrow>
           (\<exists>c1 c2. start_ffmpeg_processes ev t s
                      = (None, s\<lparr>ffmpeg_process1 := Some c1, ffmpeg_process2 := Some c2\<rparr>)
                    \<and> ss c1 = real_of_int t / fps1 s
                    \<and> ss c2 = real_of_int (t + video2_offset s) / fps2 s))
       \<and> (truthy (video_path1 s) \<and> truthy (video_path2 s)
           \<and> (duration_known s \<longrightarrow> 0 \<le> t \<and> int_lt_frames t (total_frames s)) \<longrightarrow>
           (\<exists>c1 rest. ffmpeg_calls (snd (display_single_frame ev t s)) = ffmpeg_calls s @ c1 # rest
                    \<and> ss c1 = real_of_int t / fps1 s
                    \<and> (rest = [] \<and> isl (check_output ev c1)
                        \<or> (\<exists>c2. rest = [c2] \<and> \<not> isl (check_output ev c1)
                                \<and> ss c2 = real_of_int (t + video2_offset s) / fps2 s))))"
proof (intro conjI impI)
  assume "\<forall>c. popen ev c = None"
  with assms show "\<exists>c1 c2. start_ffmpeg_processes ev t s
                      = (None, s\<lparr>ffmpeg_process1 := Some c1, ffmpeg_process2 := Some c2\<rparr>)
                    \<and> ss c1 = real_of_int t / fps1 s
                    \<and> ss c2 = real_of_int (t + video2_offset s) / fps2 s"
    by (intro exI [of _ "\<lparr>ss = real_of_int t / fps1 s, input = video_path1 s,
               scale_width = display_width s, scale_height = display_height s, vframes1 = False\<rparr>"]
          exI [of _ "\<lparr>ss = real_of_int (t + video2_offset s) / fps2 s, input = video_path2 s,
               scale_width = display_width s, scale_height = display_height s, vframes1 = False\<rparr>"])
       (simp add: start_ffmpeg_processes_def stop_ffmpeg_processes_def Let_def)
next
  let ?c1 = "\<lparr>ss = real_of_int t / fps1 s, input = video_path1 s,
               scale_width = display_width s, scale_height = display_height s, vframes1 = True\<rparr>"
  let ?c2 = "\<lparr>ss = real_of_int (t + video2_offset s) / fps2 s, input = video_path2 s,
               scale_width = display_width s, scale_height = display_height s, vframes1 = True\<rparr>"
  assume guard: "truthy (video_path1 s) \<and> truthy (video_path2 s)
           \<and> (duration_known s \<longrightarrow> 0 \<le> t \<and> int_lt_frames t (total_frames s))"
  have calls_status: "ffmpeg_calls (snd (update_status_bar m u)) = ffmpeg_calls u" for m u
    by (simp add: update_status_bar_def Let_def split: frames.splits)
  have calls_display: "ffmpeg_calls (snd (update_frame_display ev r1 r2 u)) = ffmpeg_calls u" for r1 r2 u
    by (simp add: update_frame_display_def Let_def split: option.splits sum.splits)
  show "\<exists>c1 rest. ffmpeg_calls (snd (display_single_frame ev t s)) = ffmpeg_calls s @ c1 # rest
                    \<and> ss c1 = real_of_int t / fps1 s
                    \<and> (rest = [] \<and> isl (check_output ev c1)
                        \<or> (\<exists>c2. rest = [c2] \<and> \<not> isl (check_output ev c1)
                                \<and> ss c2 = real_of_int (t + video2_offset s) / fps2 s))"
  proof (cases "check_output ev ?c1")
    case (Inl e)
    with assms guard have "ffmpeg_calls (snd (display_single_frame ev t s)) = ffmpeg_calls s @ [?c1]"
      by (simp add: display_single_frame_def Let_def calls_status)
    with Inl show ?thesis
      by (intro exI [of _ ?c1] exI [of _ "[]"]) simp
  next
    case (Inr raw)
    with assms guard have "ffmpeg_calls (snd (display_single_frame ev t s)) = ffmpeg_calls s @ [?c1, ?c2]"
      by (simp add: display_single_frame_def Let_def calls_status calls_display split: sum.splits)
    with Inr show ?thesis
      by (intro exI [of _ ?c1] exI [of _ "[?c2]"]) simp
  qed
qed

theorem seek_times_witness:
  "fps1 (loaded\<lparr>video2_offset := - 30\<rparr>) \<noteq> 0 \<and> fps2 (loaded\<lparr>video2_offset := - 30\<rparr>) \<noteq> 0
   \<and> (\<forall>c. popen test_env c = None)
   \<and> map_option ss (ffmpeg_process1 (snd (start_ffmpeg_processes test_env 45 (loaded\<lparr>video2_offset := - 30\<rparr>))))
       = Some (3 / 2)
   \<and> map_option ss (ffmpeg_process2 (snd (start_ffmpeg_processes test_env 45 (loaded\<lparr>video2_offset := - 30\<rparr>))))
       = Some (1 / 2)
   \<and> truthy (video_path1 loaded) \<and> truthy (video_path2 loaded)
   \<and> (0::int) \<le> 45 \<and> int_lt_frames 45 (total_frames loaded)
   \<and> map ss (drop 4 (ffmpeg_calls (snd (display_single_frame test_env 45 (loaded\<lparr>video2_offset := - 30\<rparr>)))))
       = [3 / 2, 1 / 2]"
proof -
  let ?s = "loaded\<lparr>video2_offset := - 30\<rparr>"
  have h: "fps1 ?s \<noteq> 0" "fps2 ?s \<noteq> 0" by (simp_all add: loaded_eq)
  have p: "\<forall>c. popen test_env c = None" by (simp add: test_env_def)
  have g: "truthy (video_path1 ?s) \<and> truthy (video_path2 ?s)
      \<and> (duration_known ?s \<longrightarrow> 0 \<le> (45::int) \<and> int_lt_frames 45 (total_frames ?s))"
    by (simp add: loaded_eq truthy_def)
  have c: "\<not> isl (check_output test_env c)" for c by (simp add: test_env_def)
  from seek_times [OF h, of test_env 45] p g c
  show ?thesis
    by (auto simp: loaded_eq truthy_def)
qed

subsection \<open>Output geometry\<close>

lemma py_int_round:
  assumes "0 \<le> y"
  shows "py_int y = (if frac y < 1 / 2 then round y else round y - 1)"
proof -
  have "round y = (if frac y < 1 / 2 then \<lfloor>y\<rfloor> else \<lfloor>y\<rfloor> + 1)"
    unfolding round_def frac_def by (auto; linarith)
  with assms show ?thesis by (simp add: py_int_def)
qed

text \<open>
  For positive sizes of at most \<open>2^53\<close> no step of \<^verbatim>\<open>calculate_display_size\<close> raises:
  the aspect ratios lie between \<open>2^(-53)\<close> and \<open>2^53\<close>, and the product and the
  quotient between \<open>2^(-107)\<close> and \<open>2^107\<close>.
\<close>

lemma pow2_minus: "pow2 (- k) = 1 / pow2 k"
  by (simp add: pow2_powi power_int_minus inverse_eq_divide)

lemma not_overflows_range:
  assumes "pow2 (- 1022) \<le> \<bar>x\<bar>" and "\<bar>x\<bar> \<le> pow2 1022"
  shows "\<not> overflows x"
proof -
  from fl_bounds(2) [OF assms(1)] assms(2) have "\<bar>fl x\<bar> \<le> 2 * pow2 1022" by linarith
  also have "\<dots> = pow2 1023" using pow2_Suc [of 1022] by simp
  also have "\<dots> < pow2 1024" using pow2_Suc [of 1023] pow2_pos [of 1023] by simp
  also have "\<dots> = 2 ^ 1024" using pow2_nat [of 1024] by simp
  finally show ?thesis by (simp add: overflows_def)
qed

lemma fl_range:
  assumes "pow2 (- k) \<le> x" and "x \<le> pow2 k" and "k \<le> 1021"
  shows "pow2 (- (k + 1)) \<le> fl x" and "fl x \<le> pow2 (k + 1)" and "\<not> overflows x"
proof -
  from assms(1) pow2_pos [of "- k"] have x0: "0 < x" by linarith
  from assms(3) have "pow2 (- 1022) \<le> pow2 (- k)" by (intro pow2_mono) simp
  with assms(1) x0 have lo: "pow2 (- 1022) \<le> \<bar>x\<bar>" by simp
  from assms(3) have "pow2 k \<le> pow2 1022" by (intro pow2_mono) simp
  with assms(2) x0 have hi: "\<bar>x\<bar> \<le> pow2 1022" by simp
  from x0 have f0: "0 \<le> fl x" by (simp add: fl_nonneg)
  from fl_bounds [OF lo] x0 f0 have b: "x / 2 \<le> fl x" "fl x \<le> 2 * x" by simp_all
  have "pow2 (- k) = 2 * pow2 (- (k + 1))" using pow2_Suc [of "- (k + 1)"] by simp
  with b(1) assms(1) show "pow2 (- (k + 1)) \<le> fl x" by linarith
  from b(2) assms(2) pow2_Suc [of k] show "fl x \<le> pow2 (k + 1)" by linarith
  from lo hi show "\<not> overflows x" by (rule not_overflows_range)
qed

lemma of_int_range:
  assumes "0 < a" and "a \<le> 2 ^ 53"
  shows "1 \<le> real_of_int a" and "real_of_int a \<le> pow2 53"
proof -
  from assms(1) show "1 \<le> real_of_int a" by simp
  from assms(2) have "real_of_int a \<le> real_of_int (2 ^ 53)" by (simp only: of_int_le_iff)
  then show "real_of_int a \<le> pow2 53" by (simp add: pow2_def)
qed

lemma ratio_range:
  assumes "1 \<le> a" and "a \<le> pow2 j" and "1 \<le> b" and "b \<le> pow2 k"
  shows "pow2 (- k) \<le> a / b" and "a / b \<le> pow2 j"
proof -
  have "1 / pow2 k \<le> a / b"
    using assms pow2_pos [of k] by (intro frac_le) simp_all
  then show "pow2 (- k) \<le> a / b" by (simp only: pow2_minus)
  have "a / b \<le> a / 1"
    using assms by (intro divide_left_mono) simp_all
  with assms(2) show "a / b \<le> pow2 j" by simp
qed

lemma calculate_display_size_total:
  assumes "0 < w" and "w \<le> 2 ^ 53" and "0 < h" and "h \<le> 2 ^ 53"
    and "0 < tw" and "tw \<le> 2 ^ 53" and "0 < th" and "th \<le> 2 ^ 53"
  shows "calculate_display_size w h tw th
         = (if fl (real_of_int tw / real_of_int th) > fl (real_of_int w / real_of_int h)
            then Inr (\<lfloor>fl (real_of_int th * fl (real_of_int w / real_of_int h))\<rfloor>, th)
            else Inr (tw, \<lfloor>fl (real_of_int tw / fl (real_of_int w / real_of_int h))\<rfloor>))"
proof -
  let ?ar = "fl (real_of_int w / real_of_int h)" and ?r = "fl (real_of_int tw / real_of_int th)"
  note w = of_int_range [OF assms(1,2)] and h = of_int_range [OF assms(3,4)]
    and tw = of_int_range [OF assms(5,6)] and th = of_int_range [OF assms(7,8)]
  have x: "pow2 (- 53) \<le> real_of_int w / real_of_int h" "real_of_int w / real_of_int h \<le> pow2 53"
    using ratio_range [OF w h] by simp_all
  have y: "pow2 (- 53) \<le> real_of_int tw / real_of_int th"
    "real_of_int tw / real_of_int th \<le> pow2 53"
    using ratio_range [OF tw th] by simp_all
  have ar: "pow2 (- 54) \<le> ?ar" "?ar \<le> pow2 54"
    and ar_fin: "\<not> overflows (real_of_int w / real_of_int h)"
    using fl_range [OF x] by simp_all
  have r_fin: "\<not> overflows (real_of_int tw / real_of_int th)"
    using fl_range(3) [OF y] by simp
  from ar(1) pow2_pos [of "- 54"] have ar0: "0 < ?ar" by linarith
  have i1: "int_truediv w h = Inr ?ar" and i2: "int_truediv tw th = Inr ?r"
    using assms(3,7) ar_fin r_fin by (simp_all add: int_truediv_def)
  have fth: "float_of_int th = Inr (real_of_int th)"
    and ftw: "float_of_int tw = Inr (real_of_int tw)"
    using assms(5-8) by (simp_all add: float_of_int_def fl_of_int not_overflows_of_int)
  have P: "pow2 (- 107) \<le> real_of_int th * ?ar" "real_of_int th * ?ar \<le> pow2 107"
  proof -
    have "1 * pow2 (- 54) \<le> real_of_int th * ?ar"
      using th(1) ar(1) pow2_pos [of "- 54"] by (intro mult_mono) simp_all
    moreover have "pow2 (- 107) \<le> pow2 (- 54)" by (intro pow2_mono) simp
    ultimately show "pow2 (- 107) \<le> real_of_int th * ?ar" by linarith
    have "real_of_int th * ?ar \<le> pow2 53 * pow2 54"
      using th ar(2) ar0 by (intro mult_mono) simp_all
    also have "\<dots> = pow2 107" using pow2_add [of 53 54] by simp
    finally show "real_of_int th * ?ar \<le> pow2 107" .
  qed
  have Q: "pow2 (- 107) \<le> real_of_int tw / ?ar" "real_of_int tw / ?ar \<le> pow2 107"
  proof -
    have "1 / pow2 54 \<le> real_of_int tw / ?ar"
      using tw(1) ar(2) ar0 by (intro frac_le) simp_all
    then have "pow2 (- 54) \<le> real_of_int tw / ?ar" by (simp only: pow2_minus)
    moreover have "pow2 (- 107) \<le> pow2 (- 54)" by (intro pow2_mono) simp
    ultimately show "pow2 (- 107) \<le> real_of_int tw / ?ar" by linarith
    have "real_of_int tw / ?ar \<le> pow2 53 / pow2 (- 54)"
      using tw ar(1) pow2_pos [of "- 54"] by (intro frac_le) simp_all
    also have "\<dots> = pow2 53 * pow2 54" by (simp add: pow2_minus)
    also have "\<dots> = pow2 107" using pow2_add [of 53 54] by simp
    finally show "real_of_int tw / ?ar \<le> pow2 107" .
  qed
  have fP: "pow2 (- 108) \<le> fl (real_of_int th * ?ar)" "\<not> overflows (real_of_int th * ?ar)"
    using fl_range(1,3) [OF P] by simp_all
  have fQ: "pow2 (- 108) \<le> fl (real_of_int tw / ?ar)" "\<not> overflows (real_of_int tw / ?ar)"
    using fl_range(1,3) [OF Q] by simp_all
  from fP(1) fQ(1) pow2_pos [of "- 108"]
  have "0 \<le> fl (real_of_int th * ?ar)" "0 \<le> fl (real_of_int tw / ?ar)"
    by linarith+
  then have fl0: "py_int (fl (real_of_int th * ?ar)) = \<lfloor>fl (real_of_int th * ?ar)\<rfloor>"
    "py_int (fl (real_of_int tw / ?ar)) = \<lfloor>fl (real_of_int tw / ?ar)\<rfloor>"
    by (simp_all add: py_int_def)
  show ?thesis
    using ar0 fP(2) fQ(2)
    by (simp add: calculate_display_size_def i1 i2 fth ftw int_of_result_def fl0)
qed

text \<open>
  C4, as the specification states it, fails in two ways. Fitting a 1920 \<times> 1080 source
  into a 1240 \<times> 600 area gives width 1066, the truncation of 1066.66..., where
  rounding gives 1067. Fitting a 7 \<times> 3 source into a 35 \<times> 15 area, of the same aspect
  ratio, the comparison \<^verbatim>\<open>tw / th > ar\<close> is false, the other branch is taken, and the
  height is the truncation of the float quotient \<open>35 / fl (7 / 3)\<close>, just below 15: the
  result is 35 \<times> 14, where the specification's rule gives 35 \<times> 15.
\<close>

theorem calculate_display_size_round_counterexample:
  "calculate_display_size 1920 1080 1240 600 = Inr (1066, 600)
   \<and> fl (1240 / 600) \<ge> fl (1920 / 1080)
   \<and> round (fl (fl 600 * fl (1920 / 1080))) = 1067
   \<and> calculate_display_size 7 3 35 15 = Inr (35, 14)
   \<and> fl (35 / 15) \<ge> fl (7 / 3)
   \<and> round (fl (fl 15 * fl (7 / 3))) = 35"
  by (simp add: calculate_display_size_def float_simps py_int_def round_def Let_def)

text \<open>
  C4, amended. With \<open>ar\<close> the float quotient \<open>w / h\<close>: if the float quotient
  \<open>tw / th\<close> is greater than \<open>ar\<close> the output is \<open>(int(th * ar), th)\<close>, otherwise it
  is \<open>(tw, int(tw / ar))\<close>, where the product and the quotient are float operations
  and \<open>int\<close> truncates toward zero. This holds for sizes of either sign as long as no
  divisor is 0 and no float result is infinite, where the program raises. For positive
  sizes of at most \<open>2^53\<close> the function always returns, and the computed side is the
  floor of that float: the rounded value when its fractional part is below one half,
  and one less otherwise.
\<close>

theorem calculate_display_size_truncates:
  "(h \<noteq> 0 \<and> th \<noteq> 0
    \<and> \<not> overflows (real_of_int w / real_of_int h)
    \<and> \<not> overflows (real_of_int tw / real_of_int th)
    \<and> fl (real_of_int tw / real_of_int th) > fl (real_of_int w / real_of_int h)
    \<and> \<not> overflows (real_of_int th)
    \<and> \<not> overflows (fl (real_of_int th) * fl (real_of_int w / real_of_int h)) \<longrightarrow>
      calculate_display_size w h tw th
      = Inr (py_int (fl (fl (real_of_int th) * fl (real_of_int w / real_of_int h))), th))
   \<and> (h \<noteq> 0 \<and> th \<noteq> 0
    \<and> \<not> overflows (real_of_int w / real_of_int h)
    \<and> \<not> overflows (real_of_int tw / real_of_int th)
    \<and> \<not> fl (real_of_int tw / real_of_int th) > fl (real_of_int w / real_of_int h)
    \<and> fl (real_of_int w / real_of_int h) \<noteq> 0
    \<and> \<not> overflows (real_of_int tw)
    \<and> \<not> overflows (fl (real_of_int tw) / fl (real_of_int w / real_of_int h)) \<longrightarrow>
      calculate_display_size w h tw th
      = Inr (tw, py_int (fl (fl (real_of_int tw) / fl (real_of_int w / real_of_int h)))))
   \<and> (0 < w \<and> w \<le> 2 ^ 53 \<and> 0 < h \<and> h \<le> 2 ^ 53
    \<and> 0 < tw \<and> tw \<le> 2 ^ 53 \<and> 0 < th \<and> th \<le> 2 ^ 53 \<longrightarrow>
      calculate_display_size w h tw th
      = (if fl (real_of_int tw / real_of_int th) > fl (real_of_int w / real_of_int h)
         then Inr (\<lfloor>fl (real_of_int th * fl (real_of_int w / real_of_int h))\<rfloor>, th)
         else Inr (tw, \<lfloor>fl (real_of_int tw / fl (real_of_int w / real_of_int h))\<rfloor>)))
   \<and> (0 \<le> y \<longrightarrow>
      py_int y = \<lfloor>y\<rfloor> \<and> \<lfloor>y\<rfloor> = (if frac y < 1 / 2 then round y else round y - 1))"
proof (intro conjI impI)
  assume "h \<noteq> 0 \<and> th \<noteq> 0
    \<and> \<not> overflows (real_of_int w / real_of_int h)
    \<and> \<not> overflows (real_of_int tw / real_of_int th)
    \<and> fl (real_of_int tw / real_of_int th) > fl (real_of_int w / real_of_int h)
    \<and> \<not> overflows (real_of_int th)
    \<and> \<not> overflows (fl (real_of_int th) * fl (real_of_int w / real_of_int h))"
  then show "calculate_display_size w h tw th
      = Inr (py_int (fl (fl (real_of_int th) * fl (real_of_int w / real_of_int h))), th)"
    by (simp add: calculate_display_size_def int_truediv_def float_of_int_def int_of_result_def)
next
  assume "h \<noteq> 0 \<and> th \<noteq> 0
    \<and> \<not> overflows (real_of_int w / real_of_int h)
    \<and> \<not> overflows (real_of_int tw / real_of_int th)
    \<and> \<not> fl (real_of_int tw / real_of_int th) > fl (real_of_int w / real_of_int h)
    \<and> fl (real_of_int w / real_of_int h) \<noteq> 0
    \<and> \<not> overflows (real_of_int tw)
    \<and> \<not> overflows (fl (real_of_int tw) / fl (real_of_int w / real_of_int h))"
  then show "calculate_display_size w h tw th
      = Inr (tw, py_int (fl (fl (real_of_int tw) / fl (real_of_int w / real_of_int h))))"
    by (simp add: calculate_display_size_def int_truediv_def float_of_int_def int_of_result_def)
next
  assume "0 < w \<and> w \<le> 2 ^ 53 \<and> 0 < h \<and> h \<le> 2 ^ 53
    \<and> 0 < tw \<and> tw \<le> 2 ^ 53 \<and> 0 < th \<and> th \<le> 2 ^ 53"
  then show "calculate_display_size w h tw th
      = (if fl (real_of_int tw / real_of_int th) > fl (real_of_int w / real_of_int h)
         then Inr (\<lfloor>fl (real_of_int th * fl (real_of_int w / real_of_int h))\<rfloor>, th)
         else Inr (tw, \<lfloor>fl (real_of_int tw / fl (real_of_int w / real_of_int h))\<rfloor>))"
    by (intro calculate_display_size_total) simp_all
next
  assume "0 \<le> y"
  then show "py_int y = \<lfloor>y\<rfloor>" by (simp add: py_int_def)
  from \<open>0 \<le> y\<close> py_int_round [of y]
  show "\<lfloor>y\<rfloor> = (if frac y < 1 / 2 then round y else round y - 1)"
    by (simp add: py_int_def)
qed

text \<open>
  The two inputs above, a third that takes the other branch, and a source given with a
  negative width, where truncation toward zero gives \<open>- 1066\<close>, not the floor.
\<close>

theorem calculate_display_size_truncates_witness:
  "(0::int) < 1920 \<and> (1920::int) \<le> 2 ^ 53 \<and> (0::int) < 1080 \<and> (0::int) < 1240
   \<and> (0::int) < 600 \<and> (0::int) < 960 \<and> (0::int) < 7 \<and> (0::int) < 3 \<and> (0::int) < 35
   \<and> (0::int) < 15
   \<and> fl (1240 / 600) > fl (1920 / 1080)
   \<and> calculate_display_size 1920 1080 1240 600 = Inr (1066, 600)
   \<and> \<not> fl (960 / 600) > fl (1920 / 1080)
   \<and> calculate_display_size 1920 1080 960 600 = Inr (960, 540)
   \<and> \<not> fl (35 / 15) > fl (7 / 3)
   \<and> calculate_display_size 7 3 35 15 = Inr (35, 14)
   \<and> (9::int) \<noteq> 0 \<and> (600::int) \<noteq> 0
   \<and> \<not> overflows (- 16 / 9) \<and> \<not> overflows (1240 / 600)
   \<and> fl (1240 / 600) > fl (- 16 / 9)
   \<and> \<not> overflows 600 \<and> \<not> overflows (fl 600 * fl (- 16 / 9))
   \<and> calculate_display_size (- 16) 9 1240 600 = Inr (- 1066, 600)
   \<and> (0::real) \<le> 2133 / 2 \<and> py_int (2133 / 2) = 1066 \<and> round (2133 / 2 :: real) = 1067"
proof -
  note T = calculate_display_size_truncates
  have a: "calculate_display_size 1920 1080 1240 600 = Inr (1066, 600)"
    using T [where w = 1920 and h = 1080 and tw = 1240 and th = 600,
        THEN conjunct2, THEN conjunct2, THEN conjunct1]
    by (simp add: float_simps Let_def)
  have b: "calculate_display_size 1920 1080 960 600 = Inr (960, 540)"
    using T [where w = 1920 and h = 1080 and tw = 960 and th = 600,
        THEN conjunct2, THEN conjunct2, THEN conjunct1]
    by (simp add: float_simps Let_def)
  have c: "calculate_display_size 7 3 35 15 = Inr (35, 14)"
    using T [where w = 7 and h = 3 and tw = 35 and th = 15,
        THEN conjunct2, THEN conjunct2, THEN conjunct1]
    by (simp add: float_simps Let_def)
  have d: "calculate_display_size (- 16) 9 1240 600 = Inr (- 1066, 600)"
    using T [where w = "- 16" and h = 9 and tw = 1240 and th = 600, THEN conjunct1]
    by (simp add: float_simps py_int_def Let_def)
  have e: "py_int (2133 / 2) = 1066 \<and> round (2133 / 2 :: real) = 1067"
    using T [where y = "2133 / 2", THEN conjunct2, THEN conjunct2, THEN conjunct2]
    by (simp add: frac_def)
  have f: "fl (1240 / 600) > fl (1920 / 1080)" "\<not> fl (960 / 600) > fl (1920 / 1080)"
    "\<not> fl (35 / 15) > fl (7 / 3)"
    "\<not> overflows (- 16 / 9)" "\<not> overflows (1240 / 600)" "fl (1240 / 600) > fl (- 16 / 9)"
    "\<not> overflows 600" "\<not> overflows (fl 600 * fl (- 16 / 9))"
    by (simp_all add: float_simps Let_def)
  from a b c d e f show ?thesis by simp
qed

subsection \<open>Split position\<close>

text \<open>
  C9. The split position starts at half the output width. A click or a drag on a
  loaded video sets it to the pointer's x coordinate clamped to
  \<open>[0, display_width]\<close>; a resize that changes the output size sets it to
  \<open>display_width // 2\<close>. Each of the three keeps
  \<open>0 \<le> split_pos \<le> display_width\<close> (for the resize: with sources of positive width
  and height and a window width that is not negative, as ffprobe and Tk report them).
\<close>

theorem split_position_bounds:
  "(split_pos init = display_width init div 2
      \<and> 0 \<le> split_pos init \<and> split_pos init \<le> display_width init)
   \<and> (truthy (video_path1 s) \<longrightarrow>
        split_pos (snd (on_video_click ev x s)) = max 0 (min (display_width s) x)
        \<and> split_pos (snd (on_video_drag ev x s)) = max 0 (min (display_width s) x))
   \<and> (0 \<le> split_pos s \<and> split_pos s \<le> display_width s \<longrightarrow>
        0 \<le> split_pos (snd (on_video_click ev x s))
        \<and> split_pos (snd (on_video_click ev x s)) \<le> display_width (snd (on_video_click ev x s))
        \<and> 0 \<le> split_pos (snd (on_video_drag ev x s))
        \<and> split_pos (snd (on_video_drag ev x s)) \<le> display_width (snd (on_video_drag ev x s)))
   \<and> (display_width (snd (handle_resize ev s)) \<noteq> display_width s
        \<or> display_height (snd (handle_resize ev s)) \<noteq> display_height s \<longrightarrow>
        split_pos (snd (handle_resize ev s)) = display_width (snd (handle_resize ev s)) div 2)
   \<and> (0 \<le> split_pos s \<and> split_pos s \<le> display_width s
        \<and> width (video_info1 s) = Some w1 \<and> height (video_info1 s) = Some h1
        \<and> width (video_info2 s) = Some w2 \<and> height (video_info2 s) = Some h2
        \<and> 0 < w1 \<and> 0 < h1 \<and> 0 < w2 \<and> 0 < h2 \<and> 0 \<le> main_frame_width ev \<longrightarrow>
        0 \<le> split_pos (snd (handle_resize ev s))
        \<and> split_pos (snd (handle_resize ev s)) \<le> display_width (snd (handle_resize ev s)))"
proof -
  have click: "split_pos (snd (on_video_click ev x s))
      = (if truthy (video_path1 s) then max 0 (min (display_width s) x) else split_pos s)"
    and click_w: "display_width (snd (on_video_click ev x s)) = display_width s"
    using display_only_fields(5,6) [OF display_single_frame_display_only]
    by (simp_all add: on_video_click_def Let_def)
  have drag: "split_pos (snd (on_video_drag ev x s))
      = (if truthy (video_path1 s) then max 0 (min (display_width s) x) else split_pos s)"
    and drag_w: "display_width (snd (on_video_drag ev x s)) = display_width s"
    using display_only_fields(5,6) [OF display_single_frame_display_only]
    by (simp_all add: on_video_drag_def Let_def)
  obtain r s' where hr: "handle_resize ev s = (r, s')"
    by (cases "handle_resize ev s")
  note cases = handle_resize_cases [OF hr]
  have resize_centre: "split_pos s' = display_width s' div 2"
    if "display_width s' \<noteq> display_width s \<or> display_height s' \<noteq> display_height s"
    using cases that by auto
  have resize_inv: "0 \<le> split_pos s' \<and> split_pos s' \<le> display_width s'"
    if "0 \<le> split_pos s \<and> split_pos s \<le> display_width s
        \<and> width (video_info1 s) = Some w1 \<and> height (video_info1 s) = Some h1
        \<and> width (video_info2 s) = Some w2 \<and> height (video_info2 s) = Some h2
        \<and> 0 < w1 \<and> 0 < h1 \<and> 0 < w2 \<and> 0 < h2 \<and> 0 \<le> main_frame_width ev"
  proof -
    from cases show ?thesis
    proof
      assume "s' = s"
      with that show ?thesis by simp
    next
      assume "\<exists>nw nh. new_display_size ev s = Inr (nw, nh) \<and> display_width s' = nw
          \<and> display_height s' = nh \<and> split_pos s' = nw div 2
          \<and> (abs (nw - display_width s) > 1 \<or> abs (nh - display_height s) > 1)"
      then obtain nw nh where n: "new_display_size ev s = Inr (nw, nh)"
        and w: "display_width s' = nw" and p: "split_pos s' = nw div 2"
        by blast
      from that n have "0 \<le> nw"
        by (intro new_display_size_width_nonneg [of s w1 h1 w2 h2 ev nw nh]) simp_all
      with w p show ?thesis by simp
    qed
  qed
  have init: "split_pos init = display_width init div 2
      \<and> 0 \<le> split_pos init \<and> split_pos init \<le> display_width init"
    by (simp add: init_def)
  show ?thesis
    using init click click_w drag drag_w resize_centre resize_inv hr
    by (simp only: snd_conv) auto
qed

theorem split_position_bounds_witness:
  "truthy (video_path1 loaded)
   \<and> 0 \<le> split_pos loaded \<and> split_pos loaded \<le> display_width loaded
   \<and> split_pos (snd (on_video_click test_env 5 loaded)) = 2
   \<and> split_pos (snd (on_video_drag test_env (- 3) loaded)) = 0
   \<and> width (video_info1 loaded) = Some 2 \<and> height (video_info1 loaded) = Some 1
   \<and> width (video_info2 loaded) = Some 2 \<and> height (video_info2 loaded) = Some 1
   \<and> display_width
        (snd (handle_resize (test_env\<lparr>main_frame_width := 6, main_frame_height := 103\<rparr>) loaded))
       = 6
   \<and> split_pos
        (snd (handle_resize (test_env\<lparr>main_frame_width := 6, main_frame_height := 103\<rparr>) loaded))
       = 3"
proof -
  let ?ev = "test_env\<lparr>main_frame_width := 6, main_frame_height := 103\<rparr>"
  have w: "display_width (snd (handle_resize ?ev loaded)) = 6"
    by (simp add: loaded_eq eval_simps Let_def)
  have hyp: "truthy (video_path1 loaded)" "0 \<le> split_pos loaded"
    "split_pos loaded \<le> display_width loaded" "display_width loaded = 2"
    "width (video_info1 loaded) = Some 2" "height (video_info1 loaded) = Some 1"
    "width (video_info2 loaded) = Some 2" "height (video_info2 loaded) = Some 1"
    by (simp_all add: loaded_eq truthy_def stream_a_def stream_b_def)
  from split_position_bounds [of loaded test_env 5 2 1 2 1]
    split_position_bounds [of loaded test_env "- 3" 2 1 2 1]
    split_position_bounds [of loaded ?ev 0 2 1 2 1] w hyp
  show ?thesis by simp
qed

subsection \<open>Toggle mode\<close>

text \<open>Half of an integer of at most 53 bits is a double.\<close>

lemma fl_half:
  assumes "\<bar>n\<bar> \<le> 2 ^ 53"
  shows "fl (real_of_int n / 2) = real_of_int n / 2"
proof (cases "even n")
  case True
  then obtain k where k: "n = 2 * k" by (elim evenE)
  with assms have "\<bar>k\<bar> \<le> 2 ^ 53" by simp
  from fl_of_int [OF this] k show ?thesis by simp
next
  case False
  then obtain k where k: "n = 2 * k + 1" by (elim oddE)
  let ?x = "real_of_int n / 2"
  show ?thesis
  proof (cases "n = 1 \<or> n = - 1")
    case True
    then show ?thesis
      by (elim disjE) (simp_all add: float_simps Let_def)
  next
    case False
    with k have "3 \<le> \<bar>n\<bar>" by presburger
    then have "real_of_int 3 \<le> real_of_int \<bar>n\<bar>" by (simp only: of_int_le_iff)
    then have one: "1 \<le> \<bar>?x\<bar>" by simp
    from k have "odd \<bar>n\<bar>" by simp
    moreover have "even ((2::int) ^ 53)" by simp
    ultimately have "\<bar>n\<bar> \<noteq> 2 ^ 53" by metis
    with assms have "\<bar>n\<bar> < 2 ^ 53" by simp
    then have "real_of_int \<bar>n\<bar> < real_of_int (2 ^ 53)" by (simp only: of_int_less_iff)
    then have hi: "\<bar>?x\<bar> < 2 ^ 52" by simp
    define e where "e = lg_up \<bar>?x\<bar>"
    from lg_up_bounds [OF one] have e0: "0 \<le> e" and lo: "2 ^ nat e \<le> \<bar>?x\<bar>"
      by (simp_all add: e_def)
    from lo hi have "(2::real) ^ nat e < 2 ^ 52" by linarith
    then have "nat e < 52" by (rule power_less_imp_less_exp [rotated]) simp
    with e0 have e51: "e \<le> 51" by simp
    have ex: "exponent ?x = e"
      using one by (simp add: exponent_def e_def)
    define j where "j = nat (51 - e)"
    from e51 e0 have q: "pow2 (max e (- 1022) - 52) = 1 / 2 ^ Suc j"
      by (auto simp: pow2_def j_def max_def Suc_nat_eq_nat_zadd1)
    have "?x / (1 / 2 ^ Suc j) = real_of_int (n * 2 ^ j)" by simp
    then have "round_half_even (?x / (1 / 2 ^ Suc j)) = n * 2 ^ j"
      by (simp only: round_half_even_of_int)
    then show ?thesis
      by (simp add: fl_def ex q Let_def)
  qed
qed

lemma int_truediv_half:
  assumes "\<bar>n\<bar> \<le> 2 ^ 53"
  shows "int_truediv n 2 = Inr (real_of_int n / 2)"
proof -
  from assms have "real_of_int \<bar>n\<bar> \<le> real_of_int (2 ^ 53)" by (simp only: of_int_le_iff)
  then have "\<bar>real_of_int n / 2\<bar> \<le> 2 ^ 53" by simp
  moreover have "(2::real) ^ 53 < 2 ^ 1024" by simp
  ultimately have "\<not> overflows (real_of_int n / 2)"
    by (simp add: overflows_def fl_half [OF assms])
  then show ?thesis
    using fl_half [OF assms] by (simp add: int_truediv_def)
qed

text \<open>
  C5. The specification is right about what toggle mode selects: frame A when the split
  position is left of the midpoint of the output width, frame B otherwise, with no
  blending. The program does not get as far as an output buffer. The frame it selects
  is one of the two views of the raw byte strings themselves, where every other mode
  works on a new array (side-by-side mode on \<^verbatim>\<open>frame1_bgr.copy()\<close>), and
  \<^verbatim>\<open>_add_video_labels\<close> then draws into it: the first \<^verbatim>\<open>cv2.putText\<close> raises, and
  \<^verbatim>\<open>update_frame_display\<close> ends without giving the label widget an image, against
  its docstring (``displays it with various comparison modes'') and that of
  \<^verbatim>\<open>_add_video_labels\<close> (``Draws video filenames onto the frame'').

  For every state in toggle mode, every pair of raw frames of the output size and every
  split position (with an output width of at most \<open>2^53\<close>): the frame selected has the
  bytes of raw frame A if \<open>2 * split_pos < display_width\<close> and of raw frame B otherwise,
  it is not writeable, and \<^verbatim>\<open>update_frame_display\<close> raises \<^verbatim>\<open>cv2.error\<close> and leaves
  the image of the label widget as it was.
\<close>

theorem toggle_mode_displays_nothing:
  assumes "comparison_mode_var s = Toggle"
    and "reshape3 raw_frame1 (display_height s) (display_width s) = Some frame1_bgr"
    and "reshape3 raw_frame2 (display_height s) (display_width s) = Some frame2_bgr"
    and "display_width s \<le> 2 ^ 53"
  shows "\<exists>c. combined_frame ev s frame1_bgr frame2_bgr = Inr c
           \<and> c = (if 2 * split_pos s < display_width s then frame1_bgr else frame2_bgr)
           \<and> data c = (if 2 * split_pos s < display_width s then raw_frame1 else raw_frame2)
           \<and> \<not> writeable c
           \<and> add_video_labels ev s c = Inl Cv2Error
           \<and> update_frame_display ev raw_frame1 raw_frame2 s
               = (Some Cv2Error, s\<lparr>video_label_text := []\<rparr>)
           \<and> video_label_image (snd (update_frame_display ev raw_frame1 raw_frame2 s))
               = video_label_image s"
proof -
  let ?c = "if 2 * split_pos s < display_width s then frame1_bgr else frame2_bgr"
  from assms(2) have w0: "0 \<le> display_width s"
    by (simp add: reshape3_def split: if_splits)
  with assms(4) have "\<bar>display_width s\<bar> \<le> 2 ^ 53" by simp
  note half = int_truediv_half [OF this]
  have mid: "real_of_int (split_pos s) < real_of_int (display_width s) / 2
      \<longleftrightarrow> 2 * split_pos s < display_width s"
  proof -
    have "real_of_int (split_pos s) < real_of_int (display_width s) / 2
        \<longleftrightarrow> real_of_int (2 * split_pos s) < real_of_int (display_width s)"
      by simp linarith
    then show ?thesis by (simp only: of_int_less_iff)
  qed
  have d: "data frame1_bgr = raw_frame1" "data frame2_bgr = raw_frame2"
    and ro: "\<not> writeable frame1_bgr" "\<not> writeable frame2_bgr"
    using assms(2,3) by (auto simp: reshape3_def split: if_splits)
  have c: "combined_frame ev s' frame1_bgr frame2_bgr = Inr ?c"
    if "comparison_mode_var s' = Toggle" "display_width s' = display_width s"
      "split_pos s' = split_pos s" for s'
    using that half mid by (simp add: combined_frame_def)
  have lab: "add_video_labels ev s' ?c = Inl Cv2Error" for s'
    using ro by (simp add: add_video_labels_def draw_def Let_def)
  have u: "update_frame_display ev raw_frame1 raw_frame2 s
      = (Some Cv2Error, s\<lparr>video_label_text := []\<rparr>)"
  proof (cases "video_label_text s = []")
    case True
    then have "s\<lparr>video_label_text := []\<rparr> = s" by simp
    with True assms(2,3) c [of s] lab [of s] assms(1) show ?thesis
      by (simp add: update_frame_display_def)
  next
    case False
    with assms(2,3) c [of "s\<lparr>video_label_text := []\<rparr>"] lab [of "s\<lparr>video_label_text := []\<rparr>"]
      assms(1)
    show ?thesis
      by (simp add: update_frame_display_def)
  qed
  show ?thesis
    using c [of s] assms(1) d ro lab [of s] u by (intro exI [of _ ?c]) simp
qed

text \<open>
  The two test frames in toggle mode with the split position at the left edge: frame A
  is selected and nothing is displayed. With the same input side-by-side mode, which
  works on a copy, displays an image.
\<close>

theorem toggle_mode_displays_nothing_witness:
  "comparison_mode_var (loaded\<lparr>comparison_mode_var := Toggle, split_pos := 0\<rparr>) = Toggle
   \<and> reshape3 frame_a 1 2 = Some \<lparr>shape = [1, 2, 3], data = frame_a, writeable = False\<rparr>
   \<and> reshape3 frame_b 1 2 = Some \<lparr>shape = [1, 2, 3], data = frame_b, writeable = False\<rparr>
   \<and> combined_frame test_env (loaded\<lparr>comparison_mode_var := Toggle, split_pos := 0\<rparr>)
        \<lparr>shape = [1, 2, 3], data = frame_a, writeable = False\<rparr>
        \<lparr>shape = [1, 2, 3], data = frame_b, writeable = False\<rparr>
      = Inr \<lparr>shape = [1, 2, 3], data = frame_a, writeable = False\<rparr>
   \<and> update_frame_display test_env frame_a frame_b
        (loaded\<lparr>comparison_mode_var := Toggle, split_pos := 0\<rparr>)
      = (Some Cv2Error, loaded\<lparr>comparison_mode_var := Toggle, split_pos := 0\<rparr>)
   \<and> update_frame_display test_env frame_a frame_b (loaded\<lparr>split_pos := 0\<rparr>)
      = (None, loaded\<lparr>split_pos := 0,
                       video_label_image :=
                         Some \<lparr>shape = [1, 2, 3], data = frame_b, writeable = True\<rparr>\<rparr>)"
proof -
  let ?s = "loaded\<lparr>comparison_mode_var := Toggle, split_pos := 0\<rparr>"
  let ?a = "\<lparr>shape = [1, 2, 3], data = frame_a, writeable = False\<rparr>"
  let ?b = "\<lparr>shape = [1, 2, 3], data = frame_b, writeable = False\<rparr>"
  have m: "comparison_mode_var ?s = Toggle"
    by simp
  have dims: "display_height ?s = 1" "display_width ?s = 2" "split_pos ?s = 0"
    "video_label_text ?s = []"
    by (simp_all add: loaded_eq)
  have r: "reshape3 frame_a 1 2 = Some ?a" "reshape3 frame_b 1 2 = Some ?b"
    by (simp_all add: reshape3_def frame_a_def frame_b_def)
  have ra: "reshape3 frame_a (display_height ?s) (display_width ?s) = Some ?a"
    and rb: "reshape3 frame_b (display_height ?s) (display_width ?s) = Some ?b"
    by (simp_all only: dims r)
  have w: "display_width ?s \<le> 2 ^ 53"
    by (simp add: loaded_eq)
  have same: "?s\<lparr>video_label_text := []\<rparr> = ?s"
    by (simp add: loaded_eq)
  have side: "update_frame_display test_env frame_a frame_b (loaded\<lparr>split_pos := 0\<rparr>)
      = (None, loaded\<lparr>split_pos := 0,
                       video_label_image :=
                         Some \<lparr>shape = [1, 2, 3], data = frame_b, writeable = True\<rparr>\<rparr>)"
    by (simp add: loaded_eq eval_simps Let_def)
  from toggle_mode_displays_nothing [OF m ra rb w, of test_env]
  have "combined_frame test_env ?s ?a ?b = Inr ?a
      \<and> update_frame_display test_env frame_a frame_b ?s = (Some Cv2Error, ?s)"
    by (simp add: dims same)
  with m r side show ?thesis by simp
qed

subsection \<open>Offset entry\<close>

text \<open>
  C10. When the text of the offset field does not convert with \<^verbatim>\<open>int()\<close>,
  \<^verbatim>\<open>_validate_offset_input\<close> returns the state it was given: the stored offset is
  unchanged and no frame is fetched or displayed; writing such a text changes the
  text variable only. Whenever the stored offset changes, the text did convert, and the
  new offset is the converted integer.
\<close>

theorem offset_entry_rejects_non_integers:
  "(py_int_str ev (offset_var s) = None \<longrightarrow> validate_offset_input ev s = (None, s))
   \<and> (py_int_str ev txt = None \<longrightarrow> offset_var_set ev txt s = s\<lparr>offset_var := txt\<rparr>)
   \<and> (video2_offset (snd (validate_offset_input ev s)) \<noteq> video2_offset s
        \<longrightarrow> py_int_str ev (offset_var s)
            = Some (video2_offset (snd (validate_offset_input ev s))))"
proof (intro conjI impI)
  assume "py_int_str ev (offset_var s) = None"
  then show "validate_offset_input ev s = (None, s)"
    by (simp add: validate_offset_input_def)
next
  assume "py_int_str ev txt = None"
  then show "offset_var_set ev txt s = s\<lparr>offset_var := txt\<rparr>"
    by (simp add: offset_var_set_def validate_offset_input_def)
next
  assume changed: "video2_offset (snd (validate_offset_input ev s)) \<noteq> video2_offset s"
  show "py_int_str ev (offset_var s) = Some (video2_offset (snd (validate_offset_input ev s)))"
  proof (cases "py_int_str ev (offset_var s)")
    case None
    with changed show ?thesis
      by (simp add: validate_offset_input_def split: if_splits)
  next
    case (Some v)
    have "video2_offset (snd (display_single_frame ev n (s\<lparr>video2_offset := v\<rparr>))) = v" for n
      using display_only_fields(1) [OF display_single_frame_display_only] by simp
    then have "video2_offset (snd (validate_offset_input ev s)) = v
        \<or> video2_offset (snd (validate_offset_input ev s)) = video2_offset s"
      using Some
      by (auto simp: validate_offset_input_def Let_def
          split: prod.splits option.splits if_splits)
        (metis snd_conv)+
    with changed Some show ?thesis by simp
  qed
qed

theorem offset_entry_rejects_non_integers_witness:
  "integer_literal ''1.5'' = None
   \<and> offset_var_set test_env ''1.5'' loaded = loaded\<lparr>offset_var := ''1.5''\<rparr>
   \<and> video2_offset (offset_var_set test_env ''1.5'' loaded) = 0
   \<and> integer_literal ''-30'' = Some (- 30)
   \<and> video2_offset (snd (validate_offset_input test_env (loaded\<lparr>offset_var := ''-30''\<rparr>)))
       = - 30"
proof -
  have none: "py_int_str test_env ''1.5'' = None"
    by (simp add: test_env_def integer_literal_def digit_val_def)
  have some: "integer_literal ''-30'' = Some (- 30)"
    by (simp add: integer_literal_def digit_val_def)
  have "video2_offset (snd (validate_offset_input test_env (loaded\<lparr>offset_var := ''-30''\<rparr>)))
      = - 30"
    by (simp add: loaded_eq eval_simps Let_def)
  then show ?thesis
    using offset_entry_rejects_non_integers
        [of test_env "loaded\<lparr>offset_var := ''-30''\<rparr>" "''1.5''"]
      offset_entry_rejects_non_integers [of test_env loaded "''1.5''"]
      none some
    by (simp add: test_env_def loaded_eq)
qed

subsection \<open>Current frame\<close>

text \<open>
  What the playback loop, a seek and a step do to the frame counter and the timeline.
\<close>

lemma handle_playback_end_fields:
  "current_frame_num (handle_playback_end m s) = current_frame_num s"
  "is_playing (handle_playback_end m s) = False"
  "duration_known (handle_playback_end m s) = True"
  "duration_known s \<Longrightarrow> total_frames (handle_playback_end m s) = total_frames s"
  "duration_known s \<Longrightarrow>
     after_queue (handle_playback_end m s)
     = after_queue s @ [Cb_play_btn_play, Cb_update_status_bar m]"
  "video_fps (handle_playback_end m s) = video_fps s"
  by (simp_all add: handle_playback_end_def Let_def)

lemma advance_frame_fields:
  "current_frame_num (advance_frame t s) = current_frame_num s + 1"
  "total_frames (advance_frame t s) = total_frames s"
  "duration_known (advance_frame t s) = duration_known s"
  "is_playing (advance_frame t s) = is_playing s"
  "ffmpeg_process1 (advance_frame t s) = ffmpeg_process1 s"
  "ffmpeg_process2 (advance_frame t s) = ffmpeg_process2 s"
  "video_fps (advance_frame t s) = video_fps s"
  "display_width (advance_frame t s) = display_width s"
  "display_height (advance_frame t s) = display_height s"
  by (simp_all add: advance_frame_def Let_def)

lemma bad_read_advance_frame: "bad_read (advance_frame t s) u = bad_read s u"
  by (simp add: bad_read_def advance_frame_fields)

lemma video_playback_loop_bounds:
  assumes "duration_known s" and "total_frames s = FramesInt n"
    and "0 \<le> current_frame_num s" and "current_frame_num s < n"
  shows "duration_known (final_state (video_playback_loop ts c s))
       \<and> total_frames (final_state (video_playback_loop ts c s)) = FramesInt n
       \<and> 0 \<le> current_frame_num (final_state (video_playback_loop ts c s))
       \<and> current_frame_num (final_state (video_playback_loop ts c s)) < n"
  using assms
proof (induction ts arbitrary: c s)
  case Nil
  then show ?case by simp
next
  case (Cons t ts)
  have adv: "duration_known (advance_frame t s)" "total_frames (advance_frame t s) = FramesInt n"
    "0 \<le> current_frame_num (advance_frame t s)"
    using Cons.prems by (simp_all add: advance_frame_fields)
  have adv_lt: "current_frame_num (advance_frame t s) < n"
    if "\<not> int_ge_frames (current_frame_num s) (frames_minus1 (total_frames s))"
    using that Cons.prems by (simp add: advance_frame_fields)
  show ?case
    using Cons.prems Cons.IH [of s "c + 1"] Cons.IH [OF adv(1,2,3) adv_lt, of 0] adv adv_lt
    by (simp add: handle_playback_end_fields Let_def)
qed

lemma start_ffmpeg_processes_keeps:
  "current_frame_num (snd (start_ffmpeg_processes ev n s)) = current_frame_num s"
  "total_frames (snd (start_ffmpeg_processes ev n s)) = total_frames s"
  "duration_known (snd (start_ffmpeg_processes ev n s)) = duration_known s"
  by (simp_all add: start_ffmpeg_processes_def stop_ffmpeg_processes_def Let_def
      split: option.splits)

lemma seek_video_keeps:
  "current_frame_num (snd (seek_video ev v s))
     = (if seek_bar_state s = DISABLED then current_frame_num s else py_int v)"
  "total_frames (snd (seek_video ev v s)) = total_frames s"
  "duration_known (snd (seek_video ev v s)) = duration_known s"
proof -
  let ?s1 = "s\<lparr>current_frame_num := py_int v\<rparr>"
  let ?r = "if is_playing ?s1 then start_ffmpeg_processes ev (current_frame_num ?s1) ?s1
            else display_single_frame ev (current_frame_num ?s1) ?s1"
  have r: "current_frame_num (snd ?r) = py_int v \<and> total_frames (snd ?r) = total_frames s
      \<and> duration_known (snd ?r) = duration_known s"
    using display_only_timeline [OF display_single_frame_display_only, of ev "py_int v" ?s1]
    by (simp add: start_ffmpeg_processes_keeps)
  have u: "current_frame_num (snd (update_status_bar m (snd ?r))) = py_int v
      \<and> total_frames (snd (update_status_bar m (snd ?r))) = total_frames s
      \<and> duration_known (snd (update_status_bar m (snd ?r))) = duration_known s" for m
    using display_only_timeline [OF update_status_bar_display_only [where s = "snd ?r" and m = m]] r by simp
  have st: "seek_bar_state s \<noteq> DISABLED \<Longrightarrow>
      snd (seek_video ev v s) = snd ?r \<or> snd (seek_video ev v s) = snd (update_status_bar ''Seek'' (snd ?r))"
    by (cases ?r, cases "fst ?r") (auto simp: seek_video_def Let_def)
  show "current_frame_num (snd (seek_video ev v s))
     = (if seek_bar_state s = DISABLED then current_frame_num s else py_int v)"
    using st r u [of "''Seek''"] by (cases "seek_bar_state s = DISABLED") (auto simp: seek_video_def)
  show "total_frames (snd (seek_video ev v s)) = total_frames s"
    using st r u [of "''Seek''"] by (cases "seek_bar_state s = DISABLED") (auto simp: seek_video_def)
  show "duration_known (snd (seek_video ev v s)) = duration_known s"
    using st r u [of "''Seek''"] by (cases "seek_bar_state s = DISABLED") (auto simp: seek_video_def)
qed

lemma step_frame_keeps:
  "current_frame_num (snd (step_frame ev d s))
     = (if step_accepted d s then current_frame_num s + d else current_frame_num s)"
  "total_frames (snd (step_frame ev d s)) = total_frames s"
  "duration_known (snd (step_frame ev d s)) = duration_known s"
proof -
  let ?s1 = "s\<lparr>current_frame_num := current_frame_num s + d\<rparr>"
  let ?s2 = "if duration_known ?s1 then ?s1\<lparr>seek_bar_value := current_frame_num ?s1\<rparr> else ?s1"
  let ?r = "display_single_frame ev (current_frame_num ?s2) ?s2"
  have r: "current_frame_num (snd ?r) = current_frame_num s + d
      \<and> total_frames (snd ?r) = total_frames s \<and> duration_known (snd ?r) = duration_known s"
    using display_only_timeline [OF display_single_frame_display_only, of ev "current_frame_num ?s2" ?s2]
    by simp
  have u: "current_frame_num (snd (update_status_bar m (snd ?r))) = current_frame_num s + d
      \<and> total_frames (snd (update_status_bar m (snd ?r))) = total_frames s
      \<and> duration_known (snd (update_status_bar m (snd ?r))) = duration_known s" for m
    using display_only_timeline [OF update_status_bar_display_only [where s = "snd ?r" and m = m]] r by simp
  have acc: "step_accepted d s \<Longrightarrow>
      snd (step_frame ev d s) = snd ?r
      \<or> snd (step_frame ev d s) = snd (update_status_bar ''Stepped'' (snd ?r))"
    by (cases ?r, cases "fst ?r") (auto simp: step_frame_def step_accepted_def Let_def)
  have rej: "\<not> step_accepted d s \<Longrightarrow> snd (step_frame ev d s) = s"
    by (auto simp: step_frame_def step_accepted_def Let_def)
  show "current_frame_num (snd (step_frame ev d s))
     = (if step_accepted d s then current_frame_num s + d else current_frame_num s)"
    using acc rej r u [of "''Stepped''"] by (cases "step_accepted d s") auto
  show "total_frames (snd (step_frame ev d s)) = total_frames s"
    using acc rej r u [of "''Stepped''"] by (cases "step_accepted d s") auto
  show "duration_known (snd (step_frame ev d s)) = duration_known s"
    using acc rej r u [of "''Stepped''"] by (cases "step_accepted d s") auto
qed

text \<open>
  When playback of a pair of unknown length ends, the timeline length becomes the frame
  reached, so the current frame equals the length just fixed.
\<close>

lemma handle_playback_end_open_ended:
  assumes "\<not> duration_known s"
  shows "total_frames (handle_playback_end m s) = FramesInt (current_frame_num s)
       \<and> current_frame_num (handle_playback_end m s) = current_frame_num s
       \<and> duration_known (handle_playback_end m s)"
  using assms by (simp add: handle_playback_end_def Let_def)

text \<open>
  C3, as the specification states it, fails: \<^verbatim>\<open>seek_video\<close> stores the requested
  frame without clamping. With a timeline of 150 frames a request for frame 200 leaves
  \<open>current_frame_num = 200\<close>.
\<close>

theorem seek_not_clamped_counterexample:
  "duration_known loaded \<and> total_frames loaded = FramesInt 150
   \<and> seek_bar_state loaded = NORMAL
   \<and> current_frame_num (snd (seek_video test_env 200 loaded)) = 200
   \<and> total_frames (snd (seek_video test_env 200 loaded)) = FramesInt 150
   \<and> duration_known (snd (seek_video test_env 200 loaded))"
  by (simp add: loaded_eq eval_simps run_simps Let_def)

text \<open>
  C3, amended. With a known timeline of \<open>n\<close> frames: a seek stores the integer part of
  the requested value as it is (and nothing when the seek bar is disabled), so the
  bound holds after it exactly when it holds for the request; a step whose target is
  outside \<open>[0, n)\<close> is refused and leaves the current frame unchanged, which for a step
  of one frame from inside the range is the clamped value; a step that changes the
  current frame leaves it in \<open>[0, n)\<close>; from a current frame in \<open>[0, n)\<close> a step and
  any run of the playback loop end in \<open>[0, n)\<close>. None of the three changes the timeline
  length.
\<close>

theorem current_frame_bounds:
  assumes "duration_known s" and "total_frames s = FramesInt n"
  shows "(seek_bar_state s \<noteq> DISABLED \<longrightarrow>
            current_frame_num (snd (seek_video ev v s)) = py_int v)
       \<and> (seek_bar_state s = DISABLED \<longrightarrow>
            current_frame_num (snd (seek_video ev v s)) = current_frame_num s)
       \<and> total_frames (snd (seek_video ev v s)) = FramesInt n
       \<and> (\<not> (0 \<le> current_frame_num s + d \<and> current_frame_num s + d < n) \<longrightarrow>
            current_frame_num (snd (step_frame ev d s)) = current_frame_num s)
       \<and> (current_frame_num (snd (step_frame ev d s)) \<noteq> current_frame_num s \<longrightarrow>
            current_frame_num (snd (step_frame ev d s)) = current_frame_num s + d
            \<and> 0 \<le> current_frame_num (snd (step_frame ev d s))
            \<and> current_frame_num (snd (step_frame ev d s)) < n)
       \<and> (0 \<le> current_frame_num s \<and> current_frame_num s < n \<longrightarrow>
            0 \<le> current_frame_num (snd (step_frame ev d s))
            \<and> current_frame_num (snd (step_frame ev d s)) < n)
       \<and> (0 \<le> current_frame_num s \<and> current_frame_num s < n \<and> (d = 1 \<or> d = - 1)
           \<and> \<not> (0 \<le> current_frame_num s + d \<and> current_frame_num s + d < n) \<longrightarrow>
            current_frame_num (snd (step_frame ev d s))
            = max 0 (min (n - 1) (current_frame_num s + d)))
       \<and> total_frames (snd (step_frame ev d s)) = FramesInt n
       \<and> (0 \<le> current_frame_num s \<and> current_frame_num s < n \<longrightarrow>
            0 \<le> current_frame_num (final_state (video_playback_loop ts c s))
            \<and> current_frame_num (final_state (video_playback_loop ts c s)) < n
            \<and> total_frames (final_state (video_playback_loop ts c s)) = FramesInt n)"
proof -
  have acc: "step_accepted d s \<Longrightarrow> 0 \<le> current_frame_num s + d \<and> current_frame_num s + d < n"
    using assms(2) by (simp add: step_accepted_def)
  have step: "current_frame_num (snd (step_frame ev d s))
      = (if step_accepted d s then current_frame_num s + d else current_frame_num s)"
    by (rule step_frame_keeps)
  have loop: "0 \<le> current_frame_num (final_state (video_playback_loop ts c s))
            \<and> current_frame_num (final_state (video_playback_loop ts c s)) < n
            \<and> total_frames (final_state (video_playback_loop ts c s)) = FramesInt n"
    if "0 \<le> current_frame_num s \<and> current_frame_num s < n"
    using video_playback_loop_bounds [OF assms, of ts c] that by simp
  show ?thesis
    using acc step loop assms(2)
    by (auto simp: seek_video_keeps step_frame_keeps(2))
qed

theorem current_frame_bounds_witness:
  "duration_known loaded \<and> total_frames loaded = FramesInt 150
   \<and> seek_bar_state loaded \<noteq> DISABLED
   \<and> current_frame_num (snd (seek_video test_env (299 / 2) loaded)) = 149
   \<and> current_frame_num loaded = 0
   \<and> current_frame_num (snd (step_frame test_env (- 1) loaded)) = 0
   \<and> current_frame_num (snd (step_frame test_env 1 loaded)) = 1
   \<and> 0 \<le> current_frame_num
            (final_state (video_playback_loop [good_tick, short_tick] 0 (loaded\<lparr>is_playing := True\<rparr>)))
   \<and> current_frame_num
        (final_state (video_playback_loop [good_tick, short_tick] 0 (loaded\<lparr>is_playing := True\<rparr>)))
       < 150"
proof -
  have h: "duration_known loaded" "total_frames loaded = FramesInt 150"
    "seek_bar_state loaded \<noteq> DISABLED" "current_frame_num loaded = 0"
    by (simp_all add: loaded_eq)
  have h': "duration_known (loaded\<lparr>is_playing := True\<rparr>)"
    "total_frames (loaded\<lparr>is_playing := True\<rparr>) = FramesInt 150"
    "current_frame_num (loaded\<lparr>is_playing := True\<rparr>) = 0"
    by (simp_all add: loaded_eq)
  have one: "current_frame_num (snd (step_frame test_env 1 loaded)) = 1"
    by (simp add: loaded_eq eval_simps run_simps Let_def)
  from current_frame_bounds [OF h(1,2), of test_env "299 / 2" "- 1"]
    current_frame_bounds [OF h'(1,2), of test_env 0 0 "[good_tick, short_tick]" 0]
    h h' one
  show ?thesis by (simp add: py_int_def)
qed

subsection \<open>End of playback\<close>

text \<open>
  Runs of bad reads, a good read, and sequences in which every run of bad reads is
  shorter than the threshold.
\<close>

lemma bad_reads_continue:
  assumes "is_playing s" and "ffmpeg_process1 s \<noteq> None" and "ffmpeg_process2 s \<noteq> None"
    and "\<not> int_ge_frames (current_frame_num s) (frames_minus1 (total_frames s))"
    and "\<forall>t \<in> set bads. \<not> exited1 t \<and> \<not> exited2 t \<and> bad_read s t"
    and "c + length bads < max_errors"
  shows "video_playback_loop (bads @ ts) c s = video_playback_loop ts (c + length bads) s"
  using assms(5,6)
proof (induction bads arbitrary: c)
  case Nil
  then show ?case by simp
next
  case (Cons t bads)
  from Cons.prems have "video_playback_loop (bads @ ts) (c + 1) s
      = video_playback_loop ts (c + 1 + length bads) s"
    by (intro Cons.IH) simp_all
  with Cons.prems assms(1-4) show ?case by (simp del: not_None_eq)
qed

lemma bad_reads_stop:
  assumes "is_playing s" and "ffmpeg_process1 s \<noteq> None" and "ffmpeg_process2 s \<noteq> None"
    and "\<not> int_ge_frames (current_frame_num s) (frames_minus1 (total_frames s))"
    and "\<forall>t \<in> set bads. \<not> exited1 t \<and> \<not> exited2 t \<and> bad_read s t"
    and "c + length bads = max_errors" and "bads \<noteq> []"
  shows "video_playback_loop (bads @ ts) c s
         = Break (handle_playback_end ''Error: Playback stopped'' s)"
proof -
  from assms(7) obtain pre t where bads: "bads = pre @ [t]"
    by (metis rev_exhaust)
  with assms(5,6) have pre: "\<forall>u \<in> set pre. \<not> exited1 u \<and> \<not> exited2 u \<and> bad_read s u"
    and len: "c + length pre < max_errors" and c: "c + length pre + 1 = max_errors"
    and t: "\<not> exited1 t" "\<not> exited2 t" "bad_read s t"
    by auto
  have "video_playback_loop (bads @ ts) c s = video_playback_loop (t # ts) (c + length pre) s"
    using bad_reads_continue [OF assms(1-4) pre len, of "t # ts"] bads by simp
  also have "\<dots> = Break (handle_playback_end ''Error: Playback stopped'' s)"
    using assms(1-4) t c by (simp del: not_None_eq)
  finally show ?thesis .
qed

lemma good_read_resets:
  assumes "is_playing s" and "ffmpeg_process1 s \<noteq> None" and "ffmpeg_process2 s \<noteq> None"
    and "\<not> int_ge_frames (current_frame_num s) (frames_minus1 (total_frames s))"
    and "\<not> exited1 t" and "\<not> exited2 t" and "\<not> bad_read s t" and "0 < video_fps s"
  shows "video_playback_loop (t # ts) c s = video_playback_loop ts 0 (advance_frame t s)"
  using assms by (simp add: Let_def advance_frame_fields del: not_None_eq)

lemma short_streaks_keep_running:
  assumes "is_playing s" and "ffmpeg_process1 s \<noteq> None" and "ffmpeg_process2 s \<noteq> None"
    and "0 < video_fps s"
    and "int_lt_frames (current_frame_num s + int (length blocks)) (frames_minus1 (total_frames s))"
    and "\<forall>(bads, g) \<in> set blocks.
           length bads < max_errors
           \<and> (\<forall>t \<in> set bads. \<not> exited1 t \<and> \<not> exited2 t \<and> bad_read s t)
           \<and> \<not> exited1 g \<and> \<not> exited2 g \<and> \<not> bad_read s g"
    and "length rest < max_errors"
    and "\<forall>t \<in> set rest. \<not> exited1 t \<and> \<not> exited2 t \<and> bad_read s t"
  shows "\<exists>s'. video_playback_loop (concat (map (\<lambda>(bads, g). bads @ [g]) blocks) @ rest) 0 s
              = Running (length rest) s'
            \<and> is_playing s'
            \<and> current_frame_num s' = current_frame_num s + int (length blocks)"
  using assms
proof (induction blocks arbitrary: s)
  case Nil
  then have nf: "\<not> int_ge_frames (current_frame_num s) (frames_minus1 (total_frames s))"
    by (cases "total_frames s") simp_all
  have "video_playback_loop (rest @ []) 0 s = video_playback_loop [] (0 + length rest) s"
    using Nil.prems by (intro bad_reads_continue nf) simp_all
  with Nil.prems(1) show ?case by simp
next
  case (Cons b blocks)
  obtain bads g where b: "b = (bads, g)" by (cases b)
  let ?s1 = "advance_frame g s"
  let ?tail = "concat (map (\<lambda>(bads, g). bads @ [g]) blocks) @ rest"
  from Cons.prems(5) have nf: "\<not> int_ge_frames (current_frame_num s) (frames_minus1 (total_frames s))"
    by (cases "total_frames s") simp_all
  from Cons.prems(6) b have bads: "length bads < max_errors"
    "\<forall>t \<in> set bads. \<not> exited1 t \<and> \<not> exited2 t \<and> bad_read s t"
    and g: "\<not> exited1 g" "\<not> exited2 g" "\<not> bad_read s g"
    by auto
  have "video_playback_loop (bads @ g # ?tail) 0 s = video_playback_loop (g # ?tail) (0 + length bads) s"
    using bads by (intro bad_reads_continue Cons.prems(1-3) nf) simp_all
  also have "\<dots> = video_playback_loop ?tail 0 ?s1"
    by (intro good_read_resets Cons.prems(1-4) nf g)
  finally have step: "video_playback_loop (concat (map (\<lambda>(bads, g). bads @ [g]) (b # blocks)) @ rest) 0 s
      = video_playback_loop ?tail 0 ?s1"
    by (simp add: b)
  have "\<exists>s'. video_playback_loop ?tail 0 ?s1 = Running (length rest) s'
            \<and> is_playing s'
            \<and> current_frame_num s' = current_frame_num ?s1 + int (length blocks)"
  proof (rule Cons.IH)
    show "is_playing ?s1" "ffmpeg_process1 ?s1 \<noteq> None" "ffmpeg_process2 ?s1 \<noteq> None"
      "0 < video_fps ?s1"
      using Cons.prems(1-4) by (simp_all add: advance_frame_fields)
    show "int_lt_frames (current_frame_num ?s1 + int (length blocks))
        (frames_minus1 (total_frames ?s1))"
      using Cons.prems(5) by (simp add: advance_frame_fields add.commute add.left_commute)
    show "\<forall>(bads, g) \<in> set blocks.
           length bads < max_errors
           \<and> (\<forall>t \<in> set bads. \<not> exited1 t \<and> \<not> exited2 t \<and> bad_read ?s1 t)
           \<and> \<not> exited1 g \<and> \<not> exited2 g \<and> \<not> bad_read ?s1 g"
      using Cons.prems(6) by (simp add: bad_read_advance_frame)
    show "length rest < max_errors" by (rule Cons.prems(7))
    show "\<forall>t \<in> set rest. \<not> exited1 t \<and> \<not> exited2 t \<and> bad_read ?s1 t"
      using Cons.prems(8) by (simp add: bad_read_advance_frame)
  qed
  then obtain s' where "video_playback_loop ?tail 0 ?s1 = Running (length rest) s'"
    and "is_playing s'"
    and "current_frame_num s' = current_frame_num ?s1 + int (length blocks)"
    by blast
  with step show ?case
    by (intro exI [of _ s']) (simp add: advance_frame_fields)
qed

text \<open>
  C6. For a playing state whose two processes were started: the threshold is 10; a pass
  that finds either process exited ends playback with the message
  \<^verbatim>\<open>Video stream ended\<close>; before the end of the timeline, 10 bad reads in a row
  (short or empty buffers) from a fresh counter end playback with
  \<^verbatim>\<open>Error: Playback stopped\<close>; a run of bad reads that keeps the counter below 10 leaves
  the loop running with the counter advanced by its length; a good read sets the counter
  back to 0; and any sequence of reads, from live processes and short of the end of the
  timeline, made of runs of fewer than 10 bad reads each followed by a good read, and a
  last run of fewer than 10 bad reads, leaves the loop running and still playing.
\<close>

theorem playback_end_conditions:
  assumes "is_playing s" and "ffmpeg_process1 s \<noteq> None" and "ffmpeg_process2 s \<noteq> None"
  shows "max_errors = 10
       \<and> (exited1 t \<or> exited2 t \<longrightarrow>
            video_playback_loop (t # ts) c s
              = Break (handle_playback_end ''Video stream ended'' s)
            \<and> \<not> is_playing (handle_playback_end ''Video stream ended'' s))
       \<and> (\<not> int_ge_frames (current_frame_num s) (frames_minus1 (total_frames s))
           \<and> (\<forall>u \<in> set bads. \<not> exited1 u \<and> \<not> exited2 u \<and> bad_read s u)
           \<and> length bads = max_errors \<longrightarrow>
            video_playback_loop (bads @ ts) 0 s
              = Break (handle_playback_end ''Error: Playback stopped'' s)
            \<and> \<not> is_playing (handle_playback_end ''Error: Playback stopped'' s))
       \<and> (\<not> int_ge_frames (current_frame_num s) (frames_minus1 (total_frames s))
           \<and> (\<forall>u \<in> set bads. \<not> exited1 u \<and> \<not> exited2 u \<and> bad_read s u)
           \<and> c + length bads < max_errors \<longrightarrow>
            video_playback_loop (bads @ ts) c s = video_playback_loop ts (c + length bads) s
            \<and> video_playback_loop bads c s = Running (c + length bads) s)
       \<and> (\<not> int_ge_frames (current_frame_num s) (frames_minus1 (total_frames s))
           \<and> \<not> exited1 g \<and> \<not> exited2 g \<and> \<not> bad_read s g \<and> 0 < video_fps s \<longrightarrow>
            video_playback_loop (g # ts) c s = video_playback_loop ts 0 (advance_frame g s))
       \<and> (0 < video_fps s
           \<and> int_lt_frames (current_frame_num s + int (length blocks))
                (frames_minus1 (total_frames s))
           \<and> (\<forall>(bs, g) \<in> set blocks.
                 length bs < max_errors
                 \<and> (\<forall>u \<in> set bs. \<not> exited1 u \<and> \<not> exited2 u \<and> bad_read s u)
                 \<and> \<not> exited1 g \<and> \<not> exited2 g \<and> \<not> bad_read s g)
           \<and> length rest < max_errors
           \<and> (\<forall>u \<in> set rest. \<not> exited1 u \<and> \<not> exited2 u \<and> bad_read s u) \<longrightarrow>
            (\<exists>s'. video_playback_loop (concat (map (\<lambda>(bs, g). bs @ [g]) blocks) @ rest) 0 s
                     = Running (length rest) s'
                   \<and> is_playing s'
                   \<and> current_frame_num s' = current_frame_num s + int (length blocks)))"
proof (intro conjI impI)
  show "max_errors = 10" by (simp add: max_errors_def)
next
  assume "exited1 t \<or> exited2 t"
  with assms show "video_playback_loop (t # ts) c s
      = Break (handle_playback_end ''Video stream ended'' s)"
    by (auto simp del: not_None_eq)
  show "\<not> is_playing (handle_playback_end ''Video stream ended'' s)"
    by (simp add: handle_playback_end_fields)
next
  assume h: "\<not> int_ge_frames (current_frame_num s) (frames_minus1 (total_frames s))
           \<and> (\<forall>u \<in> set bads. \<not> exited1 u \<and> \<not> exited2 u \<and> bad_read s u)
           \<and> length bads = max_errors"
  then have "bads \<noteq> []" by (auto simp: max_errors_def)
  with h show "video_playback_loop (bads @ ts) 0 s
      = Break (handle_playback_end ''Error: Playback stopped'' s)"
    by (intro bad_reads_stop assms) simp_all
  show "\<not> is_playing (handle_playback_end ''Error: Playback stopped'' s)"
    by (simp add: handle_playback_end_fields)
next
  assume h: "\<not> int_ge_frames (current_frame_num s) (frames_minus1 (total_frames s))
           \<and> (\<forall>u \<in> set bads. \<not> exited1 u \<and> \<not> exited2 u \<and> bad_read s u)
           \<and> c + length bads < max_errors"
  then show "video_playback_loop (bads @ ts) c s = video_playback_loop ts (c + length bads) s"
    by (intro bad_reads_continue assms) simp_all
  from h have "video_playback_loop (bads @ []) c s = video_playback_loop [] (c + length bads) s"
    by (intro bad_reads_continue assms) simp_all
  with assms(1) show "video_playback_loop bads c s = Running (c + length bads) s"
    by simp
next
  assume "\<not> int_ge_frames (current_frame_num s) (frames_minus1 (total_frames s))
           \<and> \<not> exited1 g \<and> \<not> exited2 g \<and> \<not> bad_read s g \<and> 0 < video_fps s"
  then show "video_playback_loop (g # ts) c s = video_playback_loop ts 0 (advance_frame g s)"
    by (intro good_read_resets assms) simp_all
next
  assume "0 < video_fps s
           \<and> int_lt_frames (current_frame_num s + int (length blocks))
                (frames_minus1 (total_frames s))
           \<and> (\<forall>(bs, g) \<in> set blocks.
                 length bs < max_errors
                 \<and> (\<forall>u \<in> set bs. \<not> exited1 u \<and> \<not> exited2 u \<and> bad_read s u)
                 \<and> \<not> exited1 g \<and> \<not> exited2 g \<and> \<not> bad_read s g)
           \<and> length rest < max_errors
           \<and> (\<forall>u \<in> set rest. \<not> exited1 u \<and> \<not> exited2 u \<and> bad_read s u)"
  then show "\<exists>s'. video_playback_loop (concat (map (\<lambda>(bs, g). bs @ [g]) blocks) @ rest) 0 s
                     = Running (length rest) s'
                   \<and> is_playing s'
                   \<and> current_frame_num s' = current_frame_num s + int (length blocks)"
    by (intro short_streaks_keep_running assms) simp_all
qed

theorem playback_end_conditions_witness:
  "is_playing playing_at_0 \<and> ffmpeg_process1 playing_at_0 \<noteq> None
   \<and> ffmpeg_process2 playing_at_0 \<noteq> None
   \<and> bad_read playing_at_0 short_tick \<and> \<not> bad_read playing_at_0 good_tick
   \<and> video_playback_loop [good_tick\<lparr>exited2 := True\<rparr>] 0 playing_at_0
       = Break (handle_playback_end ''Video stream ended'' playing_at_0)
   \<and> video_playback_loop (replicate 10 short_tick @ []) 0 playing_at_0
       = Break (handle_playback_end ''Error: Playback stopped'' playing_at_0)
   \<and> video_playback_loop (replicate 9 short_tick) 0 playing_at_0
       = Running (0 + length (replicate 9 short_tick)) playing_at_0
   \<and> (\<exists>s'. video_playback_loop
               (concat (map (\<lambda>(bs, g). bs @ [g]) [(replicate 9 short_tick, good_tick)])
                @ replicate 9 short_tick) 0 playing_at_0
             = Running (length (replicate 9 short_tick)) s'
           \<and> is_playing s'
           \<and> current_frame_num s'
               = current_frame_num playing_at_0
                 + int (length [(replicate 9 short_tick, good_tick)]))"
proof -
  note f = playing_at_0_fields
  let ?p = playing_at_0
  have bad: "bad_read ?p short_tick"
    by (simp add: bad_read_def tick_fields)
  have good: "\<not> bad_read ?p good_tick"
    by (simp add: bad_read_def f tick_fields frame_a_def frame_b_def)
  have nf: "\<not> int_ge_frames (current_frame_num ?p) (frames_minus1 (total_frames ?p))"
    by (simp add: f)
  note T = playback_end_conditions [OF f(1-3),
      where t = "good_tick\<lparr>exited2 := True\<rparr>" and ts = "[]" and c = 0
        and bads = "replicate 10 short_tick" and g = good_tick
        and blocks = "[(replicate 9 short_tick, good_tick)]" and rest = "replicate 9 short_tick"]
  note U = playback_end_conditions [OF f(1-3),
      where t = "good_tick\<lparr>exited2 := True\<rparr>" and ts = "[]" and c = 0
        and bads = "replicate 9 short_tick" and g = good_tick
        and blocks = "[]" and rest = "[]"]
  have h2: "exited1 (good_tick\<lparr>exited2 := True\<rparr>) \<or> exited2 (good_tick\<lparr>exited2 := True\<rparr>)"
    by simp
  have h3: "\<not> int_ge_frames (current_frame_num ?p) (frames_minus1 (total_frames ?p))
           \<and> (\<forall>u \<in> set (replicate 10 short_tick). \<not> exited1 u \<and> \<not> exited2 u \<and> bad_read ?p u)
           \<and> length (replicate 10 short_tick) = max_errors"
    using nf bad by (simp add: tick_fields max_errors_def)
  have h4: "\<not> int_ge_frames (current_frame_num ?p) (frames_minus1 (total_frames ?p))
           \<and> (\<forall>u \<in> set (replicate 9 short_tick). \<not> exited1 u \<and> \<not> exited2 u \<and> bad_read ?p u)
           \<and> 0 + length (replicate 9 short_tick) < max_errors"
    using nf bad by (simp add: tick_fields max_errors_def)
  have h6: "0 < video_fps ?p
           \<and> int_lt_frames (current_frame_num ?p + int (length [(replicate 9 short_tick, good_tick)]))
                (frames_minus1 (total_frames ?p))
           \<and> (\<forall>(bs, g) \<in> set [(replicate 9 short_tick, good_tick)].
                 length bs < max_errors
                 \<and> (\<forall>u \<in> set bs. \<not> exited1 u \<and> \<not> exited2 u \<and> bad_read ?p u)
                 \<and> \<not> exited1 g \<and> \<not> exited2 g \<and> \<not> bad_read ?p g)
           \<and> length (replicate 9 short_tick) < max_errors
           \<and> (\<forall>u \<in> set (replicate 9 short_tick). \<not> exited1 u \<and> \<not> exited2 u \<and> bad_read ?p u)"
    using bad good by (simp add: f tick_fields max_errors_def)
  note e2 = T [THEN conjunct2, THEN conjunct1, THEN mp, OF h2, THEN conjunct1]
  note e3 = T [THEN conjunct2, THEN conjunct2, THEN conjunct1, THEN mp, OF h3, THEN conjunct1]
  note e4 = U [THEN conjunct2, THEN conjunct2, THEN conjunct2, THEN conjunct1, THEN mp, OF h4,
      THEN conjunct2]
  note e6 = T [THEN conjunct2, THEN conjunct2, THEN conjunct2, THEN conjunct2, THEN conjunct2,
      THEN mp, OF h6]
  show ?thesis
    by (intro conjI f(1-3) bad good e2 e3 e4 e6)
qed

subsection \<open>Playback started on the last frame\<close>

text \<open>
  C7, as the specification states it, fails: with 150 frames on the timeline and playback
  started at frame 149, the first pass of the loop ends the run before any frame is read.
  Though a whole frame pair is ready, the current frame is still 149 and no frame
  display is scheduled: there is no frame advancement.
\<close>

theorem last_frame_no_advance_counterexample:
  "total_frames playing_at_149 = FramesInt 150
   \<and> current_frame_num playing_at_149 = 149
   \<and> is_playing playing_at_149
   \<and> \<not> bad_read playing_at_149 good_tick
   \<and> video_playback_loop [good_tick, good_tick] 0 playing_at_149
       = Break (handle_playback_end ''Finished'' playing_at_149)
   \<and> current_frame_num (handle_playback_end ''Finished'' playing_at_149) = 149
   \<and> after_queue (handle_playback_end ''Finished'' playing_at_149)
       = [Cb_play_btn_play, Cb_update_status_bar ''Finished'']"
proof -
  have "\<not> bad_read playing_at_149 good_tick"
    by (simp add: bad_read_def playing_at_149_fields tick_fields frame_a_def frame_b_def)
  moreover have "video_playback_loop [good_tick, good_tick] 0 playing_at_149
       = Break (handle_playback_end ''Finished'' playing_at_149)"
    using playing_at_149_fields(2,3)
    by (simp add: playing_at_149_fields(1,4-6) tick_fields del: not_None_eq)
  ultimately show ?thesis
    by (simp add: playing_at_149_fields handle_playback_end_fields)
qed

text \<open>
  C7, amended. With \<open>timelineLength = 150\<close> and both processes running, playback started
  at frame 149 ends in the first pass of the loop with no frame advancement: the
  current frame stays 149, playing is switched off, and the status update
  \<^verbatim>\<open>Finished\<close> is scheduled (at 30 frames per second the status line reads
  \<^verbatim>\<open>Finished | 00:04 / 00:05\<close>). Exactly one advancement happens when playback starts at
  frame 148: one good read advances to 149 and the next pass ends the run.
\<close>

theorem playback_from_last_frame:
  assumes "is_playing s" and "ffmpeg_process1 s \<noteq> None" and "ffmpeg_process2 s \<noteq> None"
    and "duration_known s" and "total_frames s = FramesInt 150"
    and "\<not> exited1 t" and "\<not> exited2 t"
  shows "(current_frame_num s = 149 \<longrightarrow>
            video_playback_loop (t # ts) c s = Break (handle_playback_end ''Finished'' s)
            \<and> current_frame_num (handle_playback_end ''Finished'' s) = 149
            \<and> \<not> is_playing (handle_playback_end ''Finished'' s)
            \<and> after_queue (handle_playback_end ''Finished'' s)
                = after_queue s @ [Cb_play_btn_play, Cb_update_status_bar ''Finished''])
       \<and> (current_frame_num s = 149 \<and> video_fps s = 30 \<longrightarrow>
            status_var (snd (run_callback ev (Cb_update_status_bar ''Finished'')
                               (handle_playback_end ''Finished'' s)))
            = ''Finished | 00:04 / 00:05'')
       \<and> (current_frame_num s = 148 \<and> \<not> bad_read s t \<and> 0 < video_fps s
           \<and> \<not> exited1 t' \<and> \<not> exited2 t' \<longrightarrow>
            video_playback_loop (t # t' # ts) c s
            = Break (handle_playback_end ''Finished'' (advance_frame t s))
            \<and> current_frame_num (handle_playback_end ''Finished'' (advance_frame t s)) = 149)"
proof (intro conjI impI)
  assume cur: "current_frame_num s = 149"
  with assms show "video_playback_loop (t # ts) c s = Break (handle_playback_end ''Finished'' s)"
    by (simp del: not_None_eq)
  from cur show "current_frame_num (handle_playback_end ''Finished'' s) = 149"
    by (simp add: handle_playback_end_fields)
  show "\<not> is_playing (handle_playback_end ''Finished'' s)"
    by (simp add: handle_playback_end_fields)
  from assms(4) show "after_queue (handle_playback_end ''Finished'' s)
      = after_queue s @ [Cb_play_btn_play, Cb_update_status_bar ''Finished'']"
    by (simp add: handle_playback_end_fields)
next
  assume "current_frame_num s = 149 \<and> video_fps s = 30"
  with assms(4,5) show "status_var (snd (run_callback ev (Cb_update_status_bar ''Finished'')
                               (handle_playback_end ''Finished'' s)))
            = ''Finished | 00:04 / 00:05''"
    by (simp add: update_status_bar_def handle_playback_end_fields Let_def format_time_def
        fmt_02d_def py_str_def py_int_def digits10.simps digit_char_def)
next
  assume h: "current_frame_num s = 148 \<and> \<not> bad_read s t \<and> 0 < video_fps s
           \<and> \<not> exited1 t' \<and> \<not> exited2 t'"
  with assms have "video_playback_loop (t # t' # ts) c s
      = video_playback_loop (t' # ts) 0 (advance_frame t s)"
    by (intro good_read_resets) simp_all
  also have "\<dots> = Break (handle_playback_end ''Finished'' (advance_frame t s))"
    using assms h by (simp add: advance_frame_fields del: not_None_eq)
  finally show "video_playback_loop (t # t' # ts) c s
            = Break (handle_playback_end ''Finished'' (advance_frame t s))" .
  from h show "current_frame_num (handle_playback_end ''Finished'' (advance_frame t s)) = 149"
    by (simp add: handle_playback_end_fields advance_frame_fields)
qed

theorem playback_from_last_frame_witness:
  "is_playing playing_at_149 \<and> ffmpeg_process1 playing_at_149 \<noteq> None
   \<and> ffmpeg_process2 playing_at_149 \<noteq> None \<and> duration_known playing_at_149
   \<and> total_frames playing_at_149 = FramesInt 150
   \<and> \<not> exited1 good_tick \<and> \<not> exited2 good_tick
   \<and> current_frame_num playing_at_149 = 149 \<and> video_fps playing_at_149 = 30
   \<and> video_playback_loop [good_tick] 0 playing_at_149
       = Break (handle_playback_end ''Finished'' playing_at_149)
   \<and> status_var (run_after_queue test_env (handle_playback_end ''Finished'' playing_at_149))
       = ''Finished | 00:04 / 00:05''
   \<and> current_frame_num (playing_at_149\<lparr>current_frame_num := 148\<rparr>) = 148
   \<and> \<not> bad_read (playing_at_149\<lparr>current_frame_num := 148\<rparr>) good_tick
   \<and> current_frame_num
        (final_state (video_playback_loop [good_tick, good_tick] 0
                        (playing_at_149\<lparr>current_frame_num := 148\<rparr>)))
       = 149"
proof -
  let ?u = "playing_at_149\<lparr>current_frame_num := 148\<rparr>"
  note f = playing_at_149_fields
  have u: "is_playing ?u" "ffmpeg_process1 ?u \<noteq> None" "ffmpeg_process2 ?u \<noteq> None"
    "duration_known ?u" "total_frames ?u = FramesInt 150" "current_frame_num ?u = 148"
    "0 < video_fps ?u"
    using f by simp_all
  have good: "\<not> bad_read ?u good_tick"
    by (simp add: bad_read_def f tick_fields frame_a_def frame_b_def)
  have q: "status_var (run_after_queue test_env (handle_playback_end ''Finished'' playing_at_149))
      = status_var (snd (run_callback test_env (Cb_update_status_bar ''Finished'')
                           (handle_playback_end ''Finished'' playing_at_149)))"
    using f(4,8)
    by (simp add: run_after_queue_def handle_playback_end_def update_status_bar_def Let_def
        split: frames.splits)
  from playback_from_last_frame [OF f(1-5) tick_fields(1,2), of "[]" 0 test_env good_tick]
    playback_from_last_frame [OF u(1-5) tick_fields(1,2), of "[]" 0 test_env good_tick]
    f u good q tick_fields
  show ?thesis by simp
qed

end
